(* ===== verification/Prelude.thy ===== *)
theory Prelude
  imports Main "HOL-Library.Word" "HOL-Library.Monad_Syntax"
begin

unbundle bit_operations_syntax

text \<open>
  Shared ground of the development: the machine types, the memory object that a receive
  buffer is, the little-endian reads and writes of its fields, and the lemmas about them that
  every component uses.

  Undefined behaviour is a value: a computation of type \<open>'a ub\<close> is \<open>None\<close> when
  the C++ expression reads outside the object it points into, or overflows a signed
  integer; it is \<open>Some v\<close> when it is defined and yields \<open>v\<close>. A pointer is an offset
  into the object it was derived from.
\<close>

section \<open>Types\<close>

type_synonym u8 = "8 word"
type_synonym u16 = "16 word"
type_synonym u32 = "32 word"
type_synonym u64 = "64 word"

type_synonym 'a ub = "'a option"

type_synonym mem = "u8 list"
type_synonym ptr = nat

abbreviation NUL :: char where
  "NUL \<equiv> CHR 0x00"

named_theorems frame "a computation that is defined on a block of memory is the same on every memory that holds it"
named_theorems rd_simps "evaluation of reads"
named_theorems size_simps "lengths of encoded fields"

lemma bind_SomeE:
  assumes "Option.bind x f = Some y"
  obtains v where "x = Some v" "f v = Some y"
  using assms by (cases x) auto

section \<open>Error values\<close>

text \<open>
  \<open>std::error_code\<close> is a category and a value; the code compares only against zero.
  \<open>std::expected<T, std::error_code>\<close> is a sum with the error on the left.
\<close>

datatype error_category = Generic_Category | System_Category | Asio_Misc_Category

datatype error_code = Error_Code error_category int

fun error_value :: "error_code \<Rightarrow> int" where
  "error_value (Error_Code c v) = v"

type_synonym 'a expected = "error_code + 'a"

section \<open>Reads\<close>

definition rd8 :: "mem \<Rightarrow> ptr \<Rightarrow> u8 ub" where
  "rd8 m p = (if p < length m then Some (m ! p) else None)"

definition rd16 :: "mem \<Rightarrow> ptr \<Rightarrow> u16 ub" where
  "rd16 m p = do {
     a \<leftarrow> rd8 m p;
     b \<leftarrow> rd8 m (p + 1);
     Some (ucast a OR push_bit 8 (ucast b)) }"

definition rd32 :: "mem \<Rightarrow> ptr \<Rightarrow> u32 ub" where
  "rd32 m p = do {
     a \<leftarrow> rd16 m p;
     b \<leftarrow> rd16 m (p + 2);
     Some (ucast a OR push_bit 16 (ucast b)) }"

fun rd_bytes :: "mem \<Rightarrow> ptr \<Rightarrow> nat \<Rightarrow> u8 list ub" where
  "rd_bytes m p 0 = Some []"
| "rd_bytes m p (Suc n) = do {
     b \<leftarrow> rd8 m p;
     bs \<leftarrow> rd_bytes m (p + 1) n;
     Some (b # bs) }"

definition le16 :: "u16 \<Rightarrow> u8 list" where
  "le16 w = [ucast w, ucast (drop_bit 8 w)]"

definition le32 :: "u32 \<Rightarrow> u8 list" where
  "le32 w = le16 (ucast w) @ le16 (ucast (drop_bit 16 w))"

subsection \<open>Lengths\<close>

lemma length_le16 [simp, size_simps]: "length (le16 w) = 2"
  by (simp add: le16_def)

lemma length_le32 [simp, size_simps]: "length (le32 w) = 4"
  by (simp add: le32_def)

lemma rd8_eq_None [simp]: "rd8 m p = None \<longleftrightarrow> length m \<le> p"
  by (simp add: rd8_def)

lemma rd8_in_bounds [rd_simps]: "p < length m \<Longrightarrow> rd8 m p = Some (m ! p)"
  by (simp add: rd8_def)

lemma rd16_defined_iff: "(\<exists>v. rd16 m p = Some v) \<longleftrightarrow> p + 2 \<le> length m"
  by (auto simp: rd16_def rd8_def split: Option.bind_splits)

lemma rd32_defined_iff: "(\<exists>v. rd32 m p = Some v) \<longleftrightarrow> p + 4 \<le> length m"
  by (auto simp: rd32_def rd16_def rd8_def split: Option.bind_splits)

lemma rd_bytes_eq [rd_simps]: "p + n \<le> length m \<Longrightarrow> rd_bytes m p n = Some (take n (drop p m))"
proof (induction n arbitrary: p)
  case 0
  then show ?case by simp
next
  case (Suc n)
  then have "rd_bytes m (p + 1) n = Some (take n (drop (Suc p) m))" by simp
  with Suc.prems show ?case
    by (simp add: rd8_def Cons_nth_drop_Suc [symmetric])
qed

lemma rd_bytes_length: "rd_bytes m p n = Some bs \<Longrightarrow> length bs = n"
  by (induction n arbitrary: p bs) (auto split: Option.bind_splits)

lemma rd_bytes_None: "length m < p + n \<Longrightarrow> 0 < n \<Longrightarrow> rd_bytes m p n = None"
proof (induction n arbitrary: p)
  case 0
  then show ?case by simp
next
  case (Suc n)
  then show ?case by (cases "n = 0") (auto simp: rd8_def split: Option.bind_splits)
qed

subsection \<open>Frame: a defined read depends on the bytes it reads only\<close>

text \<open>
  \<open>embeds b m d\<close>: the object \<open>m\<close> holds the block \<open>b\<close> at offset \<open>d\<close>.
  \<open>ub_le x y\<close>: whenever \<open>x\<close> is defined, \<open>y\<close> is the same value. The rules
  of the collection \<open>frame\<close> push \<open>ub_le\<close> through the operators the model is built of.
\<close>

definition embeds :: "mem \<Rightarrow> mem \<Rightarrow> nat \<Rightarrow> bool" where
  "embeds b m d \<longleftrightarrow> (\<exists>pre post. m = pre @ b @ post \<and> d = length pre)"

definition ub_le :: "'a ub \<Rightarrow> 'a ub \<Rightarrow> bool" where
  "ub_le x y \<longleftrightarrow> (\<forall>v. x = Some v \<longrightarrow> y = Some v)"

lemma embedsI: "m = pre @ b @ post \<Longrightarrow> d = length pre \<Longrightarrow> embeds b m d"
  by (auto simp: embeds_def)

lemma embeds_length: "embeds b m d \<Longrightarrow> d + length b \<le> length m"
  by (auto simp: embeds_def)

lemma embeds_trans: "embeds a b d \<Longrightarrow> embeds b m e \<Longrightarrow> embeds a m (e + d)"
  by (force simp: embeds_def intro: exI [of _ "_ @ _"])

lemma ub_leD: "ub_le x y \<Longrightarrow> x = Some v \<Longrightarrow> y = Some v"
  by (simp add: ub_le_def)

lemma ub_le_refl [frame]: "ub_le x x"
  by (simp add: ub_le_def)

lemma ub_le_None [frame]: "ub_le None x"
  by (simp add: ub_le_def)

lemma ub_le_bind [frame]:
  "ub_le x y \<Longrightarrow> (\<And>v. x = Some v \<Longrightarrow> ub_le (f v) (g v)) \<Longrightarrow> ub_le (Option.bind x f) (Option.bind y g)"
  by (cases x) (auto simp: ub_le_def)

lemma ub_le_map [frame]: "ub_le x y \<Longrightarrow> ub_le (map_option f x) (map_option f y)"
  by (cases x) (auto simp: ub_le_def)

lemma ub_le_if [frame]:
  "(c \<Longrightarrow> ub_le x x') \<Longrightarrow> (\<not> c \<Longrightarrow> ub_le y y') \<Longrightarrow> ub_le (if c then x else y) (if c then x' else y')"
  by simp

lemma rd8_frame [frame]: "embeds b m d \<Longrightarrow> q = d + p \<Longrightarrow> ub_le (rd8 b p) (rd8 m q)"
  by (auto simp: ub_le_def embeds_def rd8_def nth_append)

lemma rd16_frame [frame]: "embeds b m d \<Longrightarrow> q = d + p \<Longrightarrow> ub_le (rd16 b p) (rd16 m q)"
  unfolding rd16_def by (intro frame) (assumption | simp)+

lemma rd32_frame [frame]: "embeds b m d \<Longrightarrow> q = d + p \<Longrightarrow> ub_le (rd32 b p) (rd32 m q)"
  unfolding rd32_def by (intro frame) (assumption | simp)+

lemma rd_bytes_frame [frame]:
  "embeds b m d \<Longrightarrow> q = d + p \<Longrightarrow> ub_le (rd_bytes b p n) (rd_bytes m q n)"
proof (induction n arbitrary: p q)
  case 0
  then show ?case by (simp add: ub_le_refl)
next
  case (Suc n)
  have "ub_le (rd_bytes b (p + 1) n) (rd_bytes m (q + 1) n)"
    using Suc.prems by (intro Suc.IH) simp_all
  with Suc.prems show ?case
    unfolding rd_bytes.simps by (intro frame) (assumption | simp)+
qed

subsection \<open>Round trips of the little-endian fields\<close>

lemma le16_join: "ucast (ucast w :: u8) OR push_bit 8 (ucast (ucast (drop_bit 8 w) :: u8)) = (w :: u16)"
  by (rule bit_word_eqI) (auto simp: bit_simps)

lemma le32_join: "ucast (ucast w :: u16) OR push_bit 16 (ucast (ucast (drop_bit 16 w) :: u16)) = (w :: u32)"
  by (rule bit_word_eqI) (auto simp: bit_simps)

lemma rd16_le16 [rd_simps]: "p = length pre \<Longrightarrow> rd16 (pre @ le16 w @ xs) p = Some w"
  by (simp add: rd16_def rd8_def le16_def nth_append le16_join)

lemma rd32_le32 [rd_simps]: "p = length pre \<Longrightarrow> rd32 (pre @ le32 w @ xs) p = Some w"
proof -
  assume p: "p = length pre"
  have "rd16 (pre @ le16 (ucast w) @ (le16 (ucast (drop_bit 16 w)) @ xs)) p = Some (ucast w)"
    using p by (rule rd16_le16)
  moreover have "rd16 ((pre @ le16 (ucast w)) @ le16 (ucast (drop_bit 16 w)) @ xs) (p + 2)
      = Some (ucast (drop_bit 16 w))"
    by (rule rd16_le16) (simp add: p)
  ultimately show ?thesis
    by (simp add: rd32_def le32_def le32_join)
qed

lemma of_nat_u32_inj:
  assumes "i < 2 ^ 32" "j < 2 ^ 32" "(of_nat i :: u32) = of_nat j"
  shows "i = j"
proof -
  have "unat (of_nat i :: u32) = i" "unat (of_nat j :: u32) = j"
    using assms(1,2) by (simp_all add: unsigned_of_nat take_bit_nat_eq_self)
  then show ?thesis using assms(3) by metis
qed

section \<open>Numbers as text\<close>

text \<open>Unsigned numbers in decimal and, without leading zeros, in hexadecimal.\<close>

fun dec_string :: "nat \<Rightarrow> string" where
  "dec_string n = (if n < 10 then [char_of (48 + n)] else dec_string (n div 10) @ [char_of (48 + n mod 10)])"

declare dec_string.simps [simp del]

fun hex_string :: "nat \<Rightarrow> string" where
  "hex_string n = (if n < 16 then [''0123456789abcdef'' ! n] else hex_string (n div 16) @ [''0123456789abcdef'' ! (n mod 16)])"

declare hex_string.simps [simp del]

end
