(* ===== verification/Nl_Utils.thy ===== *)
theory Nl_Utils
  imports Prelude
begin

text \<open>
  \<open>include/rtaco/core/nl_utils.hxx\<close>: the bitmask operators of the flag enumerations, and the
  enumerations they are enabled for (\<open>LinkEvent::Flags\<close>, \<open>AddressEvent::Flags\<close>,
  \<open>RouteEvent::Flags\<close>). An enumeration value is the word of its underlying type, which is
  unsigned: every value of that type is one of the enumeration.

  A shift converts an operand narrower than \<open>int\<close> to \<open>int\<close> first; its count must lie
  below the width of the converted operand.
\<close>

section \<open>Operators\<close>

definition bitmask_or :: "'a::len word \<Rightarrow> 'a word \<Rightarrow> 'a word" where
  "bitmask_or lhs rhs = lhs OR rhs"

definition bitmask_and :: "'a::len word \<Rightarrow> 'a word \<Rightarrow> 'a word" where
  "bitmask_and lhs rhs = lhs AND rhs"

definition bitmask_xor :: "'a::len word \<Rightarrow> 'a word \<Rightarrow> 'a word" where
  "bitmask_xor lhs rhs = lhs XOR rhs"

definition bitmask_not :: "'a::len word \<Rightarrow> 'a word" where
  "bitmask_not val = NOT val"

text \<open>The compound assignments: the new value of \<open>lhs\<close>, which is also what they return.\<close>

definition bitmask_or_assign :: "'a::len word \<Rightarrow> 'a word \<Rightarrow> 'a word \<times> 'a word" where
  "bitmask_or_assign lhs rhs = (let lhs = bitmask_or lhs rhs in (lhs, lhs))"

definition bitmask_and_assign :: "'a::len word \<Rightarrow> 'a word \<Rightarrow> 'a word \<times> 'a word" where
  "bitmask_and_assign lhs rhs = (let lhs = bitmask_and lhs rhs in (lhs, lhs))"

definition bitmask_xor_assign :: "'a::len word \<Rightarrow> 'a word \<Rightarrow> 'a word \<times> 'a word" where
  "bitmask_xor_assign lhs rhs = (let lhs = bitmask_xor lhs rhs in (lhs, lhs))"

definition promoted_width :: "'a::len word \<Rightarrow> nat" where
  "promoted_width w = max 32 (LENGTH('a))"

definition bitmask_shl :: "'a::len word \<Rightarrow> int \<Rightarrow> 'a word ub" where
  "bitmask_shl lhs shift =
     (if 0 \<le> shift \<and> shift < int (promoted_width lhs) then Some (push_bit (nat shift) lhs) else None)"

definition bitmask_shr :: "'a::len word \<Rightarrow> int \<Rightarrow> 'a word ub" where
  "bitmask_shr lhs shift =
     (if 0 \<le> shift \<and> shift < int (promoted_width lhs) then Some (drop_bit (nat shift) lhs) else None)"

section \<open>Enumerations\<close>

definition link_flags_enum :: "(string \<times> u32) list" where
  "link_flags_enum =
    [(''UNKNOWN'', 0), (''UP'', push_bit 0 1), (''BROADCAST'', push_bit 1 1), (''DEBUG'', push_bit 2 1),
     (''LOOPBACK'', push_bit 3 1), (''POINTOPOINT'', push_bit 4 1), (''NOTRAILERS'', push_bit 5 1),
     (''RUNNING'', push_bit 6 1), (''NOARP'', push_bit 7 1), (''PROMISC'', push_bit 8 1),
     (''ALLMULTI'', push_bit 9 1), (''MASTER'', push_bit 10 1), (''SLAVE'', push_bit 11 1),
     (''MULTICAST'', push_bit 12 1), (''PORTSEL'', push_bit 13 1), (''AUTOMEDIA'', push_bit 14 1),
     (''DYNAMIC'', push_bit 15 1), (''LOWER_UP'', push_bit 16 1), (''DORMANT'', push_bit 17 1),
     (''ECHO'', push_bit 18 1)]"

definition address_flags_enum :: "(string \<times> u32) list" where
  "address_flags_enum =
    [(''NONE'', 0), (''SECONDARY'', push_bit 0 1), (''TEMPORARY'', push_bit 0 1), (''NODAD'', push_bit 1 1),
     (''OPTIMISTIC'', push_bit 2 1), (''DADFAILED'', push_bit 3 1), (''HOMEADDRESS'', push_bit 4 1),
     (''DEPRECATED'', push_bit 5 1), (''TENTATIVE'', push_bit 6 1), (''PERMANENT'', push_bit 7 1),
     (''MANAGETEMPADDR'', push_bit 8 1), (''NOPREFIXROUTE'', push_bit 9 1), (''MCAUTOJOIN'', push_bit 10 1),
     (''STABLE_PRIVACY'', push_bit 11 1)]"

definition route_flags_enum :: "(string \<times> u32) list" where
  "route_flags_enum =
    [(''NONE'', 0), (''NOTIFY'', push_bit 8 1), (''CLONED'', push_bit 9 1), (''EQUALIZE'', push_bit 10 1),
     (''PREFIX'', push_bit 11 1), (''LOOKUP_TABLE'', push_bit 12 1), (''FIB_MATCH'', push_bit 13 1),
     (''OFFLOAD'', push_bit 14 1), (''TRAP'', push_bit 15 1), (''OFFLOAD_FAILED'', push_bit 29 1)]"

section \<open>Sets of flags\<close>

text \<open>
  The abstraction: a value is the set of its bits. The operators are the set operations; setting
  and then clearing a flag that was not set is the identity.
\<close>

definition flag_set :: "'a::len word \<Rightarrow> nat set" where
  "flag_set w = {n. bit w n}"

lemma flag_set_inject: "flag_set a = flag_set b \<longleftrightarrow> a = b"
  unfolding flag_set_def by (auto intro: bit_eqI)

text \<open>
  The bitmask operators are the set operations on the flags: union, intersection, symmetric
  difference and complement in the underlying type; and a value is determined by its flags.
\<close>

lemma bitmask_operators_are_set_operations:
  "flag_set (bitmask_or a b) = flag_set a \<union> flag_set b
   \<and> flag_set (bitmask_and a b) = flag_set a \<inter> flag_set b
   \<and> flag_set (bitmask_xor a b) = (flag_set a - flag_set b) \<union> (flag_set b - flag_set a)
   \<and> (flag_set a = flag_set b \<longleftrightarrow> a = b)
   \<and> flag_set (bitmask_not a) = {..<LENGTH('a::len)} - flag_set (a :: 'a word)"
  by (auto simp: flag_set_inject) (auto simp: flag_set_def bitmask_or_def bitmask_and_def bitmask_xor_def
      bitmask_not_def bit_simps)

lemma flag_set_shl:
  fixes a b :: "'a::len word"
  assumes "bitmask_shl a shift = Some b"
  shows "flag_set b = {n + nat shift | n. n \<in> flag_set a} \<inter> {..<LENGTH('a)}"
proof -
  have "b = push_bit (nat shift) a" using assms by (simp add: bitmask_shl_def split: if_splits)
  then show ?thesis
    by (auto simp: flag_set_def bit_simps)
      (metis le_add_diff_inverse2)
qed

lemma flag_set_shr:
  assumes "bitmask_shr a shift = Some b"
  shows "flag_set b = {n. n + nat shift \<in> flag_set a}"
  using assms by (auto simp: bitmask_shr_def flag_set_def bit_simps add.commute split: if_splits)

end
