(* ===== verification/Netlink.thy ===== *)
theory Netlink
  imports Prelude
begin

text \<open>
  The Linux user-space ABI the program is compiled against: the numbers of
  \<open>linux/netlink.h\<close>, \<open>linux/rtnetlink.h\<close>, \<open>linux/neighbour.h\<close> and
  \<open>sys/socket.h\<close> that the sources name, the layout of the message structs they cast
  buffers to, and the macros they walk messages with (documented in netlink(3), netlink(7),
  rtnetlink(3), rtnetlink(7)). The byte order is that of a little-endian host. The macros keep
  their C arithmetic: \<open>nlmsg_len\<close> and \<open>remaining\<close> are 32-bit and wrap,
  \<open>RTA_PAYLOAD\<close> is a \<open>size_t\<close> and wraps at 64 bits, the attribute length is a
  signed \<open>int\<close>.
\<close>

section \<open>Numbers\<close>

abbreviation (input) NLMSG_NOOP :: u16 where "NLMSG_NOOP \<equiv> 1"
abbreviation (input) NLMSG_ERROR :: u16 where "NLMSG_ERROR \<equiv> 2"
abbreviation (input) NLMSG_DONE :: u16 where "NLMSG_DONE \<equiv> 3"
abbreviation (input) NLMSG_OVERRUN :: u16 where "NLMSG_OVERRUN \<equiv> 4"

abbreviation (input) RTM_NEWLINK :: u16 where "RTM_NEWLINK \<equiv> 16"
abbreviation (input) RTM_DELLINK :: u16 where "RTM_DELLINK \<equiv> 17"
abbreviation (input) RTM_GETLINK :: u16 where "RTM_GETLINK \<equiv> 18"
abbreviation (input) RTM_NEWADDR :: u16 where "RTM_NEWADDR \<equiv> 20"
abbreviation (input) RTM_DELADDR :: u16 where "RTM_DELADDR \<equiv> 21"
abbreviation (input) RTM_GETADDR :: u16 where "RTM_GETADDR \<equiv> 22"
abbreviation (input) RTM_NEWROUTE :: u16 where "RTM_NEWROUTE \<equiv> 24"
abbreviation (input) RTM_DELROUTE :: u16 where "RTM_DELROUTE \<equiv> 25"
abbreviation (input) RTM_GETROUTE :: u16 where "RTM_GETROUTE \<equiv> 26"
abbreviation (input) RTM_NEWNEIGH :: u16 where "RTM_NEWNEIGH \<equiv> 28"
abbreviation (input) RTM_DELNEIGH :: u16 where "RTM_DELNEIGH \<equiv> 29"
abbreviation (input) RTM_GETNEIGH :: u16 where "RTM_GETNEIGH \<equiv> 30"

abbreviation (input) NLM_F_REQUEST :: u16 where "NLM_F_REQUEST \<equiv> 0x1"
abbreviation (input) NLM_F_ACK :: u16 where "NLM_F_ACK \<equiv> 0x4"
abbreviation (input) NLM_F_DUMP :: u16 where "NLM_F_DUMP \<equiv> 0x300"
abbreviation (input) NLM_F_REPLACE :: u16 where "NLM_F_REPLACE \<equiv> 0x100"
abbreviation (input) NLM_F_CREATE :: u16 where "NLM_F_CREATE \<equiv> 0x400"

abbreviation (input) IFLA_IFNAME :: u16 where "IFLA_IFNAME \<equiv> 3"
abbreviation (input) IFA_ADDRESS :: u16 where "IFA_ADDRESS \<equiv> 1"
abbreviation (input) IFA_LOCAL :: u16 where "IFA_LOCAL \<equiv> 2"
abbreviation (input) IFA_LABEL :: u16 where "IFA_LABEL \<equiv> 3"
abbreviation (input) NDA_DST :: u16 where "NDA_DST \<equiv> 1"
abbreviation (input) NDA_LLADDR :: u16 where "NDA_LLADDR \<equiv> 2"
abbreviation (input) RTA_DST :: u16 where "RTA_DST \<equiv> 1"
abbreviation (input) RTA_SRC :: u16 where "RTA_SRC \<equiv> 2"
abbreviation (input) RTA_OIF :: u16 where "RTA_OIF \<equiv> 4"
abbreviation (input) RTA_GATEWAY :: u16 where "RTA_GATEWAY \<equiv> 5"
abbreviation (input) RTA_PRIORITY :: u16 where "RTA_PRIORITY \<equiv> 6"
abbreviation (input) RTA_PREFSRC :: u16 where "RTA_PREFSRC \<equiv> 7"
abbreviation (input) RTA_TABLE :: u16 where "RTA_TABLE \<equiv> 15"

abbreviation (input) RT_TABLE_MAIN :: "'a::len word" where "RT_TABLE_MAIN \<equiv> 254"
abbreviation (input) RT_SCOPE_UNIVERSE :: u8 where "RT_SCOPE_UNIVERSE \<equiv> 0"
abbreviation (input) RTN_UNSPEC :: u8 where "RTN_UNSPEC \<equiv> 0"

abbreviation (input) NUD_NONE :: u16 where "NUD_NONE \<equiv> 0x00"
abbreviation (input) NUD_INCOMPLETE :: u16 where "NUD_INCOMPLETE \<equiv> 0x01"
abbreviation (input) NUD_REACHABLE :: u16 where "NUD_REACHABLE \<equiv> 0x02"
abbreviation (input) NUD_STALE :: u16 where "NUD_STALE \<equiv> 0x04"
abbreviation (input) NUD_DELAY :: u16 where "NUD_DELAY \<equiv> 0x08"
abbreviation (input) NUD_PROBE :: u16 where "NUD_PROBE \<equiv> 0x10"
abbreviation (input) NUD_FAILED :: u16 where "NUD_FAILED \<equiv> 0x20"
abbreviation (input) NUD_NOARP :: u16 where "NUD_NOARP \<equiv> 0x40"
abbreviation (input) NUD_PERMANENT :: u16 where "NUD_PERMANENT \<equiv> 0x80"
abbreviation (input) NTF_USE :: u8 where "NTF_USE \<equiv> 0x01"

abbreviation (input) AF_UNSPEC :: "'a::len word" where "AF_UNSPEC \<equiv> 0"
abbreviation (input) AF_INET :: u8 where "AF_INET \<equiv> 2"
abbreviation (input) AF_INET6 :: u8 where "AF_INET6 \<equiv> 10"
abbreviation (input) AF_NETLINK :: "'a::len word" where "AF_NETLINK \<equiv> 16"
abbreviation (input) INET6_ADDRSTRLEN :: nat where "INET6_ADDRSTRLEN \<equiv> 46"

abbreviation (input) RTMGRP_LINK :: u32 where "RTMGRP_LINK \<equiv> 0x1"
abbreviation (input) RTMGRP_NEIGH :: u32 where "RTMGRP_NEIGH \<equiv> 0x4"
abbreviation (input) RTMGRP_IPV4_IFADDR :: u32 where "RTMGRP_IPV4_IFADDR \<equiv> 0x10"
abbreviation (input) RTMGRP_IPV4_ROUTE :: u32 where "RTMGRP_IPV4_ROUTE \<equiv> 0x40"
abbreviation (input) RTMGRP_IPV6_IFADDR :: u32 where "RTMGRP_IPV6_IFADDR \<equiv> 0x100"
abbreviation (input) RTMGRP_IPV6_ROUTE :: u32 where "RTMGRP_IPV6_ROUTE \<equiv> 0x400"

abbreviation (input) ENOENT :: int where "ENOENT \<equiv> 2"

section \<open>Struct sizes\<close>

abbreviation (input) sizeof_nlmsghdr :: nat where "sizeof_nlmsghdr \<equiv> 16"
abbreviation (input) sizeof_rtattr :: nat where "sizeof_rtattr \<equiv> 4"
abbreviation (input) sizeof_ifinfomsg :: nat where "sizeof_ifinfomsg \<equiv> 16"
abbreviation (input) sizeof_ifaddrmsg :: nat where "sizeof_ifaddrmsg \<equiv> 8"
abbreviation (input) sizeof_rtmsg :: nat where "sizeof_rtmsg \<equiv> 12"
abbreviation (input) sizeof_ndmsg :: nat where "sizeof_ndmsg \<equiv> 12"
abbreviation (input) sizeof_nlmsgerr :: nat where "sizeof_nlmsgerr \<equiv> 20"

section \<open>Message headers\<close>

definition nlmsg_len :: "mem \<Rightarrow> ptr \<Rightarrow> u32 ub" where "nlmsg_len m h = rd32 m h"
definition nlmsg_type :: "mem \<Rightarrow> ptr \<Rightarrow> u16 ub" where "nlmsg_type m h = rd16 m (h + 4)"
definition nlmsg_flags :: "mem \<Rightarrow> ptr \<Rightarrow> u16 ub" where "nlmsg_flags m h = rd16 m (h + 6)"
definition nlmsg_seq :: "mem \<Rightarrow> ptr \<Rightarrow> u32 ub" where "nlmsg_seq m h = rd32 m (h + 8)"
definition nlmsg_pid :: "mem \<Rightarrow> ptr \<Rightarrow> u32 ub" where "nlmsg_pid m h = rd32 m (h + 12)"

lemmas nlmsghdr_defs = nlmsg_len_def nlmsg_type_def nlmsg_flags_def nlmsg_seq_def nlmsg_pid_def

text \<open>The header as a value.\<close>

record nlmsghdr =
  hdr_len :: u32
  hdr_type :: u16
  hdr_flags :: u16
  hdr_seq :: u32
  hdr_pid :: u32

definition rd_nlmsghdr :: "mem \<Rightarrow> ptr \<Rightarrow> nlmsghdr ub" where
  "rd_nlmsghdr m h = do {
     len \<leftarrow> nlmsg_len m h;
     type \<leftarrow> nlmsg_type m h;
     flags \<leftarrow> nlmsg_flags m h;
     seq \<leftarrow> nlmsg_seq m h;
     pid \<leftarrow> nlmsg_pid m h;
     Some \<lparr>hdr_len = len, hdr_type = type, hdr_flags = flags, hdr_seq = seq, hdr_pid = pid\<rparr> }"

definition NLMSG_ALIGN :: "u32 \<Rightarrow> u32" where
  "NLMSG_ALIGN len = (len + 3) AND NOT 3"

definition NLMSG_LENGTH :: "nat \<Rightarrow> nat" where
  "NLMSG_LENGTH len = len + 16"

definition NLMSG_DATA :: "ptr \<Rightarrow> ptr" where
  "NLMSG_DATA h = h + 16"

definition NLMSG_PAYLOAD :: "u32 \<Rightarrow> u32" where
  "NLMSG_PAYLOAD len = len - 16"

definition NLMSG_OK :: "mem \<Rightarrow> ptr \<Rightarrow> u32 \<Rightarrow> bool ub" where
  "NLMSG_OK m h remaining =
     (if remaining < 16 then Some False
      else do {
        len \<leftarrow> nlmsg_len m h;
        Some (16 \<le> len \<and> len \<le> remaining) })"

section \<open>Attributes\<close>

definition rta_len :: "mem \<Rightarrow> ptr \<Rightarrow> u16 ub" where "rta_len m a = rd16 m a"
definition rta_type :: "mem \<Rightarrow> ptr \<Rightarrow> u16 ub" where "rta_type m a = rd16 m (a + 2)"

definition RTA_ALIGN :: "u32 \<Rightarrow> u32" where
  "RTA_ALIGN len = (len + 3) AND NOT 3"

definition RTA_LENGTH :: "nat \<Rightarrow> nat" where
  "RTA_LENGTH len = 4 + len"

definition RTA_DATA :: "ptr \<Rightarrow> ptr" where
  "RTA_DATA a = a + 4"

definition RTA_PAYLOAD :: "u16 \<Rightarrow> u64" where
  "RTA_PAYLOAD len = ucast len - 4"

definition RTA_OK :: "mem \<Rightarrow> ptr \<Rightarrow> int \<Rightarrow> bool ub" where
  "RTA_OK m a attrlen =
     (if attrlen < 4 then Some False
      else do {
        len \<leftarrow> rta_len m a;
        Some (4 \<le> len \<and> uint len \<le> attrlen) })"

text \<open>Signed 32-bit subtraction: overflow is undefined.\<close>

definition s32_minus :: "int \<Rightarrow> int \<Rightarrow> int ub" where
  "s32_minus a b = (let r = a - b in if - (2 ^ 31) \<le> r \<and> r < 2 ^ 31 then Some r else None)"

definition s32_uminus :: "int \<Rightarrow> int ub" where
  "s32_uminus a = s32_minus 0 a"

section \<open>Laws of the macros\<close>

lemma align4_ge: "n \<le> (n + 3) div 4 * (4 :: nat)"
  by presburger

lemma align4_le: "n \<le> 4 * k \<Longrightarrow> (n + 3) div 4 * 4 \<le> 4 * (k :: nat)"
  by presburger

lemma unat_and_not_3: "unat ((x :: u32) AND NOT 3) = unat x div 4 * 4"
proof -
  have "x AND NOT (mask 2) = push_bit 2 (drop_bit 2 x)"
    by (rule bit_word_eqI) (auto simp: bit_simps not_less dest!: le_Suc_ex)
  also have "\<dots> = x - take_bit 2 x"
    using bits_ident [of 2 x] by (metis add_diff_cancel_right')
  finally have "x AND NOT 3 = x - take_bit 2 x"
    by (simp add: mask_eq_exp_minus_1)
  moreover have "unat (take_bit 2 x) = unat x mod 4"
    by (simp add: take_bit_eq_mod unat_mod)
  ultimately show ?thesis
    by (simp add: unat_sub word_le_nat_alt minus_mod_eq_div_mult)
qed

lemma unat_ucast_u16_u32 [simp]: "unat (ucast (w :: u16) :: u32) = unat w"
proof -
  have "unat w < 2 ^ 16" using unsigned_less [of w] by simp
  then show ?thesis by (simp add: unsigned_ucast_eq take_bit_nat_eq_self)
qed

lemma unat_NLMSG_ALIGN: "unat len + 3 < 2 ^ 32 \<Longrightarrow> unat (NLMSG_ALIGN len) = (unat len + 3) div 4 * 4"
  unfolding NLMSG_ALIGN_def unat_and_not_3 by (subst unat_add_lem [THEN iffD1]) simp_all

lemma unat_RTA_ALIGN: "unat len + 3 < 2 ^ 32 \<Longrightarrow> unat (RTA_ALIGN len) = (unat len + 3) div 4 * 4"
  unfolding RTA_ALIGN_def unat_and_not_3 by (subst unat_add_lem [THEN iffD1]) simp_all

lemma unat_RTA_ALIGN_u16: "unat (RTA_ALIGN (ucast (len :: u16))) = (unat len + 3) div 4 * 4"
proof -
  have "unat len < 2 ^ 16" using unsigned_less [of len] by simp
  then show ?thesis using unat_RTA_ALIGN [of "ucast len"] by simp
qed

lemma uint_RTA_ALIGN_u16: "uint (RTA_ALIGN (ucast (len :: u16))) = (uint len + 3) div 4 * 4"
proof -
  have "uint (RTA_ALIGN (ucast len)) = int (unat (RTA_ALIGN (ucast len)))"
    by (rule uint_nat)
  also have "\<dots> = (int (unat len) + 3) div 4 * 4"
    by (simp only: unat_RTA_ALIGN_u16) (simp add: zdiv_int)
  finally show ?thesis by (simp only: uint_nat)
qed

lemma NLMSG_OK_frame [frame]: "embeds b m d \<Longrightarrow> q = d + p \<Longrightarrow> ub_le (NLMSG_OK b p r) (NLMSG_OK m q r)"
  unfolding NLMSG_OK_def nlmsg_len_def by (intro frame) (assumption | simp)+

lemma RTA_OK_frame [frame]: "embeds b m d \<Longrightarrow> q = d + p \<Longrightarrow> ub_le (RTA_OK b p r) (RTA_OK m q r)"
  unfolding RTA_OK_def rta_len_def by (intro frame) (assumption | simp)+

lemma nlmsghdr_frame [frame]:
  assumes "embeds b m d" "q = d + p"
  shows "ub_le (nlmsg_len b p) (nlmsg_len m q)" "ub_le (nlmsg_type b p) (nlmsg_type m q)"
    "ub_le (nlmsg_flags b p) (nlmsg_flags m q)" "ub_le (nlmsg_seq b p) (nlmsg_seq m q)"
    "ub_le (nlmsg_pid b p) (nlmsg_pid m q)"
  using assms unfolding nlmsghdr_defs by (auto intro!: frame)

lemma rd_nlmsghdr_frame [frame]:
  "embeds b m d \<Longrightarrow> q = d + p \<Longrightarrow> ub_le (rd_nlmsghdr b p) (rd_nlmsghdr m q)"
  unfolding rd_nlmsghdr_def by (rule frame | assumption)+

lemma rtattr_frame [frame]:
  assumes "embeds b m d" "q = d + p"
  shows "ub_le (rta_len b p) (rta_len m q)" "ub_le (rta_type b p) (rta_type m q)"
  using assms unfolding rta_len_def rta_type_def by (auto intro!: frame)

end
