(* ===== verification/Nl_Common.thy ===== *)
theory Nl_Common
  imports Netlink
begin

text \<open>
  The helpers of \<open>include/rtaco/core/nl_common.hxx\<close>: trimming of strings, access to the
  payload of an attribute as a string, an address, a number or a hardware address, the typed
  view of a message payload and the loop over the attributes of a message.

  A pointer argument is an offset into the object \<open>m\<close> (the receive buffer). The checks of
  the source against \<open>nullptr\<close> are on addresses computed from a reference and never
  succeed; they have no counterpart here.
\<close>

section \<open>Strings\<close>

definition chr_of_byte :: "u8 \<Rightarrow> char" where
  "chr_of_byte b = char_of (unat b)"

text \<open>\<open>trim_string(std::string_view)\<close>: the loop drops trailing NUL characters.\<close>

function trim_string :: "string \<Rightarrow> string" where
  "trim_string sv = (if sv \<noteq> [] \<and> last sv = NUL then trim_string (butlast sv) else sv)"
  by pat_completeness auto
termination
  by (relation "measure length") auto

declare trim_string.simps [simp del]

text \<open>
  A \<open>const char*\<close> turned into a \<open>std::string_view\<close>: the characters up to the first NUL,
  wherever in the object that is; undefined when the object holds no NUL from there on.
\<close>

function c_string :: "mem \<Rightarrow> ptr \<Rightarrow> string ub" where
  "c_string m p =
     (if p < length m then
        if m ! p = 0 then Some []
        else map_option (\<lambda>s. chr_of_byte (m ! p) # s) (c_string m (p + 1))
      else None)"
  by pat_completeness auto
termination
  by (relation "measure (\<lambda>(m, p). length m - p)") auto

declare c_string.simps [simp del]

section \<open>Attribute payloads\<close>

definition attribute_string :: "mem \<Rightarrow> ptr \<Rightarrow> string ub" where
  "attribute_string m attr = do {
     len \<leftarrow> rta_len m attr;
     if RTA_PAYLOAD len = 0 then Some []
     else do {
       s \<leftarrow> c_string m (RTA_DATA attr);
       Some (trim_string s) } }"

text \<open>
  \<open>inet_ntop(3)\<close> is a parameter: given the family and the bytes of an address it yields the
  text, or nothing when it fails. It reads 4 bytes for \<open>AF_INET\<close> and 16 for
  \<open>AF_INET6\<close>, and leaves the text and a NUL in a buffer that was all NUL.
\<close>

type_synonym inet_ntop = "u8 \<Rightarrow> u8 list \<Rightarrow> string option"

definition ntop_buffer :: "string \<Rightarrow> string" where
  "ntop_buffer text = take INET6_ADDRSTRLEN (text @ replicate INET6_ADDRSTRLEN NUL)"

definition attribute_address :: "inet_ntop \<Rightarrow> mem \<Rightarrow> ptr \<Rightarrow> u8 \<Rightarrow> string ub" where
  "attribute_address ntop m attr family =
     (if family = AF_INET \<or> family = AF_INET6 then do {
        addr \<leftarrow> rd_bytes m (RTA_DATA attr) (if family = AF_INET then 4 else 16);
        Some (case ntop family addr of
                None \<Rightarrow> []
              | Some text \<Rightarrow> trim_string (ntop_buffer text)) }
      else Some [])"

definition attribute_uint32 :: "mem \<Rightarrow> ptr \<Rightarrow> u32 ub" where
  "attribute_uint32 m attr = do {
     len \<leftarrow> rta_len m attr;
     if RTA_PAYLOAD len < 4 then Some 0
     else rd32 m (RTA_DATA attr) }"

definition kHex :: string where
  "kHex = ''0123456789abcdef''"

definition hex_byte :: "u8 \<Rightarrow> string" where
  "hex_byte byte = [kHex ! unat (drop_bit 4 byte AND 0x0F), kHex ! unat (byte AND 0x0F)]"

text \<open>The loop over the bytes: a colon before every byte but the first.\<close>

definition hwaddr_string :: "u8 list \<Rightarrow> string" where
  "hwaddr_string data =
     concat (map (\<lambda>i. (if i \<noteq> 0 then '':'' else []) @ hex_byte (data ! i)) [0..<length data])"

definition attribute_hwaddr :: "mem \<Rightarrow> ptr \<Rightarrow> string ub" where
  "attribute_hwaddr m attr = do {
     len \<leftarrow> rta_len m attr;
     if RTA_PAYLOAD len = 0 then Some []
     else do {
       data \<leftarrow> rd_bytes m (RTA_DATA attr) (unat (RTA_PAYLOAD len));
       Some (hwaddr_string data) } }"

section \<open>Message payloads\<close>

text \<open>\<open>get_msg_payload<MsgT>\<close>, for a message struct of \<open>sz\<close> bytes; \<open>None\<close> is the null pointer.\<close>

definition get_msg_payload :: "nat \<Rightarrow> mem \<Rightarrow> ptr \<Rightarrow> ptr option ub" where
  "get_msg_payload sz m header = do {
     len \<leftarrow> nlmsg_len m header;
     Some (if unat len < NLMSG_LENGTH sz then None else Some (NLMSG_DATA header)) }"

text \<open>The loop of \<open>for_each_attr\<close>: \<open>fn\<close> is called on each attribute in turn.\<close>

function attr_loop :: "(ptr \<Rightarrow> 's \<Rightarrow> 's ub) \<Rightarrow> mem \<Rightarrow> ptr \<Rightarrow> int \<Rightarrow> 's \<Rightarrow> 's ub" where
  "attr_loop fn m attr attr_length s = do {
     ok \<leftarrow> RTA_OK m attr attr_length;
     if \<not> ok then Some s
     else do {
       s' \<leftarrow> fn attr s;
       len \<leftarrow> rta_len m attr;
       attr_loop fn m (attr + unat (RTA_ALIGN (ucast len)))
         (attr_length - uint (RTA_ALIGN (ucast len))) s' } }"
  by pat_completeness auto
termination
proof (relation "measure (\<lambda>(fn, m, attr, attr_length, s). nat attr_length)")
  fix fn :: "ptr \<Rightarrow> 's \<Rightarrow> 's ub" and m attr attr_length ok len
  fix s s' :: 's
  assume "RTA_OK m attr attr_length = Some ok" "\<not> \<not> ok" "rta_len m attr = Some len"
  then have "4 \<le> attr_length" "4 \<le> len"
    by (auto simp: RTA_OK_def bind_eq_Some_conv split: if_splits)
  then have "uint (RTA_ALIGN (ucast len)) > 0"
    by (simp add: uint_RTA_ALIGN_u16 word_le_def)
  with \<open>4 \<le> attr_length\<close>
  show "((fn, m, attr + unat (RTA_ALIGN (ucast len)),
          attr_length - uint (RTA_ALIGN (ucast len)), s'), fn, m, attr, attr_length, s)
      \<in> measure (\<lambda>(fn, m, attr, attr_length, s). nat attr_length)"
    by simp
qed simp

declare attr_loop.simps [simp del]

definition for_each_attr :: "nat \<Rightarrow> mem \<Rightarrow> ptr \<Rightarrow> ptr option \<Rightarrow> (ptr \<Rightarrow> 's \<Rightarrow> 's ub) \<Rightarrow> 's \<Rightarrow> 's ub" where
  "for_each_attr sz m header info fn s =
     (case info of
        None \<Rightarrow> Some s
      | Some p \<Rightarrow> do {
          len \<leftarrow> nlmsg_len m header;
          attr_length \<leftarrow> s32_minus (sint len) (int (NLMSG_LENGTH sz));
          if attr_length \<le> 0 then Some s
          else attr_loop fn m (p + unat (NLMSG_ALIGN (of_nat sz))) attr_length s })"

text \<open>The loop of \<open>extract_ifname\<close>: the first \<open>IFLA_IFNAME\<close> attribute with a payload.\<close>

function ifname_loop :: "mem \<Rightarrow> ptr \<Rightarrow> int \<Rightarrow> string ub" where
  "ifname_loop m attr attr_length = do {
     ok \<leftarrow> RTA_OK m attr attr_length;
     if \<not> ok then Some []
     else do {
       type \<leftarrow> rta_type m attr;
       len \<leftarrow> rta_len m attr;
       if type \<noteq> IFLA_IFNAME \<or> RTA_PAYLOAD len = 0 then
         ifname_loop m (attr + unat (RTA_ALIGN (ucast len)))
           (attr_length - uint (RTA_ALIGN (ucast len)))
       else do {
         s \<leftarrow> c_string m (RTA_DATA attr);
         Some (trim_string s) } } }"
  by pat_completeness auto
termination
proof (relation "measure (\<lambda>(m, attr, attr_length). nat attr_length)")
  fix m attr attr_length ok type len
  assume "RTA_OK m attr attr_length = Some ok" "\<not> \<not> ok" "rta_len m attr = Some len"
  then have "4 \<le> attr_length" "4 \<le> len"
    by (auto simp: RTA_OK_def bind_eq_Some_conv split: if_splits)
  then have "uint (RTA_ALIGN (ucast len)) > 0"
    by (simp add: uint_RTA_ALIGN_u16 word_le_def)
  with \<open>4 \<le> attr_length\<close>
  show "((m, attr + unat (RTA_ALIGN (ucast len)),
          attr_length - uint (RTA_ALIGN (ucast len))), m, attr, attr_length)
      \<in> measure (\<lambda>(m, attr, attr_length). nat attr_length)"
    by simp
qed simp

declare ifname_loop.simps [simp del]

definition extract_ifname :: "mem \<Rightarrow> ptr \<Rightarrow> string ub" where
  "extract_ifname m header = do {
     len \<leftarrow> nlmsg_len m header;
     if unat len < NLMSG_LENGTH sizeof_ifinfomsg then Some []
     else do {
       attr_length \<leftarrow> s32_minus (sint len) (int (NLMSG_LENGTH sizeof_ifinfomsg));
       if attr_length \<le> 0 then Some []
       else ifname_loop m (NLMSG_DATA header + unat (NLMSG_ALIGN (of_nat sizeof_ifinfomsg))) attr_length } }"

section \<open>Facts about strings\<close>

lemma trim_string_rev: "trim_string sv = rev (dropWhile (\<lambda>c. c = NUL) (rev sv))"
proof (induction sv rule: rev_induct)
  case Nil
  then show ?case by (simp add: trim_string.simps)
next
  case (snoc x xs)
  then show ?case by (simp add: trim_string.simps [of "xs @ [x]"])
qed

lemma trim_string_no_trailing: "sv = [] \<or> last sv \<noteq> NUL \<Longrightarrow> trim_string sv = sv"
  by (subst trim_string.simps) auto

lemma trim_string_replicate: "trim_string (sv @ replicate n NUL) = trim_string sv"
  unfolding trim_string_rev by (subst rev_append, subst dropWhile_append2) auto

lemma trim_string_last: "trim_string sv \<noteq> [] \<Longrightarrow> last (trim_string sv) \<noteq> NUL"
  using hd_dropWhile [of "\<lambda>c. c = NUL" "rev sv"] by (auto simp: trim_string_rev last_rev)

lemma trim_string_decomp: "\<exists>n. sv = trim_string sv @ replicate n NUL"
proof -
  have "takeWhile (\<lambda>c. c = NUL) (rev sv) = replicate (length (takeWhile (\<lambda>c. c = NUL) (rev sv))) NUL"
    by (rule replicate_eqI) (auto dest: set_takeWhileD)
  then obtain n where n: "takeWhile (\<lambda>c. c = NUL) (rev sv) = replicate n NUL" by blast
  have "rev (rev sv) = rev (dropWhile (\<lambda>c. c = NUL) (rev sv)) @ rev (takeWhile (\<lambda>c. c = NUL) (rev sv))"
    by (simp only: rev_append [symmetric] takeWhile_dropWhile_id)
  then have "sv = trim_string sv @ replicate n NUL"
    by (simp add: n trim_string_rev)
  then show ?thesis by blast
qed

lemma trim_ntop_buffer:
  assumes "length text < INET6_ADDRSTRLEN" and "text = [] \<or> last text \<noteq> NUL"
  shows "trim_string (ntop_buffer text) = text"
proof -
  have "ntop_buffer text = text @ replicate (INET6_ADDRSTRLEN - length text) NUL"
    using assms(1) by (simp add: ntop_buffer_def)
  then show ?thesis
    using assms(2) by (simp add: trim_string_replicate trim_string_no_trailing)
qed

lemma chr_of_byte_eq [simp]: "chr_of_byte a = chr_of_byte b \<longleftrightarrow> a = b"
proof
  assume "chr_of_byte a = chr_of_byte b"
  then have "(of_char (chr_of_byte a) :: nat) = of_char (chr_of_byte b)" by simp
  moreover have "unat a < 256" "unat b < 256"
    using unsigned_less [of a] unsigned_less [of b] by simp_all
  ultimately show "a = b" by (simp add: chr_of_byte_def unsigned_word_eqI)
qed simp

lemma chr_of_byte_0 [simp]: "chr_of_byte 0 = NUL"
  by (simp add: chr_of_byte_def char_of_def)

lemma chr_of_byte_NUL [simp]: "chr_of_byte b = NUL \<longleftrightarrow> b = 0"
  using chr_of_byte_eq [of b 0] by (simp del: chr_of_byte_eq)

lemma chr_of_byte_NUL' [simp]: "NUL = chr_of_byte b \<longleftrightarrow> b = 0"
  using chr_of_byte_NUL [of b] by (metis chr_of_byte_NUL)

lemma c_string_terminated:
  "0 \<notin> set bs \<Longrightarrow> c_string (pre @ bs @ 0 # post) (length pre) = Some (map chr_of_byte bs)"
proof (induction bs arbitrary: pre)
  case Nil
  then show ?case by (simp add: c_string.simps)
next
  case (Cons b bs)
  then have "c_string ((pre @ [b]) @ bs @ 0 # post) (length (pre @ [b])) = Some (map chr_of_byte bs)"
    by (intro Cons.IH) simp
  with Cons.prems show ?case
    by (subst c_string.simps) (auto simp: nth_append)
qed

lemma c_string_no_NUL: "c_string m p = Some s \<Longrightarrow> NUL \<notin> set s"
proof (induction m p arbitrary: s rule: c_string.induct)
  case (1 m p)
  then show ?case
    by (subst (asm) (2) c_string.simps) (auto split: if_splits)
qed

lemma trim_c_string: "c_string m p = Some s \<Longrightarrow> trim_string s = s"
  by (metis c_string_no_NUL last_in_set trim_string_no_trailing)

lemma c_string_frame [frame]: "embeds b m d \<Longrightarrow> q = d + p \<Longrightarrow> ub_le (c_string b p) (c_string m q)"
proof (induction b p arbitrary: q rule: c_string.induct)
  case (1 b p)
  show ?case
  proof (cases "p < length b \<and> b ! p \<noteq> 0")
    case True
    with 1 have "ub_le (c_string b (p + 1)) (c_string m (q + 1))" by simp
    moreover have "q < length m" "m ! q = b ! p"
      using True "1.prems" by (auto simp: embeds_def nth_append)
    ultimately show ?thesis
      using True by (subst (1 2) c_string.simps) (auto intro!: frame)
  next
    case False
    then show ?thesis
      using "1.prems" by (subst (1 2) c_string.simps) (auto simp: embeds_def nth_append intro!: frame)
  qed
qed

section \<open>Frame of the attribute helpers\<close>

lemma attribute_frame [frame]:
  assumes "embeds b m d" "q = d + p"
  shows "ub_le (attribute_string b p) (attribute_string m q)"
    "ub_le (attribute_address ntop b p family) (attribute_address ntop m q family)"
    "ub_le (attribute_uint32 b p) (attribute_uint32 m q)"
    "ub_le (attribute_hwaddr b p) (attribute_hwaddr m q)"
  using assms
  unfolding attribute_string_def attribute_address_def attribute_uint32_def attribute_hwaddr_def
    RTA_DATA_def
  by (intro frame; (assumption | simp))+

lemma get_msg_payload_frame:
  assumes "embeds b m d" "q = d + p"
  shows "ub_le (map_option (map_option (\<lambda>i. d + i)) (get_msg_payload sz b p)) (get_msg_payload sz m q)"
  using assms unfolding get_msg_payload_def NLMSG_DATA_def
  by (cases "nlmsg_len b p") (auto simp: ub_le_def dest: ub_leD [OF nlmsghdr_frame(1)])

lemma get_msg_payload_bind_frame:
  assumes "embeds b m d" "q = d + p"
    and "ub_le (f None) (g None)" and "\<And>i. ub_le (f (Some i)) (g (Some (d + i)))"
  shows "ub_le (Option.bind (get_msg_payload sz b p) f) (Option.bind (get_msg_payload sz m q) g)"
  using assms get_msg_payload_frame [OF assms(1,2), of sz]
  by (cases "get_msg_payload sz b p"; cases "the (get_msg_payload sz b p)") (auto simp: ub_le_def)

lemma attr_loop_frame:
  assumes "embeds b m d" and "\<And>a a' s. a' = d + a \<Longrightarrow> ub_le (fn a s) (fn' a' s)" and "q = d + p"
  shows "ub_le (attr_loop fn b p n s) (attr_loop fn' m q n s)"
  using assms
proof (induction fn b p n s arbitrary: q rule: attr_loop.induct)
  case (1 fn b p n s)
  show ?case
    by (subst (1 2) attr_loop.simps) (rule frame "1.IH" "1.prems" | assumption | simp add: "1.prems"(3))+
qed

lemma for_each_attr_frame:
  assumes "embeds b m d" and "\<And>a a' s. a' = d + a \<Longrightarrow> ub_le (fn a s) (fn' a' s)"
    and "q = d + p" and "info' = map_option (\<lambda>i. d + i) info"
  shows "ub_le (for_each_attr sz b p info fn s) (for_each_attr sz m q info' fn' s)"
proof (cases info)
  case None
  then show ?thesis using assms(4) by (simp add: for_each_attr_def ub_le_refl)
next
  case (Some i)
  show ?thesis
    unfolding for_each_attr_def assms(4) Some option.case option.map
    by (rule frame attr_loop_frame assms | assumption | simp)+
qed

lemma ifname_loop_frame [frame]:
  assumes "embeds b m d" and "q = d + p"
  shows "ub_le (ifname_loop b p n) (ifname_loop m q n)"
  using assms
proof (induction b p n arbitrary: q rule: ifname_loop.induct)
  case (1 b p n)
  show ?case
    by (subst (1 2) ifname_loop.simps)
      (rule frame "1.IH" "1.prems" | assumption | simp add: RTA_DATA_def "1.prems"(2))+
qed

lemma extract_ifname_frame [frame]:
  assumes "embeds b m d" and "q = d + p"
  shows "ub_le (extract_ifname b p) (extract_ifname m q)"
  unfolding extract_ifname_def NLMSG_DATA_def
  by (rule frame assms | assumption | simp add: assms(2))+

text \<open>What every call of the callback preserves, the loop preserves.\<close>

lemma attr_loop_preserves:
  assumes "attr_loop fn m p n s = Some s'" "P s"
    and "\<And>a s s'. fn a s = Some s' \<Longrightarrow> P s \<Longrightarrow> P s'"
  shows "P s'"
  using assms
proof (induction fn m p n s arbitrary: s' rule: attr_loop.induct)
  case (1 fn m p n s)
  have eq: "RTA_OK m p n \<bind> (\<lambda>ok. if \<not> ok then Some s else fn p s \<bind> (\<lambda>s1. rta_len m p \<bind>
      (\<lambda>len. attr_loop fn m (p + unat (RTA_ALIGN (ucast len))) (n - uint (RTA_ALIGN (ucast len))) s1)))
    = Some s'"
    using "1.prems"(1) by (subst (asm) attr_loop.simps)
  then obtain ok where ok: "RTA_OK m p n = Some ok" by (auto simp: bind_eq_Some_conv)
  show ?case
  proof (cases ok)
    case False
    with eq ok "1.prems"(2) show ?thesis by simp
  next
    case True
    with ok eq obtain s1 len where s1: "fn p s = Some s1" and len: "rta_len m p = Some len"
      and rest: "attr_loop fn m (p + unat (RTA_ALIGN (ucast len)))
          (n - uint (RTA_ALIGN (ucast len))) s1 = Some s'"
      by (auto simp: bind_eq_Some_conv)
    have "P s1" using "1.prems"(3) [OF s1 "1.prems"(2)] .
    then show ?thesis
      using "1.IH" [OF ok _ s1 len rest] True "1.prems"(3) by blast
  qed
qed

lemma for_each_attr_preserves:
  assumes "for_each_attr sz m h info fn s = Some s'" "P s"
    and "\<And>a s s'. fn a s = Some s' \<Longrightarrow> P s \<Longrightarrow> P s'"
  shows "P s'"
  using assms(1,2) attr_loop_preserves [where P = P, OF _ assms(2,3)]
  by (auto simp: for_each_attr_def bind_eq_Some_conv split: option.splits if_splits)

text \<open>What \<open>trim_string\<close> drops is NUL only, and what it keeps does not end in NUL.\<close>

lemma trim_string_exact:
  "(\<exists>n. sv = trim_string sv @ replicate n NUL) \<and> \<not> (trim_string sv \<noteq> [] \<and> last (trim_string sv) = NUL)"
  using trim_string_decomp trim_string_last by blast

section \<open>Properties\<close>

text \<open>Reading a printed hardware address back.\<close>

definition nibble_of :: "char \<Rightarrow> u8 option" where
  "nibble_of = map_of (zip kHex (map of_nat [0..<16]))"

fun parse_hwaddr :: "string \<Rightarrow> u8 list option" where
  "parse_hwaddr (h # l # rest) = do {
     a \<leftarrow> nibble_of h;
     b \<leftarrow> nibble_of l;
     let byte = push_bit 4 a OR b;
     case rest of
       [] \<Rightarrow> Some [byte]
     | c # rest' \<Rightarrow> if c = CHR '':'' then map_option (Cons byte) (parse_hwaddr rest') else None }"
| "parse_hwaddr s = (if s = [] then Some [] else None)"

lemma hwaddr_string_Cons:
  "hwaddr_string (b # bs) = hex_byte b @ concat (map (\<lambda>b. '':'' @ hex_byte b) bs)"
proof -
  have "map (\<lambda>i. (if i \<noteq> 0 then '':'' else []) @ hex_byte ((b # bs) ! i)) [Suc 0..<Suc (length bs)]
      = map (\<lambda>i. '':'' @ hex_byte (bs ! i)) [0..<length bs]"
    unfolding map_Suc_upt [symmetric] by simp
  also have "\<dots> = map (\<lambda>b. '':'' @ hex_byte b) bs"
    by (simp add: map_nth [symmetric] map_map [symmetric] del: map_map) (simp add: map_equality_iff)
  finally show ?thesis
    by (simp add: hwaddr_string_def upt_conv_Cons del: upt_Suc)
qed

lemma nibble_of_kHex:
  assumes "unat (x :: u8) < 16"
  shows "nibble_of (kHex ! unat x) = Some x"
proof -
  have "\<forall>n \<in> set [0..<16]. nibble_of (kHex ! n) = Some (of_nat n)"
    by (simp add: nibble_of_def kHex_def upt_conv_Cons)
  then have "nibble_of (kHex ! unat x) = Some (of_nat (unat x))" using assms by auto
  then show ?thesis by simp
qed

lemma parse_hex_byte:
  "parse_hwaddr (hex_byte b @ rest) =
     (case rest of
        [] \<Rightarrow> Some [b]
      | c # rest' \<Rightarrow> if c = CHR '':'' then map_option (Cons b) (parse_hwaddr rest') else None)"
proof -
  have low: "unat (x AND 0xF) < 16" for x :: u8
  proof -
    have "x AND 0xF = take_bit 4 x"
      by (simp add: take_bit_eq_mask mask_eq_exp_minus_1)
    then show ?thesis by (simp add: take_bit_eq_mod unat_mod)
  qed
  have "push_bit 4 (drop_bit 4 b AND 0xF) OR (b AND 0xF) = b"
  proof -
    have m: "(0xF :: u8) = mask 4" by (simp add: mask_eq_exp_minus_1)
    show ?thesis
      unfolding m by (rule bit_word_eqI) (auto simp: bit_simps not_less)
  qed
  then show ?thesis
    by (cases rest) (simp_all add: hex_byte_def nibble_of_kHex [OF low])
qed

text \<open>
  C27. \<open>attribute_hwaddr\<close>'s text determines the address: reading the printed bytes back yields
  them, and the text has the length the function reserves, less the last separator.
\<close>

theorem hwaddr_roundtrip:
  "parse_hwaddr (hwaddr_string data) = Some data \<and> length (hwaddr_string data) = 3 * length data - 1"
proof (cases data)
  case Nil
  then show ?thesis by (simp add: hwaddr_string_def)
next
  case (Cons b bs)
  have "parse_hwaddr (hex_byte b @ concat (map (\<lambda>b. '':'' @ hex_byte b) bs)) = Some (b # bs)" for b
    by (induction bs arbitrary: b) (simp_all add: parse_hex_byte parse_hex_byte [where rest = "[]", simplified])
  moreover have "length (concat (map (\<lambda>b. '':'' @ hex_byte b) bs)) = 3 * length bs"
    by (induction bs) (simp_all add: hex_byte_def)
  ultimately show ?thesis by (simp add: Cons hwaddr_string_Cons hex_byte_def)
qed

end
