(* ===== verification/Event_Parser.thy ===== *)
theory Event_Parser
  imports Nl_Common
begin

text \<open>
  The contract that the four \<open>from_nlmsghdr\<close> functions share and that their clients (the
  dump tasks, the get task and the listener) rely on: a parser reads the message it is given
  and nothing outside of it when it is defined there, and the event it yields has the type
  \<open>UNKNOWN\<close> exactly when the message is of another type than the two it handles or is too
  short for its message struct.
\<close>

locale event_parser =
  fixes parse :: "mem \<Rightarrow> ptr \<Rightarrow> 'ev ub"
    and unknown :: "'ev \<Rightarrow> bool"
    and is_new :: "'ev \<Rightarrow> bool"
    and new_type del_type :: u16
    and sz :: nat
  assumes parse_frame: "embeds b m d \<Longrightarrow> q = d + p \<Longrightarrow> ub_le (parse b p) (parse m q)"
    and parse_unknown: "parse m h = Some ev \<Longrightarrow> nlmsg_type m h = Some ty \<Longrightarrow>
      unknown ev \<longleftrightarrow> (ty \<noteq> new_type \<and> ty \<noteq> del_type)
        \<or> (\<exists>len. nlmsg_len m h = Some len \<and> unat len < NLMSG_LENGTH sz)"
    and parse_new: "parse m h = Some ev \<Longrightarrow> nlmsg_type m h = Some ty \<Longrightarrow>
      is_new ev \<longleftrightarrow> ty = new_type \<and> \<not> unknown ev"
    and parse_type: "parse m h = Some ev \<Longrightarrow> \<exists>ty. nlmsg_type m h = Some ty"
    and parse_other: "nlmsg_type m h = Some ty \<Longrightarrow> ty \<noteq> new_type \<Longrightarrow> ty \<noteq> del_type \<Longrightarrow>
      \<exists>ev. parse m h = Some ev"
    and types_differ: "new_type \<noteq> del_type"
begin

lemma parse_embedded: "parse b 0 = Some ev \<Longrightarrow> embeds b m d \<Longrightarrow> parse m d = Some ev"
  using parse_frame [of b m d d 0] by (auto dest: ub_leD)

lemma known_type:
  "parse m h = Some ev \<Longrightarrow> \<not> unknown ev \<Longrightarrow>
     nlmsg_type m h = Some new_type \<or> nlmsg_type m h = Some del_type"
  using parse_type parse_unknown by blast

lemma new_not_unknown: "parse m h = Some ev \<Longrightarrow> is_new ev \<Longrightarrow> \<not> unknown ev"
  using parse_type parse_new by blast

end

end
