(* ===== verification/Encoding.thy ===== *)
theory Encoding
  imports Nl_Common
begin

text \<open>
  The wire format of rtnetlink, as the kernel writes it: an attribute is a 4-byte header and
  its payload, padded to 4 bytes; a message is a 16-byte header, a message struct and its
  attributes; a datagram is a sequence of padded messages. These encoders are the reference
  that the parsers of the program are verified against; they do not occur in the program.
\<close>

section \<open>Attributes\<close>

definition pad4 :: "u8 list \<Rightarrow> u8 list" where
  "pad4 bs = bs @ replicate ((4 - length bs mod 4) mod 4) 0"

type_synonym attr = "u16 \<times> u8 list"

definition attr_len :: "attr \<Rightarrow> u16" where
  "attr_len a = of_nat (4 + length (snd a))"

definition enc_attr :: "attr \<Rightarrow> u8 list" where
  "enc_attr a = pad4 (le16 (attr_len a) @ le16 (fst a) @ snd a)"

definition enc_attrs :: "attr list \<Rightarrow> u8 list" where
  "enc_attrs as = concat (map enc_attr as)"

definition wf_attr :: "attr \<Rightarrow> bool" where
  "wf_attr a \<longleftrightarrow> 4 + length (snd a) < 2 ^ 16"

lemma pad4_arith: "n + (4 - n mod 4) mod 4 = (n + 3) div 4 * (4 :: nat)"
proof -
  have "n mod 4 < 4" by simp
  then consider "n mod 4 = 0" | "n mod 4 = 1" | "n mod 4 = 2" | "n mod 4 = 3"
    by linarith
  then show ?thesis
  proof cases
    case 1
    then have "(n + 3) div 4 * 4 = n" by presburger
    with 1 show ?thesis by simp
  next
    case 2
    then have "(n + 3) div 4 * 4 = n + 3" by presburger
    with 2 show ?thesis by simp
  next
    case 3
    then have "(n + 3) div 4 * 4 = n + 2" by presburger
    with 3 show ?thesis by simp
  next
    case 4
    then have "(n + 3) div 4 * 4 = n + 1" by presburger
    with 4 show ?thesis by simp
  qed
qed

lemma length_pad4 [simp]: "length (pad4 bs) = (length bs + 3) div 4 * 4"
  by (simp add: pad4_def pad4_arith)

lemma enc_attrs_simps [simp]:
  "enc_attrs [] = []" "enc_attrs (a # as) = enc_attr a @ enc_attrs as"
  by (simp_all add: enc_attrs_def)

lemma length_enc_attr: "length (enc_attr a) = (length (snd a) + 7) div 4 * 4"
  by (simp add: enc_attr_def)

lemma length_enc_attr_ge: "4 + length (snd a) \<le> length (enc_attr a)"
  unfolding length_enc_attr by linarith

lemma enc_attr_split:
  "\<exists>pad. enc_attr a = le16 (attr_len a) @ le16 (fst a) @ snd a @ pad"
  by (simp add: enc_attr_def pad4_def)

lemma length_enc_attrs_dvd: "4 dvd length (enc_attrs as)"
  by (induction as) (simp_all add: length_enc_attr)

lemma rta_len_enc: "wf_attr a \<Longrightarrow> rta_len (enc_attr a) 0 = Some (attr_len a)"
  using rd16_le16 [of 0 "[]"] enc_attr_split [of a] unfolding rta_len_def by auto

lemma rta_type_enc: "rta_type (enc_attr a) 0 = Some (fst a)"
proof -
  obtain pad where "enc_attr a = le16 (attr_len a) @ le16 (fst a) @ snd a @ pad"
    using enc_attr_split by blast
  then show ?thesis
    unfolding rta_type_def using rd16_le16 [of "0 + 2" "le16 (attr_len a)"] by (simp add: numeral_2_eq_2)
qed

lemma unat_attr_len: "wf_attr a \<Longrightarrow> unat (attr_len a) = 4 + length (snd a)"
  unfolding attr_len_def wf_attr_def
  by (simp add: unsigned_of_nat take_bit_nat_eq_self del: of_nat_add)

lemma RTA_PAYLOAD_eq: "4 \<le> unat len \<Longrightarrow> unat (RTA_PAYLOAD len) = unat len - 4"
proof -
  assume "4 \<le> unat len"
  have "unat len < 2 ^ 16" using unsigned_less [of len] by simp
  then have "unat (ucast len :: u64) = unat len"
    by (simp add: unsigned_ucast_eq take_bit_nat_eq_self)
  with \<open>4 \<le> unat len\<close> show ?thesis
    unfolding RTA_PAYLOAD_def by (subst unat_sub) (simp_all add: word_le_nat_alt)
qed

lemma RTA_PAYLOAD_enc:
  assumes "wf_attr a" shows "unat (RTA_PAYLOAD (attr_len a)) = length (snd a)"
  using unat_attr_len [OF assms] by (subst RTA_PAYLOAD_eq) (simp_all)

text \<open>The walk over the attributes: header, payload and next attribute of an encoded one.\<close>

lemma RTA_OK_enc:
  assumes "wf_attr a" "embeds (enc_attr a) m p" "int (length (enc_attr a)) \<le> n"
  shows "RTA_OK m p n = Some True"
proof -
  have len: "rta_len m p = Some (attr_len a)"
    using ub_leD [OF rtattr_frame(1) [OF assms(2), of p 0] rta_len_enc [OF assms(1)]] by simp
  have "4 \<le> n" "int (4 + length (snd a)) \<le> n"
    using assms(3) length_enc_attr_ge [of a] by linarith+
  moreover have "4 \<le> attr_len a" "uint (attr_len a) = int (4 + length (snd a))"
    using unat_attr_len [OF assms(1)] by (simp_all add: word_le_nat_alt uint_nat)
  ultimately show ?thesis
    by (simp add: RTA_OK_def len)
qed

lemma rta_next_enc:
  assumes "wf_attr a"
  shows "unat (RTA_ALIGN (ucast (attr_len a))) = length (enc_attr a)"
  unfolding unat_RTA_ALIGN_u16 unat_attr_len [OF assms] by (simp add: length_enc_attr)

text \<open>
  The central fact about \<open>for_each_attr\<close>: over well-formed attributes, and for a callback
  that computes \<open>f\<close> on each of them as long as an invariant \<open>I\<close> of its state
  holds, the loop is a left fold of \<open>f\<close>.
\<close>

lemma attr_loop_fold:
  assumes "\<And>a. a \<in> set as \<Longrightarrow> wf_attr a"
    and "\<And>a p s. a \<in> set as \<Longrightarrow> embeds (enc_attr a) m p \<Longrightarrow> I s \<Longrightarrow> fn p s = Some (f a s) \<and> I (f a s)"
    and "embeds (enc_attrs as) m p" and "n = int (length (enc_attrs as))" and "I s"
  shows "attr_loop fn m p n s = Some (fold f as s)"
  using assms
proof (induction as arbitrary: p n s)
  case Nil
  then show ?case by (simp add: attr_loop.simps RTA_OK_def)
next
  case (Cons a as)
  have wf: "wf_attr a" using Cons.prems(1) by simp
  from Cons.prems(3) obtain pre post where m: "m = pre @ (enc_attr a @ enc_attrs as) @ post"
    and p: "p = length pre" by (auto simp: embeds_def)
  have emb: "embeds (enc_attr a) m p" using m p by (intro embedsI) simp_all
  have emb': "embeds (enc_attrs as) m (p + length (enc_attr a))"
    using m p by (intro embedsI [of _ "pre @ enc_attr a"]) simp_all
  have len: "rta_len m p = Some (attr_len a)"
    using ub_leD [OF rtattr_frame(1) [OF emb, of p 0] rta_len_enc [OF wf]] by simp
  have ok: "RTA_OK m p n = Some True"
    using RTA_OK_enc [OF wf emb] Cons.prems(4) by simp
  have fn: "fn p s = Some (f a s)" and inv: "I (f a s)" using Cons.prems(2) [OF _ emb] Cons.prems(5) by simp_all
  have nxt: "unat (RTA_ALIGN (ucast (attr_len a))) = length (enc_attr a)"
    by (rule rta_next_enc [OF wf])
  have "attr_loop fn m (p + length (enc_attr a)) (n - int (length (enc_attr a))) (f a s)
      = Some (fold f as (f a s))"
    by (rule Cons.IH) (use Cons.prems emb' inv in auto)
  moreover have "uint (RTA_ALIGN (ucast (attr_len a))) = int (length (enc_attr a))"
    using nxt by (simp only: uint_nat)
  ultimately show ?case
    by (subst attr_loop.simps) (simp add: ok fn len nxt)
qed


section \<open>The attribute helpers on an encoded attribute\<close>

definition addr_len :: "u8 \<Rightarrow> nat" where
  "addr_len family = (if family = AF_INET then 4 else 16)"

definition addr_text :: "inet_ntop \<Rightarrow> u8 \<Rightarrow> u8 list \<Rightarrow> string" where
  "addr_text ntop family bytes =
     (if family = AF_INET \<or> family = AF_INET6 then
        (case ntop family (take (addr_len family) bytes) of
           None \<Rightarrow> [] | Some text \<Rightarrow> trim_string (ntop_buffer text))
      else [])"

lemma enc_attr_payload:
  assumes "embeds (enc_attr a) m p" "n \<le> length (snd a)"
  shows "rd_bytes m (RTA_DATA p) n = Some (take n (snd a))"
proof -
  obtain pad where e: "enc_attr a = le16 (attr_len a) @ le16 (fst a) @ snd a @ pad"
    using enc_attr_split by blast
  have "rd_bytes (enc_attr a) 4 n = Some (take n (snd a))"
    using assms(2) by (subst rd_bytes_eq) (simp_all add: e)
  then show ?thesis
    using ub_leD [OF rd_bytes_frame [OF assms(1), of _ 4]] by (simp add: RTA_DATA_def)
qed

lemma rta_len_embedded:
  "embeds (enc_attr a) m p \<Longrightarrow> wf_attr a \<Longrightarrow> rta_len m p = Some (attr_len a)"
  using ub_leD [OF rtattr_frame(1) [of "enc_attr a" m p p 0] rta_len_enc [of a]] by simp

lemma rta_type_embedded: "embeds (enc_attr a) m p \<Longrightarrow> rta_type m p = Some (fst a)"
  using ub_leD [OF rtattr_frame(2) [of "enc_attr a" m p p 0] rta_type_enc [of a]] by simp

lemma RTA_PAYLOAD_zero:
  assumes "wf_attr a" shows "RTA_PAYLOAD (attr_len a) = 0 \<longleftrightarrow> snd a = []"
  using RTA_PAYLOAD_enc [OF assms] by (auto simp: unat_eq_zero [symmetric])

definition addr_fits :: "u8 \<Rightarrow> u8 list \<Rightarrow> bool" where
  "addr_fits family d \<longleftrightarrow> (family = AF_INET \<or> family = AF_INET6 \<longrightarrow> addr_len family \<le> length d)"

lemma attribute_address_enc:
  assumes "embeds (enc_attr a) m p" "addr_fits family (snd a)"
  shows "attribute_address ntop m p family = Some (addr_text ntop family (snd a))"
  using enc_attr_payload [OF assms(1), of "addr_len family"] assms(2)
  unfolding attribute_address_def addr_text_def addr_fits_def addr_len_def
  by (auto split: if_splits)

definition payload_u32 :: "u8 list \<Rightarrow> u32" where
  "payload_u32 d = (case rd32 d 0 of None \<Rightarrow> 0 | Some v \<Rightarrow> v)"

lemma payload_u32_le32 [simp]: "payload_u32 (le32 v @ xs) = v"
  using rd32_le32 [of 0 "[]" v xs] by (simp add: payload_u32_def)

lemma attribute_uint32_enc:
  assumes "embeds (enc_attr a) m p" "wf_attr a"
  shows "attribute_uint32 m p = Some (payload_u32 (snd a))"
proof -
  obtain pad where e: "enc_attr a = le16 (attr_len a) @ le16 (fst a) @ snd a @ pad"
    using enc_attr_split by blast
  have small: "RTA_PAYLOAD (attr_len a) < 4 \<longleftrightarrow> length (snd a) < 4"
    using RTA_PAYLOAD_enc [OF assms(2)] by (simp add: word_less_nat_alt)
  have emb: "embeds (snd a) (enc_attr a) 4"
    by (rule embedsI [of _ "le16 (attr_len a) @ le16 (fst a)" _ pad]) (simp_all add: e)
  show ?thesis
  proof (cases "rd32 (snd a) 0")
    case None
    then have "length (snd a) < 4" using rd32_defined_iff [of "snd a" 0] by auto
    then show ?thesis
      using small by (simp add: attribute_uint32_def rta_len_embedded [OF assms] payload_u32_def None)
  next
    case (Some v)
    then have "4 \<le> length (snd a)" using rd32_defined_iff [of "snd a" 0] by auto
    moreover have "rd32 (enc_attr a) 4 = Some v"
      using ub_leD [OF rd32_frame [OF emb, of 4 0] Some] by simp
    then have "rd32 m (RTA_DATA p) = Some v"
      using ub_leD [OF rd32_frame [OF assms(1), of _ 4]] by (simp add: RTA_DATA_def)
    ultimately show ?thesis
      using small by (simp add: attribute_uint32_def rta_len_embedded [OF assms] payload_u32_def Some)
  qed
qed

lemma attribute_hwaddr_enc:
  assumes "embeds (enc_attr a) m p" "wf_attr a"
  shows "attribute_hwaddr m p = Some (hwaddr_string (snd a))"
  using enc_attr_payload [OF assms(1), of "length (snd a)"] RTA_PAYLOAD_zero [OF assms(2)]
  by (auto simp: attribute_hwaddr_def rta_len_embedded [OF assms] RTA_PAYLOAD_enc [OF assms(2)]
      hwaddr_string_def)

text \<open>The text of a NUL-terminated payload.\<close>

definition cstr_text :: "u8 list \<Rightarrow> string" where
  "cstr_text d = map chr_of_byte (takeWhile (\<lambda>b. b \<noteq> 0) d)"

lemma c_string_enc:
  assumes "embeds (enc_attr a) m p" "0 \<in> set (snd a)"
  shows "c_string m (RTA_DATA p) = Some (cstr_text (snd a))"
proof -
  obtain pad where e: "enc_attr a = le16 (attr_len a) @ le16 (fst a) @ snd a @ pad"
    using enc_attr_split by blast
  obtain xs ys where d: "snd a = xs @ 0 # ys" "0 \<notin> set xs"
    using assms(2) by (meson split_list_first)
  have "c_string (enc_attr a) 4 = Some (map chr_of_byte xs)"
    using c_string_terminated [OF d(2), of "le16 (attr_len a) @ le16 (fst a)" "ys @ pad"]
    by (simp add: e d(1))
  moreover have "takeWhile (\<lambda>b. b \<noteq> 0) (snd a) = xs"
    unfolding d(1) using d(2) by (subst takeWhile_append2) auto
  ultimately show ?thesis
    using ub_leD [OF c_string_frame [OF assms(1), of _ 4]] by (simp add: RTA_DATA_def cstr_text_def)
qed

lemma attribute_string_enc:
  assumes "embeds (enc_attr a) m p" "wf_attr a" "snd a = [] \<or> 0 \<in> set (snd a)"
  shows "attribute_string m p = Some (cstr_text (snd a))"
proof (cases "snd a = []")
  case True
  then show ?thesis
    using RTA_PAYLOAD_zero [OF assms(2)]
    by (simp add: attribute_string_def rta_len_embedded [OF assms(1,2)] cstr_text_def)
next
  case False
  then have "c_string m (RTA_DATA p) = Some (cstr_text (snd a))"
    using c_string_enc [OF assms(1)] assms(3) by blast
  then show ?thesis
    using RTA_PAYLOAD_zero [OF assms(2)] False
    by (simp add: attribute_string_def rta_len_embedded [OF assms(1,2)] trim_c_string)
qed

text \<open>\<open>extract_ifname\<close> yields the first interface name attribute that has a payload.\<close>

definition is_ifname :: "attr \<Rightarrow> bool" where
  "is_ifname a \<longleftrightarrow> fst a = IFLA_IFNAME \<and> snd a \<noteq> []"

fun first_ifname :: "attr list \<Rightarrow> string" where
  "first_ifname [] = []"
| "first_ifname (a # as) = (if is_ifname a then cstr_text (snd a) else first_ifname as)"

lemma ifname_loop_enc:
  assumes "\<And>a. a \<in> set as \<Longrightarrow> wf_attr a"
    and "\<And>a. a \<in> set as \<Longrightarrow> is_ifname a \<Longrightarrow> 0 \<in> set (snd a)"
    and "embeds (enc_attrs as) m p" and "n = int (length (enc_attrs as))"
  shows "ifname_loop m p n = Some (first_ifname as)"
  using assms
proof (induction as arbitrary: p n)
  case Nil
  then show ?case by (simp add: ifname_loop.simps RTA_OK_def)
next
  case (Cons a as)
  have wf: "wf_attr a" using Cons.prems(1) by simp
  from Cons.prems(3) obtain pre post where m: "m = pre @ (enc_attr a @ enc_attrs as) @ post"
    and p: "p = length pre" by (auto simp: embeds_def)
  have emb: "embeds (enc_attr a) m p" using m p by (intro embedsI) simp_all
  have emb': "embeds (enc_attrs as) m (p + length (enc_attr a))"
    using m p by (intro embedsI [of _ "pre @ enc_attr a"]) simp_all
  have ok: "RTA_OK m p n = Some True"
    using RTA_OK_enc [OF wf emb] Cons.prems(4) by simp
  have nxt: "unat (RTA_ALIGN (ucast (attr_len a))) = length (enc_attr a)"
    by (rule rta_next_enc [OF wf])
  then have nxt': "uint (RTA_ALIGN (ucast (attr_len a))) = int (length (enc_attr a))"
    by (simp only: uint_nat)
  have "ifname_loop m (p + length (enc_attr a)) (n - int (length (enc_attr a))) = Some (first_ifname as)"
    by (rule Cons.IH) (use Cons.prems emb' in auto)
  moreover have "is_ifname a \<Longrightarrow> c_string m (RTA_DATA p) = Some (cstr_text (snd a))"
    using c_string_enc [OF emb] Cons.prems(2) by simp
  ultimately show ?case
    by (subst ifname_loop.simps)
      (auto simp: ok nxt nxt' rta_len_embedded [OF emb wf] rta_type_embedded [OF emb]
        RTA_PAYLOAD_zero [OF wf] is_ifname_def trim_c_string)
qed

text \<open>
  The parsers keep one variable per attribute type and assign it whenever the type occurs: the
  last attribute of a type decides.
\<close>

definition last_value :: "u16 \<Rightarrow> (u8 list \<Rightarrow> 'v) \<Rightarrow> 'v \<Rightarrow> attr list \<Rightarrow> 'v" where
  "last_value ty f v as = fold (\<lambda>a v. if fst a = ty then f (snd a) else v) as v"

lemma last_value_simps [simp]:
  "last_value ty f v [] = v"
  "last_value ty f v (a # as) = last_value ty f (if fst a = ty then f (snd a) else v) as"
  by (simp_all add: last_value_def)

lemma last_value_absent: "\<forall>a \<in> set as. fst a \<noteq> ty \<Longrightarrow> last_value ty f v as = v"
  by (induction as) auto

lemma last_value_last:
  "\<forall>a \<in> set bs. fst a \<noteq> ty \<Longrightarrow> last_value ty f v (as @ (ty, d) # bs) = f d"
  by (induction as arbitrary: v) (auto simp: last_value_absent)

section \<open>Messages\<close>

definition enc_nlmsghdr :: "u32 \<Rightarrow> u16 \<Rightarrow> u16 \<Rightarrow> u32 \<Rightarrow> u32 \<Rightarrow> u8 list" where
  "enc_nlmsghdr len type flags seq pid = le32 len @ le16 type @ le16 flags @ le32 seq @ le32 pid"

definition enc_msg :: "u16 \<Rightarrow> u16 \<Rightarrow> u32 \<Rightarrow> u32 \<Rightarrow> u8 list \<Rightarrow> u8 list" where
  "enc_msg type flags seq pid body =
     enc_nlmsghdr (of_nat (16 + length body)) type flags seq pid @ body"

lemma length_enc_nlmsghdr [simp, size_simps]: "length (enc_nlmsghdr len type flags seq pid) = 16"
  by (simp add: enc_nlmsghdr_def)

lemma length_enc_msg [simp, size_simps]: "length (enc_msg type flags seq pid body) = 16 + length body"
  by (simp add: enc_msg_def)

lemma nlmsghdr_enc:
  "nlmsg_len (enc_nlmsghdr len type flags seq pid @ xs) 0 = Some len"
  "nlmsg_type (enc_nlmsghdr len type flags seq pid @ xs) 0 = Some type"
  "nlmsg_flags (enc_nlmsghdr len type flags seq pid @ xs) 0 = Some flags"
  "nlmsg_seq (enc_nlmsghdr len type flags seq pid @ xs) 0 = Some seq"
  "nlmsg_pid (enc_nlmsghdr len type flags seq pid @ xs) 0 = Some pid"
  using rd32_le32 [of 0 "[]" len] rd16_le16 [of 4 "le32 len" type]
    rd16_le16 [of 6 "le32 len @ le16 type" flags]
    rd32_le32 [of 8 "le32 len @ le16 type @ le16 flags" seq]
    rd32_le32 [of 12 "le32 len @ le16 type @ le16 flags @ le32 seq" pid]
  by (simp_all add: nlmsghdr_defs enc_nlmsghdr_def)

lemma nlmsghdr_enc_msg:
  "nlmsg_len (enc_msg type flags seq pid body) 0 = Some (of_nat (16 + length body))"
  "nlmsg_type (enc_msg type flags seq pid body) 0 = Some type"
  "nlmsg_flags (enc_msg type flags seq pid body) 0 = Some flags"
  "nlmsg_seq (enc_msg type flags seq pid body) 0 = Some seq"
  "nlmsg_pid (enc_msg type flags seq pid body) 0 = Some pid"
  unfolding enc_msg_def by (rule nlmsghdr_enc)+

text \<open>
  A message struct and attributes: what \<open>get_msg_payload\<close> and \<open>for_each_attr\<close> see.
  \<open>small\<close> messages are those the kernel can send: the signed length is the length.
\<close>

lemma msg_len_small:
  "n < 2 ^ 31 \<Longrightarrow> unat (of_nat n :: u32) = n \<and> sint (of_nat n :: u32) = int n"
proof -
  assume n: "n < 2 ^ 31"
  then have u: "unat (of_nat n :: u32) = n"
    by (simp add: unsigned_of_nat take_bit_nat_eq_self)
  have "sint (of_nat n :: u32) = signed_take_bit 31 (int n)"
    by (simp add: signed_of_nat)
  also have "\<dots> = int n"
    using n by (intro signed_take_bit_int_eq_self) simp_all
  finally show ?thesis using u by simp
qed

lemma get_msg_payload_enc:
  assumes "sz \<le> length body" "16 + length body < 2 ^ 31"
  shows "get_msg_payload sz (enc_msg type flags seq pid body) 0 = Some (Some 16)"
  using assms msg_len_small [OF assms(2)]
  by (simp add: get_msg_payload_def nlmsghdr_enc_msg NLMSG_LENGTH_def NLMSG_DATA_def del: of_nat_add)

lemma for_each_attr_enc:
  assumes "length info = sz" "4 dvd sz" "16 + (sz + length (enc_attrs as)) < 2 ^ 31"
    and "\<And>a. a \<in> set as \<Longrightarrow> wf_attr a"
    and "m = enc_msg type flags seq pid (info @ enc_attrs as)"
    and "\<And>a p s. a \<in> set as \<Longrightarrow> embeds (enc_attr a) m p \<Longrightarrow> I s \<Longrightarrow> fn p s = Some (f a s) \<and> I (f a s)"
    and "I s"
  shows "for_each_attr sz m 0 (Some 16) fn s = Some (fold f as s)"
proof -
  have len: "nlmsg_len m 0 = Some (of_nat (16 + (sz + length (enc_attrs as))))"
    using assms(1) by (simp add: assms(5) nlmsghdr_enc_msg del: of_nat_add)
  have al: "unat (NLMSG_ALIGN (of_nat sz)) = sz"
    using assms(2,3) msg_len_small [of sz] by (subst unat_NLMSG_ALIGN) auto
  have emb: "embeds (enc_attrs as) m (16 + sz)"
    using assms(1) by (intro embedsI [of _ "enc_nlmsghdr (of_nat (16 + length (info @ enc_attrs as))) type flags seq pid @ info" _ "[]"])
      (simp_all add: assms(5) enc_msg_def)
  have "attr_loop fn m (16 + sz) (int (length (enc_attrs as))) s = Some (fold f as s)"
    by (rule attr_loop_fold [where I = I, OF assms(4,6) emb refl assms(7)])
  moreover have "s32_minus (sint (of_nat (16 + (sz + length (enc_attrs as))) :: u32)) (int (NLMSG_LENGTH sz))
      = Some (int (length (enc_attrs as)))"
    using msg_len_small [OF assms(3)] assms(3) by (simp add: s32_minus_def NLMSG_LENGTH_def del: of_nat_add)
  moreover have "attr_loop fn m (16 + sz) 0 s = Some s"
    by (simp add: attr_loop.simps RTA_OK_def)
  ultimately show ?thesis
    by (auto simp: for_each_attr_def len al split: if_splits simp del: of_nat_add)
qed


lemma extract_ifname_enc:
  assumes "length info = sizeof_ifinfomsg" "16 + (16 + length (enc_attrs as)) < 2 ^ 31"
    and "\<And>a. a \<in> set as \<Longrightarrow> wf_attr a"
    and "\<And>a. a \<in> set as \<Longrightarrow> is_ifname a \<Longrightarrow> 0 \<in> set (snd a)"
    and "m = enc_msg type flags seq pid (info @ enc_attrs as)"
  shows "extract_ifname m 0 = Some (first_ifname as)"
proof -
  have len: "nlmsg_len m 0 = Some (of_nat (16 + (16 + length (enc_attrs as))))"
    using assms(1) by (simp add: assms(5) nlmsghdr_enc_msg del: of_nat_add)
  have emb: "embeds (enc_attrs as) m 32"
    using assms(1) by (intro embedsI [of _ "enc_nlmsghdr (of_nat (16 + length (info @ enc_attrs as))) type flags seq pid @ info" _ "[]"])
      (simp_all add: assms(5) enc_msg_def)
  have "ifname_loop m 32 (int (length (enc_attrs as))) = Some (first_ifname as)"
    by (rule ifname_loop_enc [OF assms(3,4) emb refl])
  moreover have "s32_minus (sint (of_nat (16 + (16 + length (enc_attrs as))) :: u32)) (int (NLMSG_LENGTH 16))
      = Some (int (length (enc_attrs as)))"
    using msg_len_small [OF assms(2)] assms(2) by (simp add: s32_minus_def NLMSG_LENGTH_def del: of_nat_add)
  moreover have "\<not> unat (of_nat (16 + (16 + length (enc_attrs as))) :: u32) < NLMSG_LENGTH 16"
    using msg_len_small [OF assms(2)] by (simp add: NLMSG_LENGTH_def del: of_nat_add)
  moreover have "NLMSG_DATA 0 + unat (NLMSG_ALIGN (of_nat 16)) = 32"
    by (simp add: NLMSG_DATA_def NLMSG_ALIGN_def)
  moreover have "ifname_loop m 32 0 = Some []"
    by (simp add: ifname_loop.simps RTA_OK_def)
  ultimately show ?thesis
    by (auto simp: extract_ifname_def len split: if_splits simp del: of_nat_add)
qed

end
