(* ===== verification/Neighbor_Event.thy ===== *)
theory Neighbor_Event
  imports Event_Parser Encoding
begin

text \<open>
  \<open>NeighborEvent\<close>, its parser and the printing of its state
  (\<open>include/rtaco/events/nl_neighbor_event.hxx\<close>, \<open>src/events/nl_neighbor_event.cxx\<close>).
\<close>

datatype neighbor_event_type = NEIGHBOR_UNKNOWN | NEW_NEIGHBOR | DELETE_NEIGHBOR

record neighbor_event =
  neighbor_type :: neighbor_event_type
  neighbor_index :: int
  neighbor_family :: u8
  neighbor_state :: u16
  neighbor_flags :: u8
  neighbor_neighbor_type :: u8
  neighbor_address :: string
  neighbor_lladdr :: string

definition neighbor_event_init :: neighbor_event where
  "neighbor_event_init = \<lparr>neighbor_type = NEIGHBOR_UNKNOWN, neighbor_index = 0, neighbor_family = 0,
     neighbor_state = NUD_NONE, neighbor_flags = 0, neighbor_neighbor_type = 0,
     neighbor_address = [], neighbor_lladdr = []\<rparr>"

section \<open>Printing the state\<close>

definition state_names :: "(u16 \<times> string) list" where
  "state_names =
    [(NUD_INCOMPLETE, ''NUD_INCOMPLETE''),
     (NUD_REACHABLE, ''NUD_REACHABLE''),
     (NUD_STALE, ''NUD_STALE''),
     (NUD_DELAY, ''NUD_DELAY''),
     (NUD_PROBE, ''NUD_PROBE''),
     (NUD_FAILED, ''NUD_FAILED''),
     (NUD_NOARP, ''NUD_NOARP''),
     (NUD_PERMANENT, ''NUD_PERMANENT'')]"

fun append_states :: "u16 \<Rightarrow> (u16 \<times> string) list \<Rightarrow> string \<Rightarrow> string" where
  "append_states state [] result = result"
| "append_states state ((nud, name) # entries) result =
     append_states state entries
       (if state AND nud \<noteq> 0
        then (if result \<noteq> [] then result @ ''|'' else result) @ name
        else result)"

definition state_to_string :: "neighbor_event \<Rightarrow> string" where
  "state_to_string ev =
     (if neighbor_state ev = NUD_NONE then ''NUD_NONE''
      else let result = append_states (neighbor_state ev) state_names []
           in if result = [] then ''UNKNOWN'' else result)"

text \<open>
  The enumerators of \<open>NeighborEvent::State\<close>. A state is kept as its underlying number, which need not
  be one of them: the kernel may set several bits.
\<close>

datatype neighbor_state_enum =
    STATE_NONE | INCOMPLETE | REACHABLE | STALE | DELAY | PROBE | FAILED | NOARP | PERMANENT

fun state_underlying :: "neighbor_state_enum \<Rightarrow> u16" where
  "state_underlying STATE_NONE = NUD_NONE"
| "state_underlying INCOMPLETE = NUD_INCOMPLETE"
| "state_underlying REACHABLE = NUD_REACHABLE"
| "state_underlying STALE = NUD_STALE"
| "state_underlying DELAY = NUD_DELAY"
| "state_underlying PROBE = NUD_PROBE"
| "state_underlying FAILED = NUD_FAILED"
| "state_underlying NOARP = NUD_NOARP"
| "state_underlying PERMANENT = NUD_PERMANENT"

text \<open>Each enumerator has a number of its own, and is printed as the one name in the table.\<close>

lemma state_underlying_inj: "state_underlying a = state_underlying b \<longleftrightarrow> a = b"
  by (cases a; cases b) simp_all

lemma state_to_string_enumerator:
  "state_to_string (ev\<lparr>neighbor_state := state_underlying a\<rparr>)
    = (case a of STATE_NONE \<Rightarrow> ''NUD_NONE'' | _ \<Rightarrow> the (map_of state_names (state_underlying a)))"
  by (cases a) (simp_all add: state_to_string_def state_names_def)

section \<open>The parser\<close>

definition neighbor_type_of :: "u16 \<Rightarrow> neighbor_event_type" where
  "neighbor_type_of ty =
     (if ty = RTM_NEWNEIGH then NEW_NEIGHBOR
      else if ty = RTM_DELNEIGH then DELETE_NEIGHBOR
      else NEIGHBOR_UNKNOWN)"

definition neighbor_attr :: "inet_ntop \<Rightarrow> mem \<Rightarrow> ptr \<Rightarrow> neighbor_event \<Rightarrow> neighbor_event ub" where
  "neighbor_attr ntop m attr event = do {
     type \<leftarrow> rta_type m attr;
     if type = NDA_DST then do {
       s \<leftarrow> attribute_address ntop m attr (neighbor_family event);
       Some (event\<lparr>neighbor_address := s\<rparr>) }
     else if type = NDA_LLADDR then do {
       s \<leftarrow> attribute_hwaddr m attr;
       Some (event\<lparr>neighbor_lladdr := s\<rparr>) }
     else Some event }"

definition neighbor_from_nlmsghdr :: "inet_ntop \<Rightarrow> mem \<Rightarrow> ptr \<Rightarrow> neighbor_event ub" where
  "neighbor_from_nlmsghdr ntop m header = do {
     ty \<leftarrow> nlmsg_type m header;
     let event = neighbor_event_init\<lparr>neighbor_type := neighbor_type_of ty\<rparr>;
     if neighbor_type event = NEIGHBOR_UNKNOWN then Some event
     else do {
       info \<leftarrow> get_msg_payload sizeof_ndmsg m header;
       case info of
         None \<Rightarrow> Some (event\<lparr>neighbor_type := NEIGHBOR_UNKNOWN\<rparr>)
       | Some p \<Rightarrow> do {
           ndm_family \<leftarrow> rd8 m p;
           ndm_ifindex \<leftarrow> rd32 m (p + 4);
           ndm_state \<leftarrow> rd16 m (p + 8);
           ndm_flags \<leftarrow> rd8 m (p + 10);
           ndm_type \<leftarrow> rd8 m (p + 11);
           for_each_attr sizeof_ndmsg m header (Some p) (neighbor_attr ntop m)
             (event\<lparr>neighbor_family := ndm_family, neighbor_index := sint ndm_ifindex,
               neighbor_state := ndm_state, neighbor_flags := ndm_flags,
               neighbor_neighbor_type := ndm_type\<rparr>) } } }"

section \<open>Laws\<close>

lemma neighbor_type_of_simps [simp]:
  "neighbor_type_of ty = NEW_NEIGHBOR \<longleftrightarrow> ty = 28" "neighbor_type_of ty = DELETE_NEIGHBOR \<longleftrightarrow> ty = 29"
  "neighbor_type_of ty = NEIGHBOR_UNKNOWN \<longleftrightarrow> ty \<noteq> 28 \<and> ty \<noteq> 29"
  "NEW_NEIGHBOR = neighbor_type_of ty \<longleftrightarrow> ty = 28" "DELETE_NEIGHBOR = neighbor_type_of ty \<longleftrightarrow> ty = 29"
  "NEIGHBOR_UNKNOWN = neighbor_type_of ty \<longleftrightarrow> ty \<noteq> 28 \<and> ty \<noteq> 29"
  by (auto simp: neighbor_type_of_def)

lemma neighbor_attr_frame:
  assumes "embeds b m d" "q = d + p"
  shows "ub_le (neighbor_attr ntop b p s) (neighbor_attr ntop m q s)"
  unfolding neighbor_attr_def
  by (rule frame assms | assumption | simp add: assms(2))+

lemma neighbor_frame:
  assumes "embeds b m d" "q = d + p"
  shows "ub_le (neighbor_from_nlmsghdr ntop b p) (neighbor_from_nlmsghdr ntop m q)"
  unfolding neighbor_from_nlmsghdr_def Let_def
  by (rule get_msg_payload_bind_frame for_each_attr_frame frame neighbor_attr_frame assms | assumption
      | simp only: option.case | simp add: assms(2))+

text \<open>The attribute loop never changes the type.\<close>

lemma neighbor_loop_type:
  assumes "for_each_attr sz m h info (neighbor_attr ntop m') s = Some s'"
  shows "neighbor_type s' = neighbor_type s"
  by (rule for_each_attr_preserves [OF assms])
    (auto simp: neighbor_attr_def bind_eq_Some_conv split: if_splits)

lemma neighbor_unknown:
  assumes "neighbor_from_nlmsghdr ntop m h = Some ev" "nlmsg_type m h = Some ty"
  shows "neighbor_type ev = NEIGHBOR_UNKNOWN \<longleftrightarrow> (ty \<noteq> RTM_NEWNEIGH \<and> ty \<noteq> RTM_DELNEIGH)
    \<or> (\<exists>len. nlmsg_len m h = Some len \<and> unat len < NLMSG_LENGTH sizeof_ndmsg)"
  using assms unfolding neighbor_from_nlmsghdr_def get_msg_payload_def
  by (auto simp: Let_def bind_eq_Some_conv neighbor_event_init_def dest!: neighbor_loop_type
      split: if_splits option.splits)

lemma neighbor_new:
  assumes "neighbor_from_nlmsghdr ntop m h = Some ev" "nlmsg_type m h = Some ty"
  shows "neighbor_type ev = NEW_NEIGHBOR \<longleftrightarrow> ty = RTM_NEWNEIGH \<and> neighbor_type ev \<noteq> NEIGHBOR_UNKNOWN"
  using assms unfolding neighbor_from_nlmsghdr_def get_msg_payload_def
  by (auto simp: Let_def bind_eq_Some_conv neighbor_event_init_def dest!: neighbor_loop_type
      split: if_splits option.splits)

interpretation neighbor_parser: event_parser "neighbor_from_nlmsghdr ntop"
  "\<lambda>ev. neighbor_type ev = NEIGHBOR_UNKNOWN" "\<lambda>ev. neighbor_type ev = NEW_NEIGHBOR"
  RTM_NEWNEIGH RTM_DELNEIGH sizeof_ndmsg
proof unfold_locales
  show "ub_le (neighbor_from_nlmsghdr ntop b p) (neighbor_from_nlmsghdr ntop m q)"
    if "embeds b m d" "q = d + p" for b m d q p
    using that by (rule neighbor_frame)
  show "\<exists>ev. neighbor_from_nlmsghdr ntop m h = Some ev"
    if "nlmsg_type m h = Some ty" "ty \<noteq> RTM_NEWNEIGH" "ty \<noteq> RTM_DELNEIGH" for m h ty
    using that by (simp add: neighbor_from_nlmsghdr_def Let_def neighbor_event_init_def)
  show "\<exists>ty. nlmsg_type m h = Some ty" if "neighbor_from_nlmsghdr ntop m h = Some ev" for m h ev
    using that by (auto simp: neighbor_from_nlmsghdr_def bind_eq_Some_conv)
qed (rule neighbor_unknown neighbor_new; assumption | simp)+

section \<open>The parser on the kernel's messages\<close>

definition enc_ndmsg :: "u8 \<Rightarrow> u32 \<Rightarrow> u16 \<Rightarrow> u8 \<Rightarrow> u8 \<Rightarrow> u8 list" where
  "enc_ndmsg family ifindex state flags type =
     [family, 0, 0, 0] @ le32 ifindex @ le16 state @ [flags, type]"

lemma length_enc_ndmsg [simp, size_simps]: "length (enc_ndmsg f i s fl t) = 12"
  by (simp add: enc_ndmsg_def)

definition wf_neighbor_attrs :: "u8 \<Rightarrow> attr list \<Rightarrow> bool" where
  "wf_neighbor_attrs family as \<longleftrightarrow>
     (\<forall>a \<in> set as. wf_attr a \<and> (fst a = NDA_DST \<longrightarrow> addr_fits family (snd a)))
     \<and> length (enc_attrs as) < 2 ^ 30"

definition neighbor_attr_value :: "inet_ntop \<Rightarrow> u8 \<Rightarrow> attr \<Rightarrow> neighbor_event \<Rightarrow> neighbor_event" where
  "neighbor_attr_value ntop family a event =
     (if fst a = NDA_DST then event\<lparr>neighbor_address := addr_text ntop family (snd a)\<rparr>
      else if fst a = NDA_LLADDR then event\<lparr>neighbor_lladdr := hwaddr_string (snd a)\<rparr>
      else event)"

lemma fold_neighbor_attr_value:
  "fold (neighbor_attr_value ntop family) as event =
     event\<lparr>neighbor_address := last_value NDA_DST (addr_text ntop family) (neighbor_address event) as,
       neighbor_lladdr := last_value NDA_LLADDR hwaddr_string (neighbor_lladdr event) as\<rparr>"
  by (induction as arbitrary: event) (auto simp: neighbor_attr_value_def)

lemma neighbor_attr_enc:
  assumes "wf_neighbor_attrs family as" "a \<in> set as" "embeds (enc_attr a) m p"
    and "neighbor_family s = family"
  shows "neighbor_attr ntop m p s = Some (neighbor_attr_value ntop family a s)
    \<and> neighbor_family (neighbor_attr_value ntop family a s) = family"
  using assms
  by (auto simp: neighbor_attr_def neighbor_attr_value_def wf_neighbor_attrs_def rta_type_embedded
      attribute_address_enc attribute_hwaddr_enc)

lemma neighbor_parse_enc:
  assumes "ty = RTM_NEWNEIGH \<or> ty = RTM_DELNEIGH" and "wf_neighbor_attrs family as"
  shows "neighbor_from_nlmsghdr ntop
      (enc_msg ty fl seq pid (enc_ndmsg family ifindex state flags type @ enc_attrs as)) 0
    = Some \<lparr>neighbor_type = neighbor_type_of ty, neighbor_index = sint ifindex,
        neighbor_family = family, neighbor_state = state, neighbor_flags = flags,
        neighbor_neighbor_type = type,
        neighbor_address = last_value NDA_DST (addr_text ntop family) [] as,
        neighbor_lladdr = last_value NDA_LLADDR hwaddr_string [] as\<rparr>"
proof -
  let ?info = "enc_ndmsg family ifindex state flags type"
  let ?hdr = "enc_nlmsghdr (of_nat (16 + length (?info @ enc_attrs as))) ty fl seq pid"
  let ?m = "enc_msg ty fl seq pid (?info @ enc_attrs as)"
  let ?ev = "\<lparr>neighbor_type = neighbor_type_of ty, neighbor_index = sint ifindex,
        neighbor_family = family, neighbor_state = state, neighbor_flags = flags,
        neighbor_neighbor_type = type, neighbor_address = [], neighbor_lladdr = []\<rparr>"
  have "for_each_attr sizeof_ndmsg ?m 0 (Some 16) (neighbor_attr ntop ?m) ?ev
      = Some (fold (neighbor_attr_value ntop family) as ?ev)"
    by (rule for_each_attr_enc [where I = "\<lambda>s. neighbor_family s = family", OF _ _ _ _ refl])
      (use assms(2) in \<open>simp_all add: wf_neighbor_attrs_def neighbor_attr_enc [OF assms(2)]\<close>)
  moreover have "get_msg_payload sizeof_ndmsg ?m 0 = Some (Some 16)"
    using assms(2) by (intro get_msg_payload_enc) (auto simp: wf_neighbor_attrs_def)
  moreover have "rd8 ?m 16 = Some family" "rd8 ?m 26 = Some flags" "rd8 ?m 27 = Some type"
    "rd32 ?m 20 = Some ifindex" "rd16 ?m 24 = Some state"
    unfolding enc_msg_def enc_ndmsg_def
    using rd32_le32 [of 20 "?hdr @ [family, 0, 0, 0]" ifindex]
      rd16_le16 [of 24 "?hdr @ [family, 0, 0, 0] @ le32 ifindex" state]
    by (simp_all add: enc_ndmsg_def rd8_def nth_append)
  ultimately show ?thesis
    using assms(1)
    by (auto simp: neighbor_from_nlmsghdr_def nlmsghdr_enc_msg Let_def neighbor_event_init_def
        fold_neighbor_attr_value)
qed

section \<open>Properties\<close>

text \<open>
  C16. \<open>NeighborEvent::from_nlmsghdr\<close>, applied to a neighbor message of the kernel wherever it lies
  in the buffer, yields the fields of its struct, the text of the last \<open>NDA_DST\<close> and the
  hardware address of the last \<open>NDA_LLADDR\<close>.
\<close>

theorem neighbor_event_parsed:
  assumes "ty = RTM_NEWNEIGH \<or> ty = RTM_DELNEIGH" and "wf_neighbor_attrs family as"
    and "embeds (enc_msg ty fl seq pid (enc_ndmsg family ifindex state flags type @ enc_attrs as)) m h"
  shows "neighbor_from_nlmsghdr ntop m h
    = Some \<lparr>neighbor_type = neighbor_type_of ty, neighbor_index = sint ifindex,
        neighbor_family = family, neighbor_state = state, neighbor_flags = flags,
        neighbor_neighbor_type = type,
        neighbor_address = last_value NDA_DST (addr_text ntop family) [] as,
        neighbor_lladdr = last_value NDA_LLADDR hwaddr_string [] as\<rparr>"
  by (rule neighbor_parser.parse_embedded [OF neighbor_parse_enc [OF assms(1,2)] assms(3)])

lemma neighbor_event_parsed_witness:
  "neighbor_from_nlmsghdr (\<lambda>_ _. None) ([1, 2, 3] @ enc_msg RTM_DELNEIGH 0 9 0
       (enc_ndmsg AF_INET6 3 NUD_STALE 0 1 @ enc_attrs [(NDA_LLADDR, [0xAB, 1])]) @ [4]) 3
   = Some \<lparr>neighbor_type = DELETE_NEIGHBOR, neighbor_index = 3, neighbor_family = AF_INET6,
       neighbor_state = NUD_STALE, neighbor_flags = 0, neighbor_neighbor_type = 1,
       neighbor_address = [], neighbor_lladdr = ''ab:01''\<rparr>"
proof -
  have "embeds b ([1, 2, 3] @ b @ [4]) 3" for b by (rule embedsI [of _ "[1, 2, 3]" _ "[4]"]) simp_all
  from neighbor_event_parsed [OF _ _ this, of RTM_DELNEIGH AF_INET6 "[(NDA_LLADDR, [0xAB, 1])]"]
  show ?thesis
    by (simp add: wf_neighbor_attrs_def wf_attr_def enc_attrs_def enc_attr_def pad4_def
        hwaddr_string_def hex_byte_def kHex_def upt_conv_Cons)
qed

text \<open>
  C18. Whatever the message holds: a neighbor event is new or a deletion exactly when the message
  has the type of one and room for its struct; in every other case it is unknown.
\<close>

theorem neighbor_event_type_exact:
  assumes "neighbor_from_nlmsghdr ntop m h = Some ev" "nlmsg_type m h = Some ty" "nlmsg_len m h = Some len"
  shows "neighbor_type ev = (if unat len < 28 then NEIGHBOR_UNKNOWN else neighbor_type_of ty)"
proof (cases "neighbor_type ev")
  case NEIGHBOR_UNKNOWN
  then show ?thesis
    using neighbor_unknown [OF assms(1,2)] assms(3) by (auto simp: NLMSG_LENGTH_def)
next
  case NEW_NEIGHBOR
  then show ?thesis
    using neighbor_unknown [OF assms(1,2)] neighbor_new [OF assms(1,2)] assms(3) by (auto simp: NLMSG_LENGTH_def)
next
  case DELETE_NEIGHBOR
  then show ?thesis
    using neighbor_unknown [OF assms(1,2)] neighbor_new [OF assms(1,2)] assms(3) by (auto simp: NLMSG_LENGTH_def)
qed

lemma neighbor_event_type_exact_witness:
  "\<exists>ev. neighbor_from_nlmsghdr (\<lambda>_ _. None) (enc_msg RTM_NEWNEIGH 0 1 0 [1, 2]) 0 = Some ev
    \<and> neighbor_type ev = NEIGHBOR_UNKNOWN"
proof -
  have "\<exists>ev. neighbor_from_nlmsghdr (\<lambda>_ _. None) (enc_msg RTM_NEWNEIGH 0 1 0 [1, 2]) 0 = Some ev"
    by (simp add: neighbor_from_nlmsghdr_def nlmsghdr_enc_msg get_msg_payload_def NLMSG_LENGTH_def
        neighbor_event_init_def Let_def)
  then obtain ev where ev: "neighbor_from_nlmsghdr (\<lambda>_ _. None) (enc_msg RTM_NEWNEIGH 0 1 0 [1, 2]) 0 = Some ev"
    by blast
  then show ?thesis
    using neighbor_event_type_exact [OF ev nlmsghdr_enc_msg(2,1)] by simp
qed

end
