(* ===== verification/Nl_Names.thy ===== *)
theory Nl_Names
  imports Nl_Common Neighbor_Event
begin

text \<open>
  The printing functions of \<open>include/rtaco/core/nl_common.hxx\<close> (\<open>type_to_string\<close>,
  \<open>family_to_string\<close>, \<open>protocol_to_string\<close>, \<open>route_type_to_string\<close>) and what they and
  \<open>NeighborEvent::state_to_string\<close> print. An \<open>std::unordered_map\<close> built from a list with
  distinct keys is that association list.
\<close>

definition name_in :: "('k \<times> string) list \<Rightarrow> 'k \<Rightarrow> string" where
  "name_in names k = (case map_of names k of Some name \<Rightarrow> name | None \<Rightarrow> ''UNKNOWN'')"

definition type_names :: "(u16 \<times> string) list" where
  "type_names =
    [(RTM_NEWLINK, ''RTM_NEWLINK''), (RTM_GETLINK, ''RTM_GETLINK''), (RTM_DELLINK, ''RTM_DELLINK''),
     (RTM_NEWADDR, ''RTM_NEWADDR''), (RTM_GETADDR, ''RTM_GETADDR''), (RTM_DELADDR, ''RTM_DELADDR''),
     (RTM_NEWROUTE, ''RTM_NEWROUTE''), (RTM_GETROUTE, ''RTM_GETROUTE''), (RTM_DELROUTE, ''RTM_DELROUTE''),
     (RTM_NEWNEIGH, ''RTM_NEWNEIGH''), (RTM_GETNEIGH, ''RTM_GETNEIGH''), (RTM_DELNEIGH, ''RTM_DELNEIGH''),
     (NLMSG_NOOP, ''NLMSG_NOOP''), (NLMSG_ERROR, ''NLMSG_ERROR''), (NLMSG_DONE, ''NLMSG_DONE''),
     (NLMSG_OVERRUN, ''NLMSG_OVERRUN'')]"

text \<open>The argument is of any integral or enumeration type; it is cast to 16 bits.\<close>

definition type_to_string :: "int \<Rightarrow> string" where
  "type_to_string type = (let type_value = (word_of_int type :: u16) in name_in type_names type_value)"

definition family_names :: "(u8 \<times> string) list" where
  "family_names =
    [(AF_UNSPEC, ''AF_UNSPEC''), (1, ''AF_UNIX''), (AF_INET, ''AF_INET''), (AF_INET6, ''AF_INET6''),
     (AF_NETLINK, ''AF_NETLINK''), (17, ''AF_PACKET''), (7, ''AF_BRIDGE''), (28, ''AF_MPLS''),
     (29, ''AF_CAN''), (30, ''AF_TIPC''), (31, ''AF_BLUETOOTH''), (40, ''AF_VSOCK''), (44, ''AF_XDP'')]"

definition family_to_string :: "u8 \<Rightarrow> string" where
  "family_to_string family = name_in family_names family"

definition protocol_names :: "(u8 \<times> string) list" where
  "protocol_names =
    [(0, ''RTPROT_UNSPEC''), (1, ''RTPROT_REDIRECT''), (2, ''RTPROT_KERNEL''), (3, ''RTPROT_BOOT''),
     (4, ''RTPROT_STATIC''), (8, ''RTPROT_GATED''), (9, ''RTPROT_RA''), (10, ''RTPROT_MRT''),
     (11, ''RTPROT_ZEBRA''), (12, ''RTPROT_BIRD''), (13, ''RTPROT_DNROUTED''), (14, ''RTPROT_XORP''),
     (15, ''RTPROT_NTK''), (16, ''RTPROT_DHCP''), (17, ''RTPROT_MROUTED''), (42, ''RTPROT_BABEL''),
     (186, ''RTPROT_BGP''), (99, ''RTPROT_OPENR'')]"

definition protocol_to_string :: "u8 \<Rightarrow> string" where
  "protocol_to_string protocol = name_in protocol_names protocol"

definition route_type_names :: "(u8 \<times> string) list" where
  "route_type_names =
    [(RTN_UNSPEC, ''RTN_UNSPEC''), (1, ''RTN_UNICAST''), (2, ''RTN_LOCAL''), (3, ''RTN_BROADCAST''),
     (4, ''RTN_ANYCAST''), (5, ''RTN_MULTICAST''), (6, ''RTN_BLACKHOLE''), (7, ''RTN_UNREACHABLE''),
     (8, ''RTN_PROHIBIT''), (9, ''RTN_THROW''), (10, ''RTN_NAT''), (11, ''RTN_XRESOLVE'')]"

definition route_type_to_string :: "u8 \<Rightarrow> string" where
  "route_type_to_string route_type = name_in route_type_names route_type"

section \<open>What the names tell\<close>

text \<open>A table whose names are distinct, none of them \<open>UNKNOWN\<close>, prints without loss.\<close>

definition faithful_names :: "('k \<times> string) list \<Rightarrow> bool" where
  "faithful_names names \<longleftrightarrow> distinct (map fst names) \<and> distinct (map snd names)
     \<and> ''UNKNOWN'' \<notin> set (map snd names)"

lemma name_in_faithful:
  assumes "faithful_names names"
  shows "name_in names k = ''UNKNOWN'' \<longleftrightarrow> k \<notin> fst ` set names"
    and "k \<in> fst ` set names \<Longrightarrow> name_in names k = name_in names l \<Longrightarrow> k = l"
proof -
  have mem: "map_of names k = Some n \<longleftrightarrow> (k, n) \<in> set names" for k n
    using assms by (auto simp: faithful_names_def)
  have none: "map_of names k = None \<longleftrightarrow> k \<notin> fst ` set names" for k
    by (rule map_of_eq_None_iff)
  have unk: "(k, ''UNKNOWN'') \<notin> set names" for k
    using assms by (force simp: faithful_names_def)
  show "name_in names k = ''UNKNOWN'' \<longleftrightarrow> k \<notin> fst ` set names"
  proof (cases "map_of names k")
    case None
    then show ?thesis using none [of k] by (simp add: name_in_def)
  next
    case (Some n)
    then have "(k, n) \<in> set names" by (simp add: mem)
    with Some unk [of k] none [of k] show ?thesis by (auto simp: name_in_def)
  qed
  show "k = l" if "k \<in> fst ` set names" "name_in names k = name_in names l"
  proof -
    have "map_of names k \<noteq> None" using that(1) none by blast
    then obtain n where n: "map_of names k = Some n" by blast
    then have "(k, n) \<in> set names" by (simp add: mem)
    moreover have "(l, n) \<in> set names"
    proof (cases "map_of names l")
      case None
      then have "n = ''UNKNOWN''" using that(2) n by (simp add: name_in_def)
      then show ?thesis using unk [of k] \<open>(k, n) \<in> set names\<close> by simp
    next
      case (Some n')
      then show ?thesis using that(2) n mem [of l n'] by (simp add: name_in_def)
    qed
    ultimately show ?thesis
      using assms unfolding faithful_names_def distinct_map inj_on_def by fastforce
  qed
qed

lemma faithful_tables:
  "faithful_names type_names" "faithful_names family_names" "faithful_names protocol_names"
  "faithful_names route_type_names"
  unfolding faithful_names_def type_names_def family_names_def protocol_names_def route_type_names_def
  by simp_all

section \<open>The state of a neighbor\<close>

fun join :: "string \<Rightarrow> string list \<Rightarrow> string" where
  "join sep [] = []"
| "join sep [x] = x"
| "join sep (x # y # xs) = x @ sep @ join sep (y # xs)"

lemma join_append: "xs \<noteq> [] \<Longrightarrow> join sep (xs @ [x]) = join sep xs @ sep @ x"
  by (induction sep xs rule: join.induct) auto

lemma join_eq_Nil: "[] \<notin> set xs \<Longrightarrow> join sep xs = [] \<longleftrightarrow> xs = []"
  by (cases "(sep, xs)" rule: join.cases) auto

lemma append_states_join:
  assumes "[] \<notin> set acc" "[] \<notin> snd ` set entries"
  shows "append_states state entries (join ''|'' acc)
    = join ''|'' (acc @ map snd (filter (\<lambda>(nud, name). state AND nud \<noteq> 0) entries))"
  using assms
proof (induction entries arbitrary: acc)
  case Nil
  then show ?case by simp
next
  case (Cons e es)
  obtain nud name where e: "e = (nud, name)" by (cases e)
  show ?case
  proof (cases "state AND nud \<noteq> 0")
    case True
    have "append_states state es (join ''|'' (acc @ [name]))
      = join ''|'' ((acc @ [name]) @ map snd (filter (\<lambda>(nud, name). state AND nud \<noteq> 0) es))"
      using Cons.prems e by (intro Cons.IH) auto
    moreover have "(if join ''|'' acc \<noteq> [] then join ''|'' acc @ ''|'' else join ''|'' acc) @ name
        = join ''|'' (acc @ [name])"
      using Cons.prems join_append [of acc "''|''" name] by (auto simp: join_eq_Nil)
    ultimately show ?thesis using True e by simp
  next
    case False
    then show ?thesis using Cons e by simp
  qed
qed

text \<open>The names printed are those of the states whose bit is set, in the order of the table.\<close>

definition state_set_names :: "u16 \<Rightarrow> string list" where
  "state_set_names state = map snd (filter (\<lambda>(nud, name). state AND nud \<noteq> 0) state_names)"

lemma append_states_names: "append_states state state_names [] = join ''|'' (state_set_names state)"
  using append_states_join [of "[]" state_names state]
  by (simp add: state_set_names_def) (simp add: state_names_def)

lemma state_set_names_no_Nil: "[] \<notin> set (state_set_names state)"
  by (auto simp: state_set_names_def state_names_def split: if_splits)

text \<open>
  \<open>NeighborEvent::state_to_string\<close> prints the names of the states whose bit is set, in the
  order of the table and separated by bars; \<open>NUD_NONE\<close> when no bit at all is set, and
  \<open>UNKNOWN\<close> when none of the known ones is.
\<close>

lemma state_to_string_join:
  "state_to_string ev =
     (if neighbor_state ev = NUD_NONE then ''NUD_NONE''
      else if state_set_names (neighbor_state ev) = [] then ''UNKNOWN''
      else join ''|'' (state_set_names (neighbor_state ev)))"
  by (simp add: state_to_string_def append_states_names Let_def join_eq_Nil [OF state_set_names_no_Nil])

section \<open>Properties\<close>

text \<open>
  The printing functions give every value of their tables a name of its own, and print
  \<open>UNKNOWN\<close> for exactly the other values.
\<close>

lemma names_tell_values_apart:
  "inj_on (\<lambda>w. type_to_string (uint w)) (fst ` set type_names) \<and> inj_on family_to_string (fst ` set family_names)
   \<and> inj_on protocol_to_string (fst ` set protocol_names) \<and> inj_on route_type_to_string (fst ` set route_type_names)
   \<and> (\<forall>t. type_to_string t = ''UNKNOWN'' \<longleftrightarrow> word_of_int t \<notin> fst ` set type_names)
   \<and> (\<forall>f. family_to_string f = ''UNKNOWN'' \<longleftrightarrow> f \<notin> fst ` set family_names)
   \<and> (\<forall>p. protocol_to_string p = ''UNKNOWN'' \<longleftrightarrow> p \<notin> fst ` set protocol_names)
   \<and> (\<forall>r. route_type_to_string r = ''UNKNOWN'' \<longleftrightarrow> r \<notin> fst ` set route_type_names)"
proof -
  have inj: "inj_on (name_in names) (fst ` set names)" if "faithful_names names" for names :: "('k \<times> string) list"
    using name_in_faithful(2) [OF that] by (auto intro!: inj_onI)
  show ?thesis
    using faithful_tables [THEN inj] faithful_tables [THEN name_in_faithful(1)]
    unfolding type_to_string_def family_to_string_def protocol_to_string_def route_type_to_string_def Let_def
    by (simp add: inj_on_def)
qed

end
