(* ===== verification/Nl_Signal.thy ===== *)
theory Nl_Signal
  imports Prelude
begin

text \<open>
  \<open>Signal\<close> (\<open>include/rtaco/core/nl_signal.hxx\<close>): slots are connected with an execution
  policy and run when the signal is emitted, in place or on the executor.

  A slot is a function on the state \<open>'w\<close> of the application: it returns a value or raises an
  exception. The executor is a queue of jobs. An asynchronous slot takes two turns of it:
  \<open>co_spawn\<close> posts the coroutine, and the coroutine posts itself once more before it calls the
  slot. As Boost.Signals2 documents, slots are called in the order they were connected, each when
  the combiner dereferences its iterator; a disconnected slot is not called.
\<close>

datatype exec_policy = Sync | Async

datatype 'r call = Value 'r | Raised nat

type_synonym ('a, 'r, 'w) slot = "'a \<Rightarrow> 'w \<Rightarrow> 'w \<times> 'r call"

datatype 'w job = Spawned "'w \<Rightarrow> 'w" | Posted "'w \<Rightarrow> 'w"

text \<open>
  A shared future: it has its value, or it is that of a promise, which gets a value or an exception
  when its job has run. The promises are a part of the state that the jobs act on.
\<close>

datatype 'r future = Ready 'r | Promise nat

type_synonym 'r promises = "'r call option list"

definition make_ready_shared_future :: "'r \<Rightarrow> 'r future" where
  [simp]: "make_ready_shared_future value = Ready value"

record ('a, 'r, 'w) signal =
  connections :: "(nat \<times> exec_policy \<times> ('a, 'r, 'w) slot) list"
  next_connection :: nat

definition signal_init :: "('a, 'r, 'w) signal" where
  "signal_init = \<lparr>connections = [], next_connection = 0\<rparr>"

definition connect :: "('a, 'r, 'w) slot \<Rightarrow> exec_policy \<Rightarrow> ('a, 'r, 'w) signal \<Rightarrow> ('a, 'r, 'w) signal \<times> nat" where
  "connect slot policy sig =
     (sig\<lparr>connections := connections sig @ [(next_connection sig, policy, slot)],
          next_connection := Suc (next_connection sig)\<rparr>, next_connection sig)"

definition disconnect :: "nat \<Rightarrow> ('a, 'r, 'w) signal \<Rightarrow> ('a, 'r, 'w) signal" where
  "disconnect i sig = sig\<lparr>connections := filter (\<lambda>c. fst c \<noteq> i) (connections sig)\<rparr>"

section \<open>The wrapper of a connected slot\<close>

text \<open>
  The function object given to the underlying signal, for a result type and for \<open>void\<close>. An
  asynchronous slot with a result fulfills the promise \<open>co_spawn\<close> has made for it, with what it
  returns or the exception it raises.
\<close>

definition fulfill :: "('a, 'r, 'w) slot \<Rightarrow> 'a \<Rightarrow> nat \<Rightarrow> 'w \<times> 'r promises \<Rightarrow> 'w \<times> 'r promises" where
  "fulfill slot_fn args p = (\<lambda>(w, promises). case slot_fn args w of (w', r) \<Rightarrow> (w', promises[p := Some r]))"

definition slot_call ::
  "exec_policy \<Rightarrow> ('a, 'r, 'w) slot \<Rightarrow> 'a \<Rightarrow> ('w \<times> 'r promises) \<times> ('w \<times> 'r promises) job list
    \<Rightarrow> (('w \<times> 'r promises) \<times> ('w \<times> 'r promises) job list) \<times> 'r future call" where
  "slot_call policy slot_fn args = (\<lambda>((w, promises), jobs).
     if policy = Sync then
       (case slot_fn args w of
          (w', Value r) \<Rightarrow> (((w', promises), jobs), Value (make_ready_shared_future r))
        | (w', Raised e) \<Rightarrow> (((w', promises), jobs), Raised e))
     else (((w, promises @ [None]), jobs @ [Spawned (fulfill slot_fn args (length promises))]),
           Value (Promise (length promises))))"

definition slot_call_void ::
  "exec_policy \<Rightarrow> ('a, unit, 'w) slot \<Rightarrow> 'a \<Rightarrow> 'w \<times> 'w job list \<Rightarrow> ('w \<times> 'w job list) \<times> unit future call" where
  "slot_call_void policy slot_fn args = (\<lambda>(w, jobs).
     if policy = Sync then
       (case slot_fn args w of
          (w', Value _) \<Rightarrow> ((w', jobs), Value (make_ready_shared_future ()))
        | (w', Raised e) \<Rightarrow> ((w', jobs), Raised e))
     else ((w, jobs @ [Spawned (\<lambda>w. fst (slot_fn args w))]), Value (make_ready_shared_future ())))"

section \<open>Combining\<close>

text \<open>
  \<open>WaitAllCombiner\<close>: each slot is called and its future waited for before the next one is.
  \<open>get future st\<close> is what \<open>future.get()\<close> comes to: a value, an exception that is thrown again, or
  \<open>None\<close> when it never comes back.
\<close>

datatype 'r emitted = Combined 'r | Threw nat | Blocked

fun wait_all ::
  "(exec_policy \<Rightarrow> ('a, 'r, 'w) slot \<Rightarrow> 'a \<Rightarrow> 's \<Rightarrow> 's \<times> 'r future call) \<Rightarrow> ('r future \<Rightarrow> 's \<Rightarrow> 's \<times> 'r call option)
    \<Rightarrow> (nat \<times> exec_policy \<times> ('a, 'r, 'w) slot) list \<Rightarrow> 'a \<Rightarrow> 'r list \<Rightarrow> 's \<Rightarrow> 's \<times> 'r list emitted" where
  "wait_all call get [] args results st = (st, Combined results)"
| "wait_all call get ((i, policy, slot_fn) # cs) args results st =
     (case call policy slot_fn args st of
        (st', Raised e) \<Rightarrow> (st', Threw e)
      | (st', Value future) \<Rightarrow>
          (case get future st' of
             (st'', None) \<Rightarrow> (st'', Blocked)
           | (st'', Some (Raised e)) \<Rightarrow> (st'', Threw e)
           | (st'', Some (Value r)) \<Rightarrow> wait_all call get cs args (results @ [r]) st''))"

text \<open>\<open>get()\<close> when no other thread runs the executor: what is not there does not come.\<close>

fun get_alone :: "'r future \<Rightarrow> ('w \<times> 'r promises) \<times> 'j \<Rightarrow> (('w \<times> 'r promises) \<times> 'j) \<times> 'r call option" where
  "get_alone (Ready r) st = (st, Some (Value r))"
| "get_alone (Promise p) ((w, promises), jobs) = (((w, promises), jobs), promises ! p)"

text \<open>The futures of a \<open>void\<close> signal are all ready.\<close>

fun get_ready :: "'r future \<Rightarrow> 's \<Rightarrow> 's \<times> 'r call option" where
  "get_ready (Ready r) st = (st, Some (Value r))"
| "get_ready (Promise p) st = (st, None)"

definition emit ::
  "('a, 'r, 'w) signal \<Rightarrow> 'a \<Rightarrow> ('w \<times> 'r promises) \<times> ('w \<times> 'r promises) job list
    \<Rightarrow> (('w \<times> 'r promises) \<times> ('w \<times> 'r promises) job list) \<times> 'r list emitted" where
  "emit sig args st = wait_all slot_call get_alone (connections sig) args [] st"

definition emit_void :: "('a, unit, 'w) signal \<Rightarrow> 'a \<Rightarrow> 'w \<times> 'w job list \<Rightarrow> ('w \<times> 'w job list) \<times> unit list emitted" where
  "emit_void sig args st = wait_all slot_call_void get_ready (connections sig) args [] st"

section \<open>The executor\<close>

fun run_one :: "'w \<times> 'w job list \<Rightarrow> 'w \<times> 'w job list" where
  "run_one (w, []) = (w, [])"
| "run_one (w, Spawned f # jobs) = (w, jobs @ [Posted f])"
| "run_one (w, Posted f # jobs) = (f w, jobs)"

fun turns :: "'w job list \<Rightarrow> nat" where
  "turns [] = 0"
| "turns (Spawned f # jobs) = 2 + turns jobs"
| "turns (Posted f # jobs) = 1 + turns jobs"

lemma turns_append [simp]: "turns (xs @ ys) = turns xs + turns ys"
  by (induction xs rule: turns.induct) auto

function run_all :: "'w \<times> 'w job list \<Rightarrow> 'w" where
  "run_all st = (if snd st = [] then fst st else run_all (run_one st))"
  by pat_completeness auto
termination
proof (relation "measure (\<lambda>st. turns (snd st))")
  fix st :: "'w \<times> 'w job list"
  assume "snd st \<noteq> []"
  then show "(run_one st, st) \<in> measure (\<lambda>st. turns (snd st))"
    by (cases st rule: run_one.cases) auto
qed simp

declare run_all.simps [simp del]

section \<open>Laws\<close>

lemma connect_order:
  "connections (fst (connect slot policy sig))
    = connections sig @ [(snd (connect slot policy sig), policy, slot)]"
  by (simp add: connect_def)

text \<open>Connection numbers are fresh, so disconnecting takes out the one slot it names.\<close>

definition wf_signal :: "('a, 'r, 'w) signal \<Rightarrow> bool" where
  "wf_signal sig \<longleftrightarrow> distinct (map fst (connections sig))
     \<and> (\<forall>c \<in> set (connections sig). fst c < next_connection sig)"

lemma wf_signal_init: "wf_signal signal_init"
  by (simp add: wf_signal_def signal_init_def)

lemma wf_signal_connect: "wf_signal sig \<Longrightarrow> wf_signal (fst (connect slot policy sig))"
  by (auto simp: wf_signal_def connect_def less_SucI)

lemma wf_signal_disconnect: "wf_signal sig \<Longrightarrow> wf_signal (disconnect i sig)"
  by (auto simp: wf_signal_def disconnect_def distinct_map intro: inj_on_subset)

lemma connect_disconnect:
  assumes "wf_signal sig"
  shows "connections (disconnect (snd (connect slot policy sig)) (fst (connect slot policy sig)))
    = connections sig"
proof -
  have "filter (\<lambda>c. fst c \<noteq> next_connection sig) (connections sig) = connections sig"
    using assms by (intro filter_True) (auto simp: wf_signal_def)
  then show ?thesis by (simp add: connect_def disconnect_def)
qed

text \<open>The slots of a policy, and what they do to the state when none of them raises.\<close>

definition effects :: "exec_policy \<Rightarrow> (nat \<times> exec_policy \<times> ('a, 'r, 'w) slot) list \<Rightarrow> 'a \<Rightarrow> ('w \<Rightarrow> 'w) list" where
  "effects policy cs args = map (\<lambda>(i, p, f). (\<lambda>w. fst (f args w))) (filter (\<lambda>(i, p, f). p = policy) cs)"

lemma effects_simps [simp]:
  "effects policy [] args = []"
  "effects policy ((i, p, f) # cs) args =
     (if p = policy then (\<lambda>w. fst (f args w)) # effects policy cs args else effects policy cs args)"
  by (simp_all add: effects_def)

definition never_raises :: "(nat \<times> exec_policy \<times> ('a, 'r, 'w) slot) list \<Rightarrow> bool" where
  "never_raises cs \<longleftrightarrow> (\<forall>(i, p, f) \<in> set cs. p = Sync \<longrightarrow> (\<forall>a w. \<exists>w' r. f a w = (w', Value r)))"

lemma wait_all_void_append:
  assumes "never_raises as"
  shows "wait_all slot_call_void get_ready (as @ bs) args results (w, jobs)
    = wait_all slot_call_void get_ready bs args (results @ replicate (length as) ())
        (fold (\<lambda>f. f) (effects Sync as args) w, jobs @ map Spawned (effects Async as args))"
  using assms
proof (induction as arbitrary: results w jobs)
  case Nil
  then show ?case by simp
next
  case (Cons c as)
  obtain i p f where c: "c = (i, p, f)" by (cases c)
  have rest: "never_raises as" using Cons.prems by (simp add: never_raises_def)
  show ?case
  proof (cases p)
    case Sync
    then obtain w' r where "f args w = (w', Value r)"
      using Cons.prems unfolding c never_raises_def by fastforce
    then show ?thesis
      using Cons.IH [OF rest] by (simp add: c Sync slot_call_void_def)
  next
    case Async
    then show ?thesis
      using Cons.IH [OF rest] by (simp add: c slot_call_void_def)
  qed
qed

lemma wait_all_void:
  assumes "never_raises cs"
  shows "wait_all slot_call_void get_ready cs args results (w, jobs)
    = ((fold (\<lambda>f. f) (effects Sync cs args) w, jobs @ map Spawned (effects Async cs args)),
       Combined (results @ replicate (length cs) ()))"
  using wait_all_void_append [OF assms, of "[]"] by simp

lemma run_all_Nil [simp]: "run_all (w, []) = w"
  by (simp add: run_all.simps)

lemma run_all_posted: "run_all (w, map Posted fs) = fold (\<lambda>f. f) fs w"
  by (induction fs arbitrary: w) (simp_all add: run_all.simps [of "(w, Posted f # jobs)" for w f jobs])

lemma run_all_spawned: "run_all (w, map Spawned fs @ map Posted gs) = fold (\<lambda>f. f) (gs @ fs) w"
proof (induction fs arbitrary: gs)
  case Nil
  then show ?case by (simp add: run_all_posted)
next
  case (Cons f fs)
  have "run_all (w, map Spawned (f # fs) @ map Posted gs) = run_all (w, map Spawned fs @ map Posted (gs @ [f]))"
    by (simp add: run_all.simps [of "(w, Spawned f # jobs)" for jobs])
  then show ?case using Cons.IH [of "gs @ [f]"] by simp
qed

text \<open>
  A slot with a result that is run asynchronously makes the emission wait for the executor: the slots
  before it have been called, none after it has.
\<close>

lemma wait_all_blocks:
  assumes "\<forall>c \<in> set as. fst (snd c) = Sync" "never_raises as"
  shows "wait_all slot_call get_alone (as @ (i, Async, f) # cs) args results ((w, ps), jobs)
    = (((fold (\<lambda>f. f) (effects Sync as args) w, ps @ [None]), jobs @ [Spawned (fulfill f args (length ps))]), Blocked)"
  using assms
proof (induction as arbitrary: results w)
  case Nil
  then show ?case by (simp add: slot_call_def)
next
  case (Cons c as)
  obtain j p g where c: "c = (j, p, g)" by (cases c)
  obtain w' r where "g args w = (w', Value r)"
    using Cons.prems unfolding c never_raises_def by fastforce
  moreover have "never_raises as" using Cons.prems(2) by (simp add: never_raises_def)
  ultimately show ?case using Cons by (simp add: c slot_call_def)
qed

section \<open>Properties\<close>

text \<open>
  C35. Emitting a \<open>void\<close> signal runs every synchronous slot in place, in the order of connection,
  and comes back without waiting for the asynchronous ones; once the executor has run, each of
  those has run too, exactly once, in the order of connection.
\<close>

theorem emit_void_then_run:
  assumes "never_raises (connections sig)" "emit_void sig args (w, []) = ((w', jobs), r)"
  shows "r = Combined (replicate (length (connections sig)) ())
    \<and> w' = fold (\<lambda>f. f) (effects Sync (connections sig) args) w
    \<and> run_all (w', jobs) = fold (\<lambda>f. f) (effects Sync (connections sig) args @ effects Async (connections sig) args) w"
  using assms wait_all_void [OF assms(1), of args "[]" w "[]"] run_all_spawned [where gs = "[]"]
  by (auto simp: emit_void_def)

lemma emit_void_then_run_witness:
  "let slot = (\<lambda>n a w. (w @ [(n, a)], Value ()));
       sig = fst (connect (slot 2) Async (fst (connect (slot 1) Sync (fst (connect (slot 0) Async signal_init)))))
   in \<exists>jobs. emit_void sig (7 :: int) ([], []) = (([(1 :: int, 7)], jobs), Combined [(), (), ()])
      \<and> run_all ([(1, 7)], jobs) = [(1, 7), (0, 7), (2, 7)]"
proof -
  let ?slot = "\<lambda>n a w. (w @ [(n :: int, a :: int)], Value ())"
  let ?sig = "fst (connect (?slot 2) Async (fst (connect (?slot 1) Sync (fst (connect (?slot 0) Async signal_init)))))"
  have c: "connections ?sig = [(0, Async, ?slot 0), (1, Sync, ?slot 1), (2, Async, ?slot 2)]"
    by (simp add: connect_def signal_init_def)
  have quiet: "never_raises (connections ?sig)"
    unfolding c by (simp add: never_raises_def)
  obtain w jobs r where e: "emit_void ?sig 7 ([], []) = ((w, jobs), r)"
    by (metis surj_pair)
  from emit_void_then_run [OF quiet e] show ?thesis
    unfolding Let_def e c by (intro exI [of _ jobs]) auto
qed

text \<open>
  Emitting a signal whose slots have results blocks as soon as it comes to an asynchronous
  slot: the slots before it have run, it and those after it have not, and the emission goes on only
  when another thread runs the executor.
\<close>

lemma emit_blocks_on_async:
  assumes "connections sig = as @ (i, Async, f) # cs" "list_all (\<lambda>c. fst (snd c) = Sync) as" "never_raises as"
  shows "emit sig args ((w, ps), jobs)
    = (((fold (\<lambda>f. f) (effects Sync as args) w, ps @ [None]), jobs @ [Spawned (fulfill f args (length ps))]), Blocked)"
  using wait_all_blocks [of as i f cs args "[]"] assms by (simp add: emit_def list.pred_set)

text \<open>
  An exception of a synchronous slot leaves the emission: the slots before it have run, those
  connected after it are never called.
\<close>

theorem exception_skips_later_slots:
  assumes "connections sig = as @ (i, Sync, f) # cs" "never_raises as" "\<And>w. snd (f args w) = Raised e"
  shows "emit_void sig args (w, jobs)
    = ((fst (f args (fold (\<lambda>f. f) (effects Sync as args) w)), jobs @ map Spawned (effects Async as args)), Threw e)"
proof -
  obtain w' where "f args (fold (\<lambda>f. f) (effects Sync as args) w) = (w', Raised e)"
    using assms(3) by (metis prod.collapse)
  then show ?thesis
    by (simp add: emit_void_def assms(1) wait_all_void_append [OF assms(2)] slot_call_void_def)
qed

lemma exception_skips_later_slots_witness:
  "let sig = fst (connect (\<lambda>_ w. (w @ [3], Value ())) Sync (fst (connect (\<lambda>_ w. (w @ [2], Raised 7)) Sync
       (fst (connect (\<lambda>_ w. (w @ [1 :: int], Value ())) Sync signal_init)))))
   in emit_void sig () ([], []) = (([1, 2], []), Threw 7)"
  unfolding Let_def
  by (subst exception_skips_later_slots [where as = "[(0, Sync, \<lambda>_ w. (w @ [1], Value ()))]" and i = 1
        and f = "\<lambda>_ w. (w @ [2], Raised 7)" and cs = "[(2, Sync, \<lambda>_ w. (w @ [3], Value ()))]" and e = 7])
    (simp_all add: connect_def signal_init_def never_raises_def)

end
