(* ===== verification/Nl_Protocol.thy ===== *)
theory Nl_Protocol
  imports Netlink "HOL-Library.List_Lexorder"
begin

text \<open>
  \<open>Endpoint\<close> and \<open>Protocol\<close> (\<open>include/rtaco/socket/nl_protocol.hxx\<close>). An endpoint
  is a \<open>sockaddr_nl\<close>; its comparison operators compare the bytes of the struct, so the order
  is that of the little-endian representation. The type class instance states that the operators
  are a total order.
\<close>

section \<open>\<open>Endpoint\<close>\<close>

datatype endpoint = Endpoint (nl_family: u16) (nl_pad: u16) (nl_pid: u32) (nl_groups: u32)

text \<open>The constructors: the struct is zero-initialised, then the family, groups and port are set.\<close>

definition endpoint_default :: endpoint where
  "endpoint_default = Endpoint AF_NETLINK 0 AF_UNSPEC AF_UNSPEC"

definition endpoint_of :: "u32 \<Rightarrow> u32 \<Rightarrow> endpoint" where
  "endpoint_of groups pid = Endpoint AF_NETLINK 0 pid groups"

text \<open>The object the data pointer points to, and its size.\<close>

definition endpoint_data :: "endpoint \<Rightarrow> u8 list" where
  "endpoint_data e = le16 (nl_family e) @ le16 (nl_pad e) @ le32 (nl_pid e) @ le32 (nl_groups e)"

definition endpoint_size :: "endpoint \<Rightarrow> nat" where
  "endpoint_size e = 12"

definition endpoint_resize :: "nat \<Rightarrow> endpoint \<Rightarrow> endpoint" where
  "endpoint_resize n e = e"

definition endpoint_capacity :: "endpoint \<Rightarrow> nat" where
  "endpoint_capacity e = 12"

text \<open>\<open>memcmp\<close>: the sign tells how the first two bytes that differ compare.\<close>

fun memcmp :: "u8 list \<Rightarrow> u8 list \<Rightarrow> int" where
  "memcmp (a # as) (b # bs) = (if a = b then memcmp as bs else uint a - uint b)"
| "memcmp _ _ = 0"

definition endpoint_eq :: "endpoint \<Rightarrow> endpoint \<Rightarrow> bool" where
  "endpoint_eq lhs rhs \<longleftrightarrow> memcmp (endpoint_data lhs) (endpoint_data rhs) = 0"

definition endpoint_ne :: "endpoint \<Rightarrow> endpoint \<Rightarrow> bool" where
  "endpoint_ne lhs rhs \<longleftrightarrow> \<not> endpoint_eq lhs rhs"

definition endpoint_lt :: "endpoint \<Rightarrow> endpoint \<Rightarrow> bool" where
  "endpoint_lt lhs rhs \<longleftrightarrow> memcmp (endpoint_data lhs) (endpoint_data rhs) < 0"

definition endpoint_gt :: "endpoint \<Rightarrow> endpoint \<Rightarrow> bool" where
  "endpoint_gt lhs rhs \<longleftrightarrow> endpoint_lt rhs lhs"

definition endpoint_le :: "endpoint \<Rightarrow> endpoint \<Rightarrow> bool" where
  "endpoint_le lhs rhs \<longleftrightarrow> \<not> endpoint_lt rhs lhs"

definition endpoint_ge :: "endpoint \<Rightarrow> endpoint \<Rightarrow> bool" where
  "endpoint_ge lhs rhs \<longleftrightarrow> \<not> endpoint_lt lhs rhs"

section \<open>\<open>Protocol\<close>\<close>

record protocol =
  proto :: int

definition protocol_default :: protocol where
  "protocol_default = \<lparr>proto = 0\<rparr>"

definition protocol_of :: "int \<Rightarrow> protocol" where
  "protocol_of p = \<lparr>proto = p\<rparr>"

definition protocol_type :: "protocol \<Rightarrow> int" where
  "protocol_type p = 3"

definition protocol_protocol :: "protocol \<Rightarrow> int" where
  "protocol_protocol p = proto p"

definition protocol_family :: "protocol \<Rightarrow> int" where
  "protocol_family p = 16"

definition endpoint_protocol :: "endpoint \<Rightarrow> protocol" where
  "endpoint_protocol e = protocol_default"

section \<open>The order\<close>

lemma le16_inject [simp]: "le16 a = le16 b \<longleftrightarrow> a = b"
  by (metis option.inject rd16_le16)

lemma le32_inject [simp]: "le32 a = le32 b \<longleftrightarrow> a = b"
  by (metis option.inject rd32_le32)

lemma length_endpoint_data: "length (endpoint_data e) = endpoint_size e"
  by (simp add: endpoint_data_def endpoint_size_def)

lemma endpoint_data_inject: "endpoint_data a = endpoint_data b \<longleftrightarrow> a = b"
  by (cases a; cases b) (auto simp: endpoint_data_def)

lemma memcmp_eq: "length as = length bs \<Longrightarrow> memcmp as bs = 0 \<longleftrightarrow> as = bs"
  by (induction as bs rule: memcmp.induct) (auto simp: word_uint_eq_iff)

lemma memcmp_less: "length as = length bs \<Longrightarrow> memcmp as bs < 0 \<longleftrightarrow> as < bs"
  by (induction as bs rule: memcmp.induct) (auto simp: word_less_def)

lemma endpoint_lt_data: "endpoint_lt a b \<longleftrightarrow> endpoint_data a < endpoint_data b"
  by (simp add: endpoint_lt_def memcmp_less length_endpoint_data endpoint_size_def)

lemma endpoint_eq_iff: "endpoint_eq a b \<longleftrightarrow> a = b"
  by (simp add: endpoint_eq_def memcmp_eq length_endpoint_data endpoint_size_def endpoint_data_inject)

lemma endpoint_le_data: "endpoint_le a b \<longleftrightarrow> endpoint_data a \<le> endpoint_data b"
  by (simp add: endpoint_le_def endpoint_lt_data not_less)

instantiation endpoint :: linorder
begin

definition less_endpoint :: "endpoint \<Rightarrow> endpoint \<Rightarrow> bool" where
  "less_endpoint = endpoint_lt"

definition less_eq_endpoint :: "endpoint \<Rightarrow> endpoint \<Rightarrow> bool" where
  "less_eq_endpoint = endpoint_le"

instance
  by standard
    (auto simp: less_endpoint_def less_eq_endpoint_def endpoint_lt_data endpoint_le_data
      endpoint_data_inject [symmetric])

end

section \<open>Properties\<close>

text \<open>
  The comparison operators of endpoints agree with each other: equality is equality of family,
  padding, port and groups, exactly one of less, equal and greater holds, the order is the
  lexicographic one of the bytes, and the other operators are derived from it as usual.
\<close>

lemma endpoint_operators_consistent:
  "(endpoint_eq a b \<longleftrightarrow> a = b) \<and> (endpoint_ne a b \<longleftrightarrow> a \<noteq> b)
   \<and> (endpoint_lt a b \<longleftrightarrow> endpoint_data a < endpoint_data b)
   \<and> (endpoint_gt a b \<longleftrightarrow> \<not> endpoint_le a b) \<and> (endpoint_ge a b \<longleftrightarrow> endpoint_le b a)
   \<and> (endpoint_le a b \<longleftrightarrow> endpoint_lt a b \<or> endpoint_eq a b)
   \<and> length (endpoint_data a) = endpoint_size a \<and> endpoint_size a = endpoint_capacity a"
  by (auto simp: endpoint_eq_iff endpoint_ne_def endpoint_lt_data endpoint_gt_def endpoint_le_data
      endpoint_ge_def endpoint_data_inject length_endpoint_data endpoint_size_def endpoint_capacity_def not_less not_le less_le)

end
