(* ===== verification/Nl_Socket.thy ===== *)
theory Nl_Socket
  imports Nl_Protocol
begin

text \<open>
  \<open>Socket\<close> (\<open>include/rtaco/socket/nl_socket.hxx\<close>, \<open>src/socket/nl_socket.cxx\<close>) and
  \<open>SocketGuard\<close> (\<open>include/rtaco/socket/nl_socket_guard.hxx\<close>,
  \<open>src/socket/nl_socket_guard.cxx\<close>).

  The operating system's answer to each call is a parameter: \<open>os c\<close> is the error of the call
  \<open>c\<close>, if it fails. As Boost.Asio documents, opening an open socket is an error and leaves
  it as it is, a socket is closed even when \<open>close\<close> reports an error, and the calls on a
  closed socket fail. The line that prints the bound address is in Socket_IO.
\<close>

datatype sock_option = Recv_Buf | No_Enobufs | Ext_Ack | Strict_Chk

datatype sys_call = Sys_Open | Sys_Set_Option sock_option | Sys_Bind | Sys_Connect | Sys_Cancel | Sys_Close

type_synonym os = "sys_call \<Rightarrow> error_code option"

definition already_open :: error_code where
  "already_open = Error_Code Asio_Misc_Category 1"

definition bad_descriptor :: error_code where
  "bad_descriptor = Error_Code System_Category 9"

text \<open>A thrown exception carries its text, up to the message of the error it ends with.\<close>

datatype 'a outcome = Return 'a | Throw string error_code

record socket =
  sock_label :: string
  sock_open :: bool
  sock_proto :: int
  sock_options :: "(sock_option \<times> int) list"
  sock_bound :: "endpoint option"
  sock_peer :: "endpoint option"

definition socket_init :: "string \<Rightarrow> socket" where
  "socket_init label = \<lparr>sock_label = label, sock_open = False, sock_proto = 0, sock_options = [],
     sock_bound = None, sock_peer = None\<rparr>"

definition is_open :: "socket \<Rightarrow> bool" where
  "is_open s = sock_open s"

section \<open>Calls of Boost.Asio\<close>

definition asio_open :: "os \<Rightarrow> protocol \<Rightarrow> socket \<Rightarrow> socket \<times> error_code option" where
  "asio_open os p s =
     (if sock_open s then (s, Some already_open)
      else case os Sys_Open of
        Some ec \<Rightarrow> (s, Some ec)
      | None \<Rightarrow> (s\<lparr>sock_open := True, sock_proto := protocol_protocol p, sock_options := [],
                  sock_bound := None, sock_peer := None\<rparr>, None))"

definition asio_close :: "os \<Rightarrow> socket \<Rightarrow> socket \<times> error_code option" where
  "asio_close os s =
     (if sock_open s then (s\<lparr>sock_open := False\<rparr>, os Sys_Close) else (s, None))"

definition asio_cancel :: "os \<Rightarrow> socket \<Rightarrow> socket \<times> error_code option" where
  "asio_cancel os s = (if sock_open s then (s, os Sys_Cancel) else (s, Some bad_descriptor))"

definition asio_set_option :: "os \<Rightarrow> sock_option \<Rightarrow> int \<Rightarrow> socket \<Rightarrow> socket \<times> error_code option" where
  "asio_set_option os opt v s =
     (if \<not> sock_open s then (s, Some bad_descriptor)
      else case os (Sys_Set_Option opt) of
        Some ec \<Rightarrow> (s, Some ec)
      | None \<Rightarrow> (s\<lparr>sock_options := sock_options s @ [(opt, v)]\<rparr>, None))"

definition asio_bind :: "os \<Rightarrow> endpoint \<Rightarrow> socket \<Rightarrow> socket \<times> error_code option" where
  "asio_bind os e s =
     (if \<not> sock_open s then (s, Some bad_descriptor)
      else case os Sys_Bind of
        Some ec \<Rightarrow> (s, Some ec)
      | None \<Rightarrow> (s\<lparr>sock_bound := Some e\<rparr>, None))"

definition asio_connect :: "os \<Rightarrow> endpoint \<Rightarrow> socket \<Rightarrow> socket \<times> error_code option" where
  "asio_connect os e s =
     (if \<not> sock_open s then (s, Some bad_descriptor)
      else case os Sys_Connect of
        Some ec \<Rightarrow> (s, Some ec)
      | None \<Rightarrow> (s\<lparr>sock_peer := Some e\<rparr>, None))"

section \<open>\<open>Socket\<close>\<close>

definition expected_of :: "error_code option \<Rightarrow> unit expected" where
  "expected_of ec = (case ec of Some e \<Rightarrow> Inl e | None \<Rightarrow> Inr ())"

definition socket_close :: "os \<Rightarrow> socket \<Rightarrow> socket \<times> unit expected" where
  "socket_close os s = (case asio_close os s of (s, ec) \<Rightarrow> (s, expected_of ec))"

definition socket_cancel :: "os \<Rightarrow> socket \<Rightarrow> socket \<times> unit expected" where
  "socket_cancel os s = (case asio_cancel os s of (s, ec) \<Rightarrow> (s, expected_of ec))"

definition enable_option :: "os \<Rightarrow> sock_option \<Rightarrow> int \<Rightarrow> socket \<Rightarrow> socket \<times> unit expected" where
  "enable_option os opt v s = (case asio_set_option os opt v s of (s, ec) \<Rightarrow> (s, expected_of ec))"

definition socket_open :: "os \<Rightarrow> int \<Rightarrow> u32 \<Rightarrow> socket \<Rightarrow> socket \<times> unit expected outcome" where
  "socket_open os p groups s =
     (case asio_open os (protocol_of p) s of
        (s, Some ec) \<Rightarrow> (s, Throw (''failed to open netlink '' @ sock_label s @ '' socket: '') ec)
      | (s, None) \<Rightarrow>
     (case enable_option os Recv_Buf (2 ^ 16) s of
        (s, Inl ec) \<Rightarrow> (s, Return (Inl ec))
      | (s, Inr _) \<Rightarrow>
     (case enable_option os No_Enobufs 1 s of
        (s, Inl ec) \<Rightarrow> (s, Return (Inl ec))
      | (s, Inr _) \<Rightarrow>
     (case enable_option os Ext_Ack 1 s of
        (s, Inl ec) \<Rightarrow> (s, Return (Inl ec))
      | (s, Inr _) \<Rightarrow>
     (case enable_option os Strict_Chk 1 s of
        (s, Inl ec) \<Rightarrow> (s, Return (Inl ec))
      | (s, Inr _) \<Rightarrow>
     (case asio_bind os (endpoint_of groups 0) s of
        (s, Some ec) \<Rightarrow> (fst (socket_close os s),
            Throw (''failed to bind netlink '' @ sock_label s @ '' socket: '') ec)
      | (s, None) \<Rightarrow> (s, Return (Inr ()))))))))"

text \<open>The destructor.\<close>

definition socket_destroy :: "os \<Rightarrow> socket \<Rightarrow> socket" where
  "socket_destroy os s = (if is_open s then fst (socket_close os s) else s)"

section \<open>\<open>SocketGuard\<close>\<close>

definition DEFAULT_GROUP_MASK :: u32 where
  "DEFAULT_GROUP_MASK = RTMGRP_LINK OR RTMGRP_NEIGH OR RTMGRP_IPV4_IFADDR
     OR RTMGRP_IPV6_IFADDR OR RTMGRP_IPV4_ROUTE OR RTMGRP_IPV6_ROUTE"

abbreviation (input) NETLINK_ROUTE :: int where "NETLINK_ROUTE \<equiv> 0"

record socket_guard =
  guard_socket :: socket
  group_mask :: u32

definition socket_guard_with_mask :: "string \<Rightarrow> u32 \<Rightarrow> socket_guard" where
  "socket_guard_with_mask label groups = \<lparr>guard_socket = socket_init label, group_mask = groups\<rparr>"

definition socket_guard_init :: "string \<Rightarrow> socket_guard" where
  "socket_guard_init label = socket_guard_with_mask label DEFAULT_GROUP_MASK"

definition ensure_open :: "os \<Rightarrow> socket_guard \<Rightarrow> socket_guard \<times> unit expected outcome" where
  "ensure_open os g =
     (if is_open (guard_socket g) then (g, Return (Inr ()))
      else case socket_open os NETLINK_ROUTE (group_mask g) (guard_socket g) of
        (s, Throw text ec) \<Rightarrow> (g\<lparr>guard_socket := s\<rparr>, Throw text ec)
      | (s, Return (Inl ec)) \<Rightarrow> (g\<lparr>guard_socket := s\<rparr>, Return (Inl ec))
      | (s, Return (Inr _)) \<Rightarrow>
          (case asio_connect os (endpoint_of (group_mask g) 0) s of
             (s, Some ec) \<Rightarrow> (g\<lparr>guard_socket := fst (socket_close os s)\<rparr>, Return (Inl ec))
           | (s, None) \<Rightarrow> (g\<lparr>guard_socket := s\<rparr>, Return (Inr ()))))"

definition guard_stop :: "os \<Rightarrow> socket_guard \<Rightarrow> socket_guard" where
  "guard_stop os g =
     (if \<not> is_open (guard_socket g) then g
      else let s = fst (socket_cancel os (guard_socket g));
               s = fst (socket_close os s)
           in g\<lparr>guard_socket := s\<rparr>)"

section \<open>Laws\<close>

lemmas socket_defs = socket_open_def socket_close_def socket_cancel_def enable_option_def
  asio_open_def asio_close_def asio_cancel_def asio_set_option_def asio_bind_def asio_connect_def
  expected_of_def is_open_def

text \<open>A socket that has been opened as it should be.\<close>

definition configured :: "int \<Rightarrow> u32 \<Rightarrow> socket \<Rightarrow> bool" where
  "configured p groups s \<longleftrightarrow> sock_open s \<and> sock_proto s = p
     \<and> sock_options s = [(Recv_Buf, 65536), (No_Enobufs, 1), (Ext_Ack, 1), (Strict_Chk, 1)]
     \<and> sock_bound s = Some (endpoint_of groups 0)"

lemma socket_close_closed: "\<not> is_open (fst (socket_close os s))"
  by (simp add: socket_defs)

lemma socket_open_configured:
  assumes "socket_open os p groups s = (s', Return (Inr ()))"
  shows "configured p groups s' \<and> \<not> is_open s"
  using assms
  by (auto simp: socket_defs configured_def protocol_of_def protocol_protocol_def
      split: if_splits option.splits)

lemma socket_open_throws:
  assumes "socket_open os p groups s = (s', Throw text ec)" "\<not> is_open s"
  shows "\<not> is_open s'"
  using assms by (auto simp: socket_defs split: if_splits option.splits)

text \<open>An option that cannot be set leaves the socket open, and not bound.\<close>

lemma socket_open_option_error:
  assumes "socket_open os p groups s = (s', Return (Inl ec))"
  shows "is_open s' \<and> sock_bound s' = None \<and> sock_peer s' = None"
  using assms by (auto simp: socket_defs split: if_splits option.splits)

lemma ensure_open_closed:
  assumes "\<not> is_open (guard_socket g)" "ensure_open os g = (g', Return (Inr ()))"
  shows "configured NETLINK_ROUTE (group_mask g) (guard_socket g')
    \<and> sock_peer (guard_socket g') = Some (endpoint_of (group_mask g) 0) \<and> group_mask g' = group_mask g"
proof -
  obtain s where s: "socket_open os 0 (group_mask g) (guard_socket g) = (s, Return (Inr ()))"
    and c: "(case asio_connect os (endpoint_of (group_mask g) 0) s of
             (s, Some ec) \<Rightarrow> (g\<lparr>guard_socket := fst (socket_close os s)\<rparr>, Return (Inl ec))
           | (s, None) \<Rightarrow> (g\<lparr>guard_socket := s\<rparr>, Return (Inr ()))) = (g', Return (Inr ()))"
    using assms unfolding ensure_open_def
    by (auto split: prod.splits outcome.splits sum.splits)
  show ?thesis
    using socket_open_configured [OF s] c
    by (auto simp: asio_connect_def configured_def split: if_splits option.splits)
qed

lemma ensure_open_idle: "is_open (guard_socket g) \<Longrightarrow> ensure_open os g = (g, Return (Inr ()))"
  by (simp add: ensure_open_def)

lemma ensure_open_is_open:
  "ensure_open os g = (g', Return (Inr ())) \<Longrightarrow> is_open (guard_socket g')"
  using ensure_open_closed [of g os g'] by (cases "is_open (guard_socket g)")
    (auto simp: ensure_open_idle configured_def is_open_def)

lemma guard_stop_closed: "\<not> is_open (guard_socket (guard_stop os g))"
  by (simp add: guard_stop_def socket_close_closed Let_def)

lemma guard_stop_mask [simp]: "group_mask (guard_stop os g) = group_mask g"
  by (simp add: guard_stop_def Let_def)

section \<open>Properties\<close>

text \<open>
  C33. \<open>SocketGuard::ensure_open\<close>, when it succeeds on a closed guard, leaves a route socket with
  all four options set, bound and connected to the guard's groups; once it has succeeded it does
  nothing more, and \<open>stop\<close> closes the socket whatever the system answers.
\<close>

theorem guard_life_cycle:
  assumes "\<not> is_open (guard_socket g)" "ensure_open os g = (g1, Return (Inr ()))"
  shows "configured NETLINK_ROUTE (group_mask g) (guard_socket g1)
    \<and> sock_peer (guard_socket g1) = Some (endpoint_of (group_mask g) 0)
    \<and> ensure_open os' g1 = (g1, Return (Inr ()))
    \<and> \<not> is_open (guard_socket (guard_stop os'' g1)) \<and> group_mask (guard_stop os'' g1) = group_mask g"
  using ensure_open_closed [OF assms] ensure_open_idle [OF ensure_open_is_open [OF assms(2)]]
  by (simp add: guard_stop_closed)

lemma guard_life_cycle_witness:
  "\<exists>g1. ensure_open (\<lambda>_. None) (socket_guard_init ''x'') = (g1, Return (Inr ()))
    \<and> sock_bound (guard_socket g1) = Some (Endpoint 16 0 0 0x555)"
proof -
  let ?g = "socket_guard_init ''x''"
  obtain g1 where g1: "ensure_open (\<lambda>_. None) ?g = (g1, Return (Inr ()))"
    by (simp add: ensure_open_def socket_defs socket_guard_init_def socket_guard_with_mask_def socket_init_def)
  have closed: "\<not> is_open (guard_socket ?g)" "group_mask ?g = 0x555"
    by (simp_all add: is_open_def socket_guard_init_def socket_guard_with_mask_def socket_init_def DEFAULT_GROUP_MASK_def)
  show ?thesis
    using guard_life_cycle [OF closed(1) g1, of "\<lambda>_. None" "\<lambda>_. None"] g1 closed(2)
    by (auto simp: configured_def endpoint_of_def)
qed

text \<open>
  C34. An option that cannot be set is an error of \<open>ensure_open\<close> that leaves the socket open: the
  next \<open>ensure_open\<close> succeeds, on a socket that is neither bound nor connected. The other errors
  close it.
\<close>

theorem option_error_leaves_unbound_socket:
  assumes "\<not> is_open (guard_socket g)" "ensure_open os g = (g1, Return (Inl ec))"
    and "is_open (guard_socket g1)"
  shows "ensure_open os' g1 = (g1, Return (Inr ())) \<and> sock_bound (guard_socket g1) = None
    \<and> sock_peer (guard_socket g1) = None"
proof -
  obtain s r where s: "socket_open os 0 (group_mask g) (guard_socket g) = (s, r)"
    by (cases "socket_open os 0 (group_mask g) (guard_socket g)")
  have "r = Return (Inl ec) \<and> g1 = g\<lparr>guard_socket := s\<rparr>"
    using assms s socket_close_closed
    by (auto simp: ensure_open_def split: outcome.splits sum.splits prod.splits option.splits)
  then show ?thesis
    using socket_open_option_error [of os 0 "group_mask g" "guard_socket g" s ec] s assms(3)
    by (simp add: ensure_open_idle)
qed

lemma option_error_leaves_unbound_socket_witness:
  "let os = (\<lambda>c. if c = Sys_Set_Option Ext_Ack then Some (Error_Code System_Category 92) else None);
       g1 = fst (ensure_open os (socket_guard_init ''x''))
   in snd (ensure_open os (socket_guard_init ''x'')) = Return (Inl (Error_Code System_Category 92))
     \<and> snd (ensure_open os g1) = Return (Inr ()) \<and> sock_bound (guard_socket g1) = None"
proof -
  let ?os = "\<lambda>c. if c = Sys_Set_Option Ext_Ack then Some (Error_Code System_Category 92) else None"
  let ?g = "socket_guard_init ''x''"
  have closed: "\<not> is_open (guard_socket ?g)"
    by (simp add: is_open_def socket_guard_init_def socket_guard_with_mask_def socket_init_def)
  obtain g1 where g1: "ensure_open ?os ?g = (g1, Return (Inl (Error_Code System_Category 92)))"
    and op: "is_open (guard_socket g1)"
    by (simp add: ensure_open_def socket_defs socket_guard_init_def socket_guard_with_mask_def socket_init_def)
  show ?thesis
    using option_error_leaves_unbound_socket [OF closed g1 op, of ?os] by (simp add: Let_def g1)
qed

end
