(* ===== verification/Message_Loop.thy ===== *)
theory Message_Loop
  imports Encoding
begin

text \<open>
  The loop over the messages of a datagram, which occurs twice in the program:
  \<open>RequestTask::read_loop\<close> (\<open>include/rtaco/tasks/nl_request_task.hxx\<close>) and
  \<open>Listener::process_messages\<close> (\<open>src/core/nl_listener.cxx\<close>).

  \<open>remaining\<close> is an \<open>unsigned int\<close> and \<open>NLMSG_NEXT\<close> subtracts the aligned
  length from it, so it wraps when a datagram ends in a message whose length is not aligned.
  The loop may then run on over stale bytes, out of the buffer, or forever. The result is
  \<open>None\<close> when the loop does not return, \<open>Some None\<close> when it reads outside of the
  buffer, and otherwise the state, the result of the callback that stopped the loop (if any)
  and the bytes that were not consumed.
\<close>

partial_function (option) nlmsg_loop ::
  "(ptr \<Rightarrow> 's \<Rightarrow> ('s \<times> 'r option) ub) \<Rightarrow> mem \<Rightarrow> ptr \<Rightarrow> u32 \<Rightarrow> 's \<Rightarrow> ('s \<times> 'r option \<times> u32) ub option"
where
  "nlmsg_loop process m header remaining s =
     (if remaining < 16 then Some (Some (s, None, remaining))
      else (case NLMSG_OK m header remaining of
        None \<Rightarrow> Some None
      | Some ok \<Rightarrow>
         (if \<not> ok then Some (Some (s, None, remaining))
          else (case process header s of
            None \<Rightarrow> Some None
          | Some (s', result) \<Rightarrow>
             (case result of
                Some r \<Rightarrow> Some (Some (s', Some r, remaining))
              | None \<Rightarrow>
                 (case nlmsg_len m header of
                    None \<Rightarrow> Some None
                  | Some len \<Rightarrow>
                      nlmsg_loop process m (header + unat (NLMSG_ALIGN len))
                        (remaining - NLMSG_ALIGN len) s'))))))"

text \<open>The branches of one iteration.\<close>

lemma NLMSG_OK_not_small: "NLMSG_OK m h remaining = Some True \<Longrightarrow> \<not> remaining < 16"
  by (auto simp: NLMSG_OK_def)

lemma nlmsg_loop_stop:
  "remaining < 16 \<or> NLMSG_OK m header remaining = Some False \<Longrightarrow>
     nlmsg_loop process m header remaining s = Some (Some (s, None, remaining))"
  by (subst nlmsg_loop.simps) auto

lemma nlmsg_loop_result:
  "NLMSG_OK m header remaining = Some True \<Longrightarrow> process header s = Some (s', Some r) \<Longrightarrow>
     nlmsg_loop process m header remaining s = Some (Some (s', Some r, remaining))"
  by (subst nlmsg_loop.simps) (auto dest: NLMSG_OK_not_small)

lemma nlmsg_loop_next:
  "NLMSG_OK m header remaining = Some True \<Longrightarrow> process header s = Some (s', None) \<Longrightarrow>
     nlmsg_len m header = Some len \<Longrightarrow>
     nlmsg_loop process m header remaining s =
       nlmsg_loop process m (header + unat (NLMSG_ALIGN len)) (remaining - NLMSG_ALIGN len) s'"
  by (subst nlmsg_loop.simps) (auto dest: NLMSG_OK_not_small)

section \<open>Datagrams\<close>

definition wf_msg :: "u8 list \<Rightarrow> bool" where
  "wf_msg b \<longleftrightarrow> 16 \<le> length b \<and> length b < 2 ^ 31 \<and> nlmsg_len b 0 = Some (of_nat (length b))"

definition enc_datagram :: "u8 list list \<Rightarrow> u8 list" where
  "enc_datagram msgs = concat (map pad4 msgs)"

text \<open>The reference: the callback is applied to each message on its own, up to a result.\<close>

fun run_msgs :: "(mem \<Rightarrow> ptr \<Rightarrow> 's \<Rightarrow> ('s \<times> 'r option) ub) \<Rightarrow> u8 list list \<Rightarrow> 's \<Rightarrow> ('s \<times> 'r option) ub" where
  "run_msgs process [] s = Some (s, None)"
| "run_msgs process (b # bs) s =
     (case process b 0 s of
        None \<Rightarrow> None
      | Some (s', Some r) \<Rightarrow> Some (s', Some r)
      | Some (s', None) \<Rightarrow> run_msgs process bs s')"

lemma enc_datagram_simps [simp]:
  "enc_datagram [] = []" "enc_datagram (b # bs) = pad4 b @ enc_datagram bs"
  by (simp_all add: enc_datagram_def)

lemma wf_msg_enc: "16 + length body < 2 ^ 31 \<Longrightarrow> wf_msg (enc_msg type flags seq pid body)"
  by (simp add: wf_msg_def nlmsghdr_enc_msg)

lemma run_msgs_append:
  "run_msgs process (as @ bs) s =
     (case run_msgs process as s of
        None \<Rightarrow> None
      | Some (s', Some r) \<Rightarrow> Some (s', Some r)
      | Some (s', None) \<Rightarrow> run_msgs process bs s')"
  by (induction as arbitrary: s) (auto split: option.splits)

lemma embeds_pad4: "embeds (pad4 b @ xs) m d \<Longrightarrow> embeds b m d \<and> embeds xs m (d + length (pad4 b))"
proof -
  assume "embeds (pad4 b @ xs) m d"
  then obtain pre post where m: "m = pre @ (pad4 b @ xs) @ post" and d: "d = length pre"
    by (auto simp: embeds_def)
  obtain z where z: "pad4 b = b @ z" by (simp add: pad4_def)
  have "embeds b m d" by (rule embedsI [of _ pre _ "z @ xs @ post"]) (simp_all add: m d z)
  moreover have "embeds xs m (d + length (pad4 b))"
    by (rule embedsI [of _ "pre @ pad4 b" _ post]) (simp_all add: m d)
  ultimately show ?thesis by simp
qed

text \<open>
  The interface of the loop's callback: it reads the message it is given. The loop over an
  encoded datagram then does what the reference does, message by message.
\<close>

locale message_handler =
  fixes process :: "mem \<Rightarrow> ptr \<Rightarrow> 's \<Rightarrow> ('s \<times> 'r option) ub"
  assumes process_frame: "embeds b m d \<Longrightarrow> q = d + p \<Longrightarrow> ub_le (process b p s) (process m q s)"
begin

lemma process_embedded: "embeds b m d \<Longrightarrow> process b 0 s = Some x \<Longrightarrow> process m d s = Some x"
  using process_frame [of b m d d 0 s] by (auto dest: ub_leD)

lemma loop_datagram:
  assumes "run_msgs process msgs s = Some (s', r)"
    and "\<And>b. b \<in> set msgs \<Longrightarrow> wf_msg b"
    and "embeds (enc_datagram msgs) m header"
    and "length (enc_datagram msgs) < 2 ^ 31"
  shows "\<exists>left. nlmsg_loop (process m) m header (of_nat (length (enc_datagram msgs))) s
      = Some (Some (s', r, left)) \<and> (r = None \<longrightarrow> left = 0)"
  using assms
proof (induction msgs arbitrary: s header)
  case Nil
  then show ?case by (simp add: nlmsg_loop.simps)
next
  case (Cons b bs)
  let ?n = "length (enc_datagram (b # bs))" and ?k = "length (pad4 b)"
  have wf: "16 \<le> length b" "length b < 2 ^ 31" "nlmsg_len b 0 = Some (of_nat (length b))"
    using Cons.prems(2) by (auto simp: wf_msg_def)
  have emb: "embeds b m header" "embeds (enc_datagram bs) m (header + ?k)"
    using embeds_pad4 [of b "enc_datagram bs" m header] Cons.prems(3) by simp_all
  have n: "unat (of_nat ?n :: u32) = ?n" and k: "unat (of_nat (length b) :: u32) = length b"
    using msg_len_small [OF Cons.prems(4)] msg_len_small [OF wf(2)] by simp_all
  have len: "nlmsg_len m header = Some (of_nat (length b))"
    using ub_leD [OF nlmsghdr_frame(1) [OF emb(1), of header 0] wf(3)] by simp
  have le: "length b \<le> ?n" by simp
  have al: "unat (NLMSG_ALIGN (of_nat (length b))) = ?k"
    using wf(2) by (subst unat_NLMSG_ALIGN) (simp_all add: k)
  have ok: "NLMSG_OK m header (of_nat ?n) = Some True"
    unfolding NLMSG_OK_def len using n k le wf(1)
    by (simp add: word_le_nat_alt word_less_nat_alt del: length_append of_nat_add enc_datagram_simps)
  have rem: "of_nat ?n - NLMSG_ALIGN (of_nat (length b)) = (of_nat (length (enc_datagram bs)) :: u32)"
  proof (rule word_unat_eq_iff [THEN iffD2])
    have "NLMSG_ALIGN (of_nat (length b)) \<le> (of_nat ?n :: u32)"
      using n al by (simp add: word_le_nat_alt del: of_nat_add)
    then have "unat (of_nat ?n - NLMSG_ALIGN (of_nat (length b)) :: u32) = ?n - ?k"
      using n al by (subst unat_sub) simp_all
    also have "\<dots> = length (enc_datagram bs)" by simp
    also have "\<dots> = unat (of_nat (length (enc_datagram bs)) :: u32)"
      using msg_len_small [of "length (enc_datagram bs)"] Cons.prems(4) by simp
    finally show "unat (of_nat ?n - NLMSG_ALIGN (of_nat (length b)) :: u32)
        = unat (of_nat (length (enc_datagram bs)) :: u32)" .
  qed
  obtain s1 r1 where p1: "process b 0 s = Some (s1, r1)"
    using Cons.prems(1) by (auto split: option.splits)
  then have p: "process m header s = Some (s1, r1)"
    by (rule process_embedded [OF emb(1)])
  show ?case
  proof (cases r1)
    case (Some x)
    then have "s' = s1" "r = Some x" using Cons.prems(1) p1 by simp_all
    then show ?thesis
      using nlmsg_loop_result [where process = "process m", OF ok p [unfolded Some]] by blast
  next
    case None
    then have "run_msgs process bs s1 = Some (s', r)" using Cons.prems(1) p1 by simp
    then have "\<exists>left. nlmsg_loop (process m) m (header + ?k) (of_nat (length (enc_datagram bs))) s1
        = Some (Some (s', r, left)) \<and> (r = None \<longrightarrow> left = 0)"
      using Cons.prems(2,4) emb(2) by (intro Cons.IH) simp_all
    then show ?thesis
      unfolding nlmsg_loop_next [where process = "process m", OF ok p [unfolded None] len] al rem .
  qed
qed

end

section \<open>Invariants\<close>

text \<open>
  What every callback keeps, the loop keeps, whatever the buffer holds; and what every callback's
  result has, the result of the loop has.
\<close>

lemma nlmsg_loop_invariant:
  assumes "nlmsg_loop process m header remaining s = Some (Some (s', r, left))" "I s"
    and keeps: "\<And>h s s' r. I s \<Longrightarrow> process h s = Some (s', r) \<Longrightarrow> I s' \<and> (\<forall>x. r = Some x \<longrightarrow> Q x)"
  shows "I s' \<and> (\<forall>x. r = Some x \<longrightarrow> Q x)"
proof -
  let ?P = "\<lambda>p m' h rem s y. p = process \<longrightarrow> I s \<longrightarrow>
    (\<forall>s' r left. y = Some (s', r, left) \<longrightarrow> I s' \<and> (\<forall>x. r = Some x \<longrightarrow> Q x))"
  have "?P process m header remaining s (Some (s', r, left))"
  proof (rule nlmsg_loop.raw_induct [where P = ?P, OF _ assms(1)])
    fix f :: "(nat \<Rightarrow> 'a \<Rightarrow> ('a \<times> 'b option) option) \<Rightarrow> 8 word list \<Rightarrow> nat \<Rightarrow> 32 word \<Rightarrow> 'a \<Rightarrow> ('a \<times> 'b option \<times> 32 word) option option"
    fix p m' h rem s y
    assume IH: "\<And>p m' h rem s y. f p m' h rem s = Some y \<Longrightarrow> ?P p m' h rem s y"
      and eq: "(if rem < 16 then Some (Some (s, None, rem))
      else (case NLMSG_OK m' h rem of
        None \<Rightarrow> Some None
      | Some ok \<Rightarrow>
         (if \<not> ok then Some (Some (s, None, rem))
          else (case p h s of
            None \<Rightarrow> Some None
          | Some (s', result) \<Rightarrow>
             (case result of
                Some x \<Rightarrow> Some (Some (s', Some x, rem))
              | None \<Rightarrow>
                 (case nlmsg_len m' h of
                    None \<Rightarrow> Some None
                  | Some len \<Rightarrow> f p m' (h + unat (NLMSG_ALIGN len)) (rem - NLMSG_ALIGN len) s')))))) = Some y"
    show "?P p m' h rem s y"
    proof (intro impI)
      assume p: "p = process" and I: "I s"
      show "\<forall>s' r left. y = Some (s', r, left) \<longrightarrow> I s' \<and> (\<forall>x. r = Some x \<longrightarrow> Q x)"
      proof (cases "process h s")
        case None
        then show ?thesis using eq p I by (auto split: if_splits option.splits)
      next
        case (Some a)
        obtain s1 r1 where a: "a = (s1, r1)" by (cases a)
        note k = keeps [OF I Some [unfolded a]]
        show ?thesis
        proof (cases r1)
          case None
          then show ?thesis using eq p I k Some a by (auto split: if_splits option.splits dest!: IH)
        next
          case (Some x)
          then show ?thesis using eq p I k \<open>process h s = Some a\<close> a
            by (auto split: if_splits option.splits)
        qed
      qed
    qed
  qed
  then show ?thesis using assms(2) by blast
qed

section \<open>Arbitrary contents\<close>

text \<open>
  When the number of received bytes is a multiple of 4, the loop returns for every contents of
  the buffer, calls the callback only on messages that lie inside the received bytes, and never
  wraps. \<open>P\<close> is what is known of the callback's state.
\<close>

lemma nlmsg_loop_safe:
  assumes "4 dvd unat remaining" "header + unat remaining \<le> length m" "P s"
    and "\<And>h s len. nlmsg_len m h = Some len \<Longrightarrow> 16 \<le> unat len \<Longrightarrow> header \<le> h \<Longrightarrow> 4 dvd h - header \<Longrightarrow>
      h + unat len \<le> header + unat remaining \<Longrightarrow> P s \<Longrightarrow> \<exists>s' r. process h s = Some (s', r) \<and> P s'"
  shows "\<exists>s' r left. nlmsg_loop process m header remaining s = Some (Some (s', r, left))
    \<and> P s' \<and> left \<le> remaining"
  using assms
proof (induction "unat remaining" arbitrary: header remaining s rule: less_induct)
  case less
  show ?case
  proof (cases "remaining < 16")
    case True
    then show ?thesis using less.prems(3) by (simp add: nlmsg_loop_stop)
  next
    case False
    then have "16 \<le> unat remaining" by (simp add: word_less_nat_alt)
    then obtain len where len: "nlmsg_len m header = Some len"
      using less.prems(2) rd32_defined_iff [of m header] unfolding nlmsg_len_def by auto
    show ?thesis
    proof (cases "16 \<le> len \<and> len \<le> remaining")
      case False
      then have "NLMSG_OK m header remaining = Some False"
        using \<open>\<not> remaining < 16\<close> by (auto simp: NLMSG_OK_def len)
      then show ?thesis using less.prems(3) by (simp add: nlmsg_loop_stop)
    next
      case True
      then have ok: "NLMSG_OK m header remaining = Some True"
        using \<open>\<not> remaining < 16\<close> by (simp add: NLMSG_OK_def len)
      have bounds: "16 \<le> unat len" "unat len \<le> unat remaining"
        using True by (simp_all add: word_le_nat_alt)
      have "unat remaining < 2 ^ 32" using unsigned_less [of remaining] by simp
      then have big: "unat remaining + 3 < 2 ^ 32"
        using less.prems(1) unfolding dvd_def by auto
      have al: "unat (NLMSG_ALIGN len) = (unat len + 3) div 4 * 4"
        using bounds big by (intro unat_NLMSG_ALIGN) simp
      have al_le: "unat (NLMSG_ALIGN len) \<le> unat remaining" "unat len \<le> unat (NLMSG_ALIGN len)"
      proof -
        obtain k where "unat remaining = 4 * k" using less.prems(1) by (rule dvdE)
        with bounds show "unat (NLMSG_ALIGN len) \<le> unat remaining"
          "unat len \<le> unat (NLMSG_ALIGN len)" 
          unfolding al using align4_ge [of "unat len"] align4_le [of "unat len" k] by simp_all
      qed
      have rem: "unat (remaining - NLMSG_ALIGN len) = unat remaining - unat (NLMSG_ALIGN len)"
        using al_le by (intro unat_sub) (simp add: word_le_nat_alt)
      obtain s1 r where p: "process header s = Some (s1, r)" and P: "P s1"
        using less.prems(4) [OF len bounds(1) order_refl _ _ less.prems(3)] bounds by auto
      show ?thesis
      proof (cases r)
        case (Some x)
        then show ?thesis using nlmsg_loop_result [where process = process, OF ok p [unfolded Some]] P by blast
      next
        case None
        let ?h = "header + unat (NLMSG_ALIGN len)" and ?r = "remaining - NLMSG_ALIGN len"
        have "\<exists>s' r left. nlmsg_loop process m ?h ?r s1 = Some (Some (s', r, left)) \<and> P s' \<and> left \<le> ?r"
        proof (rule less.hyps)
          show "unat ?r < unat remaining" using rem al_le bounds by linarith
          show "4 dvd unat ?r" unfolding rem al using less.prems(1) by simp
          show "?h + unat ?r \<le> length m" using rem al_le less.prems(2) by linarith
          show "P s1" by (rule P)
          show "\<exists>s' r. process h s = Some (s', r) \<and> P s'"
            if "nlmsg_len m h = Some l" "16 \<le> unat l" "?h \<le> h" "4 dvd h - ?h" "h + unat l \<le> ?h + unat ?r" "P s" for h s l
          proof (rule less.prems(4) [OF that(1,2) _ _ _ that(6)])
            have "4 dvd (h - ?h) + unat (NLMSG_ALIGN len)" using that(4) by (simp add: al)
            moreover have "h - header = (h - ?h) + unat (NLMSG_ALIGN len)" using that(3) by simp
            ultimately show "4 dvd h - header" by (simp only:)
          qed (use that rem al_le in simp_all)
        qed
        moreover have "?r \<le> remaining" using rem by (simp add: word_le_nat_alt)
        ultimately show ?thesis
          unfolding nlmsg_loop_next [where process = process, OF ok p [unfolded None] len] by (meson order_trans)
      qed
    qed
  qed
qed

section \<open>Wrap-around\<close>

text \<open>
  When the last message fills the datagram and its length is not a multiple of 4, the
  subtraction wraps: the loop goes on with almost \<open>2 ^ 32\<close> bytes to its credit.
\<close>

lemma nlmsg_loop_wraps:
  assumes len: "nlmsg_len m header = Some len" and "16 \<le> len" "\<not> 4 dvd unat len" "unat len < 2 ^ 31"
    and p: "process header s = Some (s', None)"
  shows "nlmsg_loop process m header len s =
    nlmsg_loop process m (header + (unat len + 3) div 4 * 4) (- of_nat (4 - unat len mod 4)) s'"
proof -
  have al: "unat (NLMSG_ALIGN len) = (unat len + 3) div 4 * 4"
    using assms(4) by (intro unat_NLMSG_ALIGN) simp
  have "unat len mod 4 \<noteq> 0" using assms(3) by (simp only: dvd_eq_mod_eq_0 not_False_eq_True)
  then have "(4 - unat len mod 4) mod 4 = 4 - unat len mod 4"
    by (intro mod_less) simp
  then have "unat (NLMSG_ALIGN len) = unat len + (4 - unat len mod 4)"
    using pad4_arith [of "unat len"] al by simp
  then have "(of_nat (unat (NLMSG_ALIGN len)) :: u32) = of_nat (unat len) + of_nat (4 - unat len mod 4)"
    by (simp only: of_nat_add)
  then have rem: "len - NLMSG_ALIGN len = - of_nat (4 - unat len mod 4)"
    by simp
  have ok: "NLMSG_OK m header len = Some True"
    using assms(1,2) by (auto simp: NLMSG_OK_def)
  show ?thesis
    by (subst nlmsg_loop_next [where process = process, OF ok p len]) (simp only: rem al)
qed

text \<open>And a header whose aligned length is 0 (which only a wrapped \<open>remaining\<close> admits) is met again for ever.\<close>

lemma nlmsg_loop_diverges:
  assumes ok: "NLMSG_OK m header remaining = Some True" and len: "nlmsg_len m header = Some len"
    and zero: "NLMSG_ALIGN len = 0" and goes_on: "\<And>s. \<exists>s'. process header s = Some (s', None)"
  shows "nlmsg_loop process m header remaining s = None"
proof (rule ccontr)
  assume "nlmsg_loop process m header remaining s \<noteq> None"
  then obtain y where y: "nlmsg_loop process m header remaining s = Some y" by blast
  have "(process, m, header, remaining) \<noteq> (process, m, header, remaining)"
  proof (rule nlmsg_loop.raw_induct [where P = "\<lambda>p m' h r s y. (p, m', h, r) \<noteq> (process, m, header, remaining)", OF _ y])
    fix f :: "(nat \<Rightarrow> 'a \<Rightarrow> ('a \<times> 'b option) option) \<Rightarrow> 8 word list \<Rightarrow> nat \<Rightarrow> 32 word \<Rightarrow> 'a \<Rightarrow> ('a \<times> 'b option \<times> 32 word) option option"
    fix p m' h r s y
    assume IH: "\<And>p m' h r s y. f p m' h r s = Some y \<Longrightarrow> (p, m', h, r) \<noteq> (process, m, header, remaining)"
      and eq: "(if r < 16 then Some (Some (s, None, r))
      else (case NLMSG_OK m' h r of
        None \<Rightarrow> Some None
      | Some ok \<Rightarrow>
         (if \<not> ok then Some (Some (s, None, r))
          else (case p h s of
            None \<Rightarrow> Some None
          | Some (s', result) \<Rightarrow>
             (case result of
                Some x \<Rightarrow> Some (Some (s', Some x, r))
              | None \<Rightarrow>
                 (case nlmsg_len m' h of
                    None \<Rightarrow> Some None
                  | Some len \<Rightarrow> f p m' (h + unat (NLMSG_ALIGN len)) (r - NLMSG_ALIGN len) s')))))) = Some y"
    show "(p, m', h, r) \<noteq> (process, m, header, remaining)"
    proof
      assume same: "(p, m', h, r) = (process, m, header, remaining)"
      obtain s' where "process header s = Some (s', None)" using goes_on by blast
      then have "f process m header remaining s' = Some y"
        using eq same ok len zero NLMSG_OK_not_small [OF ok] by simp
      then show False using IH by blast
    qed
  qed
  then show False by simp
qed

end
