(* ===== verification/Request_Task.thy ===== *)
theory Request_Task
  imports Message_Loop
begin

text \<open>
  \<open>RequestTask\<close> (\<open>include/rtaco/tasks/nl_request_task.hxx\<close>): a request is prepared,
  sent in as many pieces as the socket takes, and answered by datagrams whose messages the
  derived task processes until it yields a result.

  The coroutine suspends at each socket operation; what the operations complete with is the
  environment's choice and is given as a list of outcomes. When the list ends first, the
  coroutine is still suspended, and there is no result yet.
\<close>

record request_task =
  ifindex :: u16
  sequence :: u32

datatype send_outcome = Sent nat | Send_Error int

datatype recv_outcome = Received "u8 list" | Recv_Error int

definition MAX_RESPONSE_BYTES :: nat where
  "MAX_RESPONSE_BYTES = 64 * 1024"

text \<open>
  \<open>send_request\<close>: \<open>wire\<close> collects what the socket has taken, piece after piece.
\<close>

fun send_request :: "u8 list \<Rightarrow> nat \<Rightarrow> send_outcome list \<Rightarrow> u8 list \<Rightarrow> u8 list \<times> unit expected option" where
  "send_request payload offset outcomes wire =
     (if offset < length payload then
        (case outcomes of
           [] \<Rightarrow> (wire, None)
         | Send_Error ec # rest \<Rightarrow> (wire, Some (Inl (Error_Code Generic_Category ec)))
         | Sent sent # rest \<Rightarrow>
             send_request payload (offset + sent) rest (wire @ take sent (drop offset payload)))
      else (wire, Some (Inr ())))"

declare send_request.simps [simp del]

text \<open>A receive fills the front of the buffer; a datagram that does not fit is cut off.\<close>

definition receive_into :: "mem \<Rightarrow> u8 list \<Rightarrow> mem" where
  "receive_into buffer data = take (length buffer) data @ drop (length data) buffer"

fun read_loop :: "(mem \<Rightarrow> ptr \<Rightarrow> 's \<Rightarrow> ('s \<times> 'r expected option) ub) \<Rightarrow> mem \<Rightarrow> 's \<Rightarrow> recv_outcome list
  \<Rightarrow> ('s \<times> mem \<times> 'r expected option) ub option" where
  "read_loop process receive_buffer s [] = Some (Some (s, receive_buffer, None))"
| "read_loop process receive_buffer s (Recv_Error ec # outcomes) =
     Some (Some (s, receive_buffer, Some (Inl (Error_Code Generic_Category ec))))"
| "read_loop process receive_buffer s (Received data # outcomes) =
     (let buffer = receive_into receive_buffer data;
          bytes = min (length data) (length receive_buffer)
      in case nlmsg_loop (process buffer) buffer 0 (of_nat bytes) s of
           None \<Rightarrow> None
         | Some None \<Rightarrow> Some None
         | Some (Some (s', result, remaining)) \<Rightarrow>
             (case result of
                Some r \<Rightarrow> Some (Some (s', buffer, Some r))
              | None \<Rightarrow> read_loop process buffer s' outcomes))"

definition async_run ::
  "('s \<Rightarrow> 's) \<Rightarrow> ('s \<Rightarrow> u8 list ub) \<Rightarrow> (mem \<Rightarrow> ptr \<Rightarrow> 's \<Rightarrow> ('s \<times> 'r expected option) ub)
    \<Rightarrow> mem \<Rightarrow> 's \<Rightarrow> send_outcome list \<Rightarrow> recv_outcome list
    \<Rightarrow> (u8 list \<times> 's \<times> 'r expected option) ub option" where
  "async_run prepare_request request_payload process receive_buffer s sends recvs =
     (let s = prepare_request s
      in case request_payload s of
           None \<Rightarrow> Some None
         | Some payload \<Rightarrow>
             (case send_request payload 0 sends [] of
                (wire, None) \<Rightarrow> Some (Some (wire, s, None))
              | (wire, Some (Inl e)) \<Rightarrow> Some (Some (wire, s, Some (Inl e)))
              | (wire, Some (Inr _)) \<Rightarrow>
                  map_option (map_option (\<lambda>(s', buffer, result). (wire, s', result)))
                    (read_loop process receive_buffer s recvs)))"

section \<open>Sending\<close>

lemma send_request_done:
  "\<not> offset < length payload \<Longrightarrow> send_request payload offset outcomes wire = (wire, Some (Inr ()))"
  by (subst send_request.simps) simp

text \<open>However the socket splits the request, what it has taken is a prefix of the request.\<close>

lemma send_request_prefix:
  assumes "send_request payload offset outcomes wire = (wire', r)" and "wire = take offset payload"
  shows "\<exists>n. wire' = take n payload \<and> (r = Some (Inr ()) \<longrightarrow> length payload \<le> n)"
  using assms
proof (induction outcomes arbitrary: offset wire)
  case Nil
  then show ?case
    by (subst (asm) send_request.simps, intro exI [of _ offset]) (auto split: if_splits)
next
  case (Cons x xs)
  show ?case
  proof (cases "offset < length payload")
    case True
    show ?thesis
    proof (cases x)
      case (Sent k)
      have "wire @ take k (drop offset payload) = take (offset + k) payload"
        by (simp add: Cons.prems(2) take_add)
      moreover have "send_request payload (offset + k) xs (wire @ take k (drop offset payload)) = (wire', r)"
        using Cons.prems(1) True Sent by (subst (asm) send_request.simps) simp
      ultimately show ?thesis using Cons.IH by blast
    next
      case (Send_Error ec)
      then show ?thesis
        using Cons.prems True by (subst (asm) send_request.simps) auto
    qed
  next
    case False
    then show ?thesis
      using Cons.prems by (intro exI [of _ "length payload"]) (auto simp: send_request_done)
  qed
qed

text \<open>If no send fails and the pieces add up to the request, it goes out whole.\<close>

lemma send_request_all:
  assumes "length payload \<le> offset + sum_list ns"
  shows "\<exists>wire'. send_request payload offset (map Sent ns @ rest) wire = (wire', Some (Inr ()))"
  using assms
proof (induction ns arbitrary: offset wire)
  case Nil
  then show ?case by (simp add: send_request_done)
next
  case (Cons n ns)
  show ?case
  proof (cases "offset < length payload")
    case True
    have "\<exists>wire'. send_request payload (offset + n) (map Sent ns @ rest)
        (wire @ take n (drop offset payload)) = (wire', Some (Inr ()))"
      using Cons.prems by (intro Cons.IH) simp
    with True show ?thesis by (subst send_request.simps) simp
  qed (simp add: send_request_done)
qed

lemma send_request_whole:
  assumes "length payload \<le> sum_list ns"
  shows "send_request payload 0 (map Sent ns @ rest) [] = (payload, Some (Inr ()))"
proof -
  obtain w where w: "send_request payload 0 (map Sent ns @ rest) [] = (w, Some (Inr ()))"
    using send_request_all [of payload 0 ns rest "[]"] assms by auto
  then obtain n where "w = take n payload" "length payload \<le> n"
    using send_request_prefix [OF w] by auto
  with w show ?thesis by simp
qed

lemma send_request_error:
  assumes "send_request payload offset outcomes wire = (wire', Some (Inl e))"
  shows "\<exists>ec. e = Error_Code Generic_Category ec \<and> Send_Error ec \<in> set outcomes"
  using assms
proof (induction payload offset outcomes wire rule: send_request.induct)
  case (1 payload offset outcomes wire)
  then show ?case
    by (subst (asm) (2) send_request.simps) (auto split: if_splits list.splits send_outcome.splits)
qed

section \<open>Receiving\<close>

lemma length_receive_into [simp]: "length (receive_into buffer data) = length buffer"
  by (simp add: receive_into_def)

lemma receive_into_embeds: "length data \<le> length buffer \<Longrightarrow> embeds data (receive_into buffer data) 0"
  by (rule embedsI [of _ "[]"]) (simp_all add: receive_into_def)

context message_handler
begin

lemma receive_datagram:
  assumes "run_msgs process msgs s = Some (s', r)" "\<And>b. b \<in> set msgs \<Longrightarrow> wf_msg b"
    and "length (enc_datagram msgs) \<le> length buffer" "length buffer < 2 ^ 31"
  shows "\<exists>left. nlmsg_loop (process (receive_into buffer (enc_datagram msgs)))
      (receive_into buffer (enc_datagram msgs)) 0 (of_nat (length (enc_datagram msgs))) s
    = Some (Some (s', r, left))"
  using loop_datagram [OF assms(1,2) receive_into_embeds [OF assms(3)]] assms(3,4) by auto

end

text \<open>Answers a buffer of \<open>n\<close> bytes can take.\<close>

definition wf_answer :: "nat \<Rightarrow> u8 list list list \<Rightarrow> bool" where
  "wf_answer n mss \<longleftrightarrow> n < 2 ^ 31 \<and>
     (\<forall>ms \<in> set mss. (\<forall>b \<in> set ms. wf_msg b) \<and> length (enc_datagram ms) \<le> n)"

abbreviation answers :: "u8 list list list \<Rightarrow> recv_outcome list" where
  "answers mss \<equiv> map (\<lambda>ms. Received (enc_datagram ms)) mss"

text \<open>The loop over datagrams does what the reference does on all their messages in a row.\<close>

lemma read_loop_datagrams:
  assumes "message_handler process"
    and "run_msgs process (concat mss) s = Some (s', r)" and "wf_answer (length buffer) mss"
  shows "\<exists>buffer'. read_loop process buffer s (answers mss) = Some (Some (s', buffer', r))"
  using assms(2-)
proof (induction mss arbitrary: s buffer)
  case Nil
  then show ?case by simp
next
  case (Cons ms mss)
  let ?b = "receive_into buffer (enc_datagram ms)"
  have fits: "length (enc_datagram ms) \<le> length buffer" and small: "length buffer < 2 ^ 31"
    and wf: "\<And>b. b \<in> set ms \<Longrightarrow> wf_msg b" and rest: "wf_answer (length ?b) mss"
    using Cons.prems(2) by (auto simp: wf_answer_def)
  obtain s1 r1 where run1: "run_msgs process ms s = Some (s1, r1)"
    using Cons.prems(1) by (auto simp: run_msgs_append split: option.splits)
  then obtain left where loop: "nlmsg_loop (process ?b) ?b 0 (of_nat (length (enc_datagram ms))) s
      = Some (Some (s1, r1, left))"
    using message_handler.receive_datagram [OF assms(1) run1 wf fits small] by blast
  show ?case
  proof (cases r1)
    case (Some x)
    then have "s' = s1" "r = Some x"
      using Cons.prems(1) run1 by (simp_all add: run_msgs_append)
    with loop Some show ?thesis by (simp add: Let_def min_absorb1 [OF fits])
  next
    case None
    then have "run_msgs process (concat mss) s1 = Some (s', r)"
      using Cons.prems(1) run1 by (simp add: run_msgs_append)
    then have "\<exists>buffer'. read_loop process ?b s1 (answers mss) = Some (Some (s', buffer', r))"
      using rest by (rule Cons.IH)
    with loop None show ?thesis by (simp add: Let_def min_absorb1 [OF fits])
  qed
qed

text \<open>
  Whatever is received, and however often: what every callback keeps holds when \<open>async_run\<close>
  ends, and its result is one of a callback or an error of the socket.
\<close>

lemma read_loop_invariant:
  assumes "read_loop process buffer s recvs = Some (Some (s', buffer', r))" "I s"
    and keeps: "\<And>m h s s' r. I s \<Longrightarrow> process m h s = Some (s', r) \<Longrightarrow> I s' \<and> (\<forall>x. r = Some x \<longrightarrow> Q x)"
    and errors: "\<And>ec. Q (Inl (Error_Code Generic_Category ec))"
  shows "I s' \<and> (\<forall>x. r = Some x \<longrightarrow> Q x)"
  using assms(1,2)
proof (induction recvs arbitrary: s buffer)
  case Nil
  then show ?case by simp
next
  case (Cons x outcomes)
  show ?case
  proof (cases x)
    case (Recv_Error ec)
    then show ?thesis using Cons.prems errors by auto
  next
    case (Received data)
    let ?b = "receive_into buffer data"
    let ?n = "min (length data) (length buffer)"
    from Cons.prems(1) obtain s1 r1 left where
      loop: "nlmsg_loop (process ?b) ?b 0 (of_nat ?n) s = Some (Some (s1, r1, left))"
      by (auto simp: Let_def Received split: option.splits)
    have k: "I s1 \<and> (\<forall>x. r1 = Some x \<longrightarrow> Q x)"
      by (rule nlmsg_loop_invariant [where I = I and Q = Q, OF loop Cons.prems(2) keeps])
    show ?thesis
    proof (cases r1)
      case None
      then have "read_loop process ?b s1 outcomes = Some (Some (s', buffer', r))"
        using Cons.prems(1) loop by (simp add: Let_def Received)
      then show ?thesis using Cons.IH k by blast
    next
      case (Some x)
      then show ?thesis using Cons.prems(1) loop k by (simp add: Let_def Received)
    qed
  qed
qed

lemma async_run_invariant:
  assumes "async_run prepare_request request_payload process buffer s sends recvs = Some (Some (wire, s', r))"
    and "I (prepare_request s)"
    and "\<And>m h s s' r. I s \<Longrightarrow> process m h s = Some (s', r) \<Longrightarrow> I s' \<and> (\<forall>x. r = Some x \<longrightarrow> Q x)"
    and "\<And>ec. Q (Inl (Error_Code Generic_Category ec))"
  shows "I s' \<and> (\<forall>x. r = Some x \<longrightarrow> Q x)"
proof -
  obtain payload where p: "request_payload (prepare_request s) = Some payload"
    using assms(1) by (auto simp: async_run_def Let_def split: option.splits)
  obtain w sent where snd: "send_request payload 0 sends [] = (w, sent)"
    by (cases "send_request payload 0 sends []")
  show ?thesis
  proof (cases sent)
    case None
    then show ?thesis using assms(1,2) p snd by (simp add: async_run_def Let_def)
  next
    case (Some a)
    show ?thesis
    proof (cases a)
      case (Inl e)
      then show ?thesis using assms(1,2,4) p snd Some send_request_error [of payload 0 sends "[]" w e]
        by (auto simp: async_run_def Let_def)
    next
      case (Inr u)
      then obtain buffer' where
        "read_loop process buffer (prepare_request s) recvs = Some (Some (s', buffer', r))"
        using assms(1) p snd Some by (auto simp: async_run_def Let_def)
      then show ?thesis
        by (rule read_loop_invariant [where I = I and Q = Q]) (use assms(2-4) in blast)+
    qed
  qed
qed

section \<open>The interface of a task\<close>

text \<open>
  The concept \<open>request_behavior\<close>: what \<open>RequestTask\<close> calls of the derived task, and
  what the tasks promise: the prepared request is a message that carries the task's sequence
  number and lies within the request struct, and messages with another sequence number are
  ignored.
\<close>

locale request_behavior = message_handler process
  for process :: "mem \<Rightarrow> ptr \<Rightarrow> 's \<Rightarrow> ('s \<times> 'r expected option) ub" +
  fixes prepare_request :: "'s \<Rightarrow> 's"
    and request_payload :: "'s \<Rightarrow> u8 list ub"
    and seq_of :: "'s \<Rightarrow> u32"
    and valid :: "'s \<Rightarrow> bool"
  assumes payload_message: "valid s \<Longrightarrow> \<exists>bytes. request_payload (prepare_request s) = Some bytes \<and> wf_msg bytes
      \<and> nlmsg_seq bytes 0 = Some (seq_of s)"
    and prepare_seq: "seq_of (prepare_request s) = seq_of s"
    and process_seq: "process m h s = Some (s', r) \<Longrightarrow> seq_of s' = seq_of s"
    and process_foreign: "nlmsg_seq m h = Some q \<Longrightarrow> q \<noteq> seq_of s \<Longrightarrow> process m h s = Some (s, None)"
begin

abbreviation own :: "u32 \<Rightarrow> u8 list \<Rightarrow> bool" where
  "own q b \<equiv> nlmsg_seq b 0 = Some q"

lemma seq_defined: "wf_msg b \<Longrightarrow> \<exists>q. nlmsg_seq b 0 = Some q"
  unfolding nlmsg_seq_def rd32_defined_iff by (simp add: wf_msg_def)

lemma run_msgs_seq: "run_msgs process ms s = Some (s', r) \<Longrightarrow> seq_of s' = seq_of s"
  by (induction ms arbitrary: s) (auto split: option.splits dest: process_seq)

text \<open>Messages of other requests, and notifications, have no influence on the result.\<close>

lemma run_msgs_own:
  assumes "\<And>b. b \<in> set msgs \<Longrightarrow> wf_msg b"
  shows "run_msgs process msgs s = run_msgs process (filter (own (seq_of s)) msgs) s"
  using assms
proof (induction msgs arbitrary: s)
  case Nil
  then show ?case by simp
next
  case (Cons b bs)
  obtain q where q: "nlmsg_seq b 0 = Some q" using seq_defined Cons.prems by auto
  show ?case
  proof (cases "q = seq_of s")
    case True
    have "run_msgs process bs s1 = run_msgs process (filter (own (seq_of s)) bs) s1"
      if "process b 0 s = Some (s1, None)" for s1
      using Cons.IH [of s1] Cons.prems process_seq [OF that] by simp
    with True q show ?thesis by (auto split: option.splits)
  next
    case False
    then have "process b 0 s = Some (s, None)" by (rule process_foreign [OF q])
    with False q show ?thesis using Cons.IH [of s] Cons.prems by simp
  qed
qed

text \<open>
  A whole exchange: the request goes out whole, and the result is the reference run over the
  task's own messages in the answer.
\<close>

lemma exchange:
  assumes "valid s"
    and "run_msgs process (filter (own (seq_of s)) (concat mss)) (prepare_request s) = Some (s', r)"
    and "wf_answer (length buffer) mss"
    and "\<And>bytes. request_payload (prepare_request s) = Some bytes \<Longrightarrow> length bytes \<le> sum_list ns"
  shows "\<exists>bytes. request_payload (prepare_request s) = Some bytes
    \<and> async_run prepare_request request_payload process buffer s (map Sent ns) (answers mss)
      = Some (Some (bytes, s', r))"
proof -
  obtain bytes where b: "request_payload (prepare_request s) = Some bytes"
    using payload_message [OF assms(1)] by blast
  have snd: "send_request bytes 0 (map Sent ns) [] = (bytes, Some (Inr ()))"
    using send_request_whole [OF assms(4) [OF b], of "[]"] by simp
  have "run_msgs process (concat mss) (prepare_request s) = Some (s', r)"
    using assms(2,3) run_msgs_own [of "concat mss" "prepare_request s"]
    by (auto simp: prepare_seq wf_answer_def)
  then obtain buffer' where "read_loop process buffer (prepare_request s) (answers mss)
      = Some (Some (s', buffer', r))"
    using read_loop_datagrams [OF message_handler_axioms _ assms(3)] by blast
  then show ?thesis
    by (simp add: async_run_def b snd)
qed

text \<open>A send error ends the exchange with that error; so does a receive error.\<close>

lemma send_error:
  assumes "request_payload (prepare_request s) = Some bytes" "sum_list ns < length bytes"
  shows "\<exists>wire s'. async_run prepare_request request_payload process buffer s (map Sent ns @ [Send_Error ec]) recvs
    = Some (Some (wire, s', Some (Inl (Error_Code Generic_Category ec))))"
proof -
  have "\<exists>w. send_request bytes k (map Sent ns @ [Send_Error ec]) wire
      = (w, Some (Inl (Error_Code Generic_Category ec)))" if "k + sum_list ns < length bytes" for k wire ns
    using that
  proof (induction ns arbitrary: k wire)
    case Nil
    then show ?case by (subst send_request.simps) simp
  next
    case (Cons n ns)
    then show ?case by (subst send_request.simps) simp
  qed
  from this [of 0 ns "[]"] assms show ?thesis by (auto simp: async_run_def)
qed

end

section \<open>Properties\<close>

text \<open>
  C19. However the socket splits the sending: what goes out is a prefix of the prepared request, and
  nothing is read before all of it has gone out: otherwise the task is still sending, or ends with
  the error of a send.
\<close>

theorem request_on_the_wire:
  assumes "async_run prepare_request request_payload process buffer s sends recvs = Some (Some (wire, s', r))"
    and "request_payload (prepare_request s) = Some bytes"
  shows "(\<exists>n. wire = take n bytes)
    \<and> (wire = bytes
       \<or> s' = prepare_request s \<and> (r = None \<or> (\<exists>ec. r = Some (Inl (Error_Code Generic_Category ec)) \<and> Send_Error ec \<in> set sends)))"
proof -
  obtain w sent where snd: "send_request bytes 0 sends [] = (w, sent)"
    by (cases "send_request bytes 0 sends []")
  then obtain n where n: "w = take n bytes" "sent = Some (Inr ()) \<longrightarrow> length bytes \<le> n"
    using send_request_prefix [OF snd] by auto
  consider "sent = None" | e where "sent = Some (Inl e)" | "sent = Some (Inr ())"
    by (cases sent) (auto elim: sumE)
  then show ?thesis
  proof cases
    case 1
    then show ?thesis using assms snd n by (auto simp: async_run_def Let_def)
  next
    case (2 e)
    then show ?thesis
      using assms snd n send_request_error [of bytes 0 sends "[]" w e] by (auto simp: async_run_def Let_def)
  next
    case 3
    then have "w = bytes" using n by simp
    then have "wire = bytes" using assms snd 3 by (auto simp: async_run_def Let_def split: option.splits)
    then show ?thesis by (auto intro: exI [of _ "length bytes"])
  qed
qed

lemma request_on_the_wire_witness:
  "\<exists>n. fst (the (the (async_run (\<lambda>s. s) (\<lambda>s. Some [1, 2, 3]) (\<lambda>m h s. Some (s, None :: unit expected option))
      [] (0 :: nat) [Sent 2, Send_Error 105] []))) = take n [1, 2, 3 :: u8]"
proof -
  have run: "async_run (\<lambda>s. s) (\<lambda>s. Some [1, 2, 3]) (\<lambda>m h s. Some (s, None :: unit expected option))
      [] (0 :: nat) [Sent 2, Send_Error 105] []
    = Some (Some ([1, 2], 0, Some (Inl (Error_Code Generic_Category 105))))"
    by (simp add: async_run_def send_request.simps)
  show ?thesis
    unfolding run using conjunct1 [OF request_on_the_wire [OF run refl]] by simp
qed

end
