(* ===== verification/Link_Event.thy ===== *)
theory Link_Event
  imports Event_Parser Encoding
begin

text \<open>
  \<open>LinkEvent\<close> and its parser (\<open>include/rtaco/events/nl_link_event.hxx\<close>,
  \<open>src/events/nl_link_event.cxx\<close>).
\<close>

datatype link_event_type = LINK_UNKNOWN | NEW_LINK | DELETE_LINK

record link_event =
  link_type :: link_event_type
  link_index :: int
  link_flags :: u32
  link_change :: u32
  link_name :: string

definition link_event_init :: link_event where
  "link_event_init = \<lparr>link_type = LINK_UNKNOWN, link_index = 0, link_flags = 0, link_change = 0, link_name = []\<rparr>"

definition link_type_of :: "u16 \<Rightarrow> link_event_type" where
  "link_type_of ty =
     (if ty = RTM_NEWLINK then NEW_LINK
      else if ty = RTM_DELLINK then DELETE_LINK
      else LINK_UNKNOWN)"

definition link_from_nlmsghdr :: "mem \<Rightarrow> ptr \<Rightarrow> link_event ub" where
  "link_from_nlmsghdr m header = do {
     ty \<leftarrow> nlmsg_type m header;
     let event = link_event_init\<lparr>link_type := link_type_of ty\<rparr>;
     if link_type event = LINK_UNKNOWN then Some event
     else do {
       info \<leftarrow> get_msg_payload sizeof_ifinfomsg m header;
       case info of
         None \<Rightarrow> Some (event\<lparr>link_type := LINK_UNKNOWN\<rparr>)
       | Some p \<Rightarrow> do {
           ifi_index \<leftarrow> rd32 m (p + 4);
           ifi_flags \<leftarrow> rd32 m (p + 8);
           ifi_change \<leftarrow> rd32 m (p + 12);
           name \<leftarrow> extract_ifname m header;
           Some (event\<lparr>link_index := sint ifi_index, link_flags := ifi_flags,
             link_change := ifi_change, link_name := name\<rparr>) } } }"

section \<open>Laws\<close>

lemma link_type_of_simps [simp]:
  "link_type_of ty = NEW_LINK \<longleftrightarrow> ty = 16" "link_type_of ty = DELETE_LINK \<longleftrightarrow> ty = 17"
  "link_type_of ty = LINK_UNKNOWN \<longleftrightarrow> ty \<noteq> 16 \<and> ty \<noteq> 17"
  "NEW_LINK = link_type_of ty \<longleftrightarrow> ty = 16" "DELETE_LINK = link_type_of ty \<longleftrightarrow> ty = 17"
  "LINK_UNKNOWN = link_type_of ty \<longleftrightarrow> ty \<noteq> 16 \<and> ty \<noteq> 17"
  by (auto simp: link_type_of_def)

lemma link_frame:
  assumes "embeds b m d" "q = d + p"
  shows "ub_le (link_from_nlmsghdr b p) (link_from_nlmsghdr m q)"
  unfolding link_from_nlmsghdr_def Let_def
  by (rule get_msg_payload_bind_frame frame assms | assumption | simp only: option.case
      | simp add: assms(2))+

lemma link_unknown:
  assumes "link_from_nlmsghdr m h = Some ev" "nlmsg_type m h = Some ty"
  shows "link_type ev = LINK_UNKNOWN \<longleftrightarrow> (ty \<noteq> RTM_NEWLINK \<and> ty \<noteq> RTM_DELLINK)
    \<or> (\<exists>len. nlmsg_len m h = Some len \<and> unat len < NLMSG_LENGTH sizeof_ifinfomsg)"
  using assms unfolding link_from_nlmsghdr_def get_msg_payload_def
  by (auto simp: Let_def bind_eq_Some_conv link_event_init_def split: if_splits option.splits)

lemma link_new:
  assumes "link_from_nlmsghdr m h = Some ev" "nlmsg_type m h = Some ty"
  shows "link_type ev = NEW_LINK \<longleftrightarrow> ty = RTM_NEWLINK \<and> link_type ev \<noteq> LINK_UNKNOWN"
  using assms unfolding link_from_nlmsghdr_def get_msg_payload_def
  by (auto simp: Let_def bind_eq_Some_conv link_event_init_def split: if_splits option.splits)

interpretation link_parser: event_parser link_from_nlmsghdr "\<lambda>ev. link_type ev = LINK_UNKNOWN"
  "\<lambda>ev. link_type ev = NEW_LINK" RTM_NEWLINK RTM_DELLINK sizeof_ifinfomsg
proof unfold_locales
  show "ub_le (link_from_nlmsghdr b p) (link_from_nlmsghdr m q)"
    if "embeds b m d" "q = d + p" for b m d q p
    using that by (rule link_frame)
  show "\<exists>ev. link_from_nlmsghdr m h = Some ev"
    if "nlmsg_type m h = Some ty" "ty \<noteq> RTM_NEWLINK" "ty \<noteq> RTM_DELLINK" for m h ty
    using that by (simp add: link_from_nlmsghdr_def Let_def link_event_init_def)
  show "\<exists>ty. nlmsg_type m h = Some ty" if "link_from_nlmsghdr m h = Some ev" for m h ev
    using that by (auto simp: link_from_nlmsghdr_def bind_eq_Some_conv)
qed (rule link_unknown link_new; assumption | simp)+

section \<open>The parser on the kernel's messages\<close>

definition enc_ifinfomsg :: "u8 \<Rightarrow> u16 \<Rightarrow> u32 \<Rightarrow> u32 \<Rightarrow> u32 \<Rightarrow> u8 list" where
  "enc_ifinfomsg family type index flags change =
     [family, 0] @ le16 type @ le32 index @ le32 flags @ le32 change"

lemma length_enc_ifinfomsg [simp, size_simps]: "length (enc_ifinfomsg f t i fl c) = 16"
  by (simp add: enc_ifinfomsg_def)

text \<open>The attributes of a link message the parser can read: terminated interface names.\<close>

definition wf_link_attrs :: "attr list \<Rightarrow> bool" where
  "wf_link_attrs as \<longleftrightarrow> (\<forall>a \<in> set as. wf_attr a \<and> (is_ifname a \<longrightarrow> 0 \<in> set (snd a)))
     \<and> length (enc_attrs as) < 2 ^ 30"

lemma link_parse_enc:
  assumes "ty = RTM_NEWLINK \<or> ty = RTM_DELLINK" and "wf_link_attrs as"
  shows "link_from_nlmsghdr (enc_msg ty fl seq pid (enc_ifinfomsg family type index flags change @ enc_attrs as)) 0
    = Some \<lparr>link_type = link_type_of ty, link_index = sint index, link_flags = flags,
        link_change = change, link_name = first_ifname as\<rparr>"
proof -
  let ?info = "enc_ifinfomsg family type index flags change"
  let ?m = "enc_msg ty fl seq pid (?info @ enc_attrs as)"
  have "extract_ifname ?m 0 = Some (first_ifname as)"
    by (rule extract_ifname_enc [OF _ _ _ _ refl]) (use assms(2) in \<open>auto simp: wf_link_attrs_def\<close>)
  moreover have "get_msg_payload sizeof_ifinfomsg ?m 0 = Some (Some 16)"
    using assms(2) by (intro get_msg_payload_enc) (auto simp: wf_link_attrs_def)
  moreover have "rd32 ?m 20 = Some index" "rd32 ?m 24 = Some flags" "rd32 ?m 28 = Some change"
    unfolding enc_msg_def enc_ifinfomsg_def
    using rd32_le32 [of 20 "enc_nlmsghdr (of_nat (16 + length (?info @ enc_attrs as))) ty fl seq pid @ [family, 0] @ le16 type"]
      rd32_le32 [of 24 "enc_nlmsghdr (of_nat (16 + length (?info @ enc_attrs as))) ty fl seq pid @ [family, 0] @ le16 type @ le32 index"]
      rd32_le32 [of 28 "enc_nlmsghdr (of_nat (16 + length (?info @ enc_attrs as))) ty fl seq pid @ [family, 0] @ le16 type @ le32 index @ le32 flags"]
    by simp_all
  ultimately show ?thesis
    using assms(1) by (auto simp: link_from_nlmsghdr_def nlmsghdr_enc_msg Let_def link_event_init_def)
qed

section \<open>Properties\<close>

text \<open>
  C14. \<open>LinkEvent::from_nlmsghdr\<close>, applied to a link message of the kernel wherever it lies in the
  buffer, yields its type, index (signed), flags and change mask, and as the name the first
  non-empty \<open>IFLA_IFNAME\<close> attribute, whatever other attributes there are.
\<close>

theorem link_event_parsed:
  assumes "ty = RTM_NEWLINK \<or> ty = RTM_DELLINK" and "wf_link_attrs as"
    and "embeds (enc_msg ty fl seq pid (enc_ifinfomsg family type index flags change @ enc_attrs as)) m h"
  shows "link_from_nlmsghdr m h = Some \<lparr>link_type = link_type_of ty, link_index = sint index,
    link_flags = flags, link_change = change, link_name = first_ifname as\<rparr>"
  by (rule link_parser.parse_embedded [OF link_parse_enc [OF assms(1,2)] assms(3)])

lemma link_event_parsed_witness:
  "link_from_nlmsghdr ([1, 2, 3] @ enc_msg RTM_DELLINK 0 9 0 (enc_ifinfomsg 0 1 7 0x1043 0xFFFFFFFF
       @ enc_attrs [(4, [0, 0, 0, 1]), (IFLA_IFNAME, [108, 111, 0])]) @ [4]) 3
   = Some \<lparr>link_type = DELETE_LINK, link_index = 7, link_flags = 0x1043, link_change = 0xFFFFFFFF,
       link_name = ''lo''\<rparr>"
proof -
  have "embeds b ([1, 2, 3] @ b @ [4]) 3" for b by (rule embedsI [of _ "[1, 2, 3]" _ "[4]"]) simp_all
  from link_event_parsed [OF _ _ this, of RTM_DELLINK "[(4, [0, 0, 0, 1]), (IFLA_IFNAME, [108, 111, 0])]"]
  show ?thesis
    by (simp add: wf_link_attrs_def wf_attr_def is_ifname_def enc_attrs_def enc_attr_def pad4_def cstr_text_def
        chr_of_byte_def char_of_def bit_Suc_0_iff)
qed

end
