(* ===== verification/Address_Event.thy ===== *)
theory Address_Event
  imports Event_Parser Encoding
begin

text \<open>
  \<open>AddressEvent\<close> and its parser (\<open>include/rtaco/events/nl_address_event.hxx\<close>,
  \<open>src/events/nl_address_event.cxx\<close>).
\<close>

datatype address_event_type = ADDRESS_UNKNOWN | NEW_ADDRESS | DELETE_ADDRESS

record address_event =
  address_type :: address_event_type
  address_index :: int
  address_prefix_len :: u8
  address_scope :: u8
  address_flags :: u32
  address_family :: u8
  address_address :: string
  address_label :: string

definition address_event_init :: address_event where
  "address_event_init = \<lparr>address_type = ADDRESS_UNKNOWN, address_index = 0, address_prefix_len = 0,
     address_scope = 0, address_flags = 0, address_family = 0, address_address = [], address_label = []\<rparr>"

definition address_type_of :: "u16 \<Rightarrow> address_event_type" where
  "address_type_of ty =
     (if ty = RTM_NEWADDR then NEW_ADDRESS
      else if ty = RTM_DELADDR then DELETE_ADDRESS
      else ADDRESS_UNKNOWN)"

text \<open>The callback: its locals are the local address, the peer address and the label.\<close>

type_synonym address_locals = "string \<times> string \<times> string"

definition address_attr :: "inet_ntop \<Rightarrow> mem \<Rightarrow> u8 \<Rightarrow> ptr \<Rightarrow> address_locals \<Rightarrow> address_locals ub" where
  "address_attr ntop m family attr = (\<lambda>(local_address, peer_address, label). do {
     type \<leftarrow> rta_type m attr;
     if type = IFA_LOCAL then do {
       s \<leftarrow> attribute_address ntop m attr family;
       Some (s, peer_address, label) }
     else if type = IFA_ADDRESS then do {
       s \<leftarrow> attribute_address ntop m attr family;
       Some (local_address, s, label) }
     else if type = IFA_LABEL then do {
       s \<leftarrow> attribute_string m attr;
       Some (local_address, peer_address, s) }
     else Some (local_address, peer_address, label) })"

definition address_from_nlmsghdr :: "inet_ntop \<Rightarrow> mem \<Rightarrow> ptr \<Rightarrow> address_event ub" where
  "address_from_nlmsghdr ntop m header = do {
     ty \<leftarrow> nlmsg_type m header;
     let event = address_event_init\<lparr>address_type := address_type_of ty\<rparr>;
     if address_type event = ADDRESS_UNKNOWN then Some event
     else do {
       info \<leftarrow> get_msg_payload sizeof_ifaddrmsg m header;
       case info of
         None \<Rightarrow> Some (event\<lparr>address_type := ADDRESS_UNKNOWN\<rparr>)
       | Some p \<Rightarrow> do {
           ifa_family \<leftarrow> rd8 m p;
           ifa_prefixlen \<leftarrow> rd8 m (p + 1);
           ifa_scope \<leftarrow> rd8 m (p + 3);
           ifa_flags \<leftarrow> rd8 m (p + 2);
           ifa_index \<leftarrow> rd32 m (p + 4);
           (local_address, peer_address, label) \<leftarrow>
             for_each_attr sizeof_ifaddrmsg m header (Some p) (address_attr ntop m ifa_family) ([], [], []);
           Some (event\<lparr>address_family := ifa_family, address_prefix_len := ifa_prefixlen,
             address_scope := ifa_scope, address_flags := ucast ifa_flags,
             address_index := sint ifa_index,
             address_address := (if local_address \<noteq> [] then local_address else peer_address),
             address_label := label\<rparr>) } } }"

section \<open>Laws\<close>

lemma address_type_of_simps [simp]:
  "address_type_of ty = NEW_ADDRESS \<longleftrightarrow> ty = 20" "address_type_of ty = DELETE_ADDRESS \<longleftrightarrow> ty = 21"
  "address_type_of ty = ADDRESS_UNKNOWN \<longleftrightarrow> ty \<noteq> 20 \<and> ty \<noteq> 21"
  "NEW_ADDRESS = address_type_of ty \<longleftrightarrow> ty = 20" "DELETE_ADDRESS = address_type_of ty \<longleftrightarrow> ty = 21"
  "ADDRESS_UNKNOWN = address_type_of ty \<longleftrightarrow> ty \<noteq> 20 \<and> ty \<noteq> 21"
  by (auto simp: address_type_of_def)

lemma address_attr_frame:
  assumes "embeds b m d" "q = d + p"
  shows "ub_le (address_attr ntop b family p s) (address_attr ntop m family q s)"
  unfolding address_attr_def case_prod_beta
  by (rule frame assms | assumption | simp add: assms(2))+

lemma address_frame:
  assumes "embeds b m d" "q = d + p"
  shows "ub_le (address_from_nlmsghdr ntop b p) (address_from_nlmsghdr ntop m q)"
  unfolding address_from_nlmsghdr_def Let_def case_prod_beta
  by (rule get_msg_payload_bind_frame for_each_attr_frame frame address_attr_frame assms | assumption
      | simp only: option.case | simp add: assms(2))+

lemma address_unknown:
  assumes "address_from_nlmsghdr ntop m h = Some ev" "nlmsg_type m h = Some ty"
  shows "address_type ev = ADDRESS_UNKNOWN \<longleftrightarrow> (ty \<noteq> RTM_NEWADDR \<and> ty \<noteq> RTM_DELADDR)
    \<or> (\<exists>len. nlmsg_len m h = Some len \<and> unat len < NLMSG_LENGTH sizeof_ifaddrmsg)"
  using assms unfolding address_from_nlmsghdr_def get_msg_payload_def
  by (auto simp: Let_def bind_eq_Some_conv address_event_init_def split: if_splits option.splits)

lemma address_new:
  assumes "address_from_nlmsghdr ntop m h = Some ev" "nlmsg_type m h = Some ty"
  shows "address_type ev = NEW_ADDRESS \<longleftrightarrow> ty = RTM_NEWADDR \<and> address_type ev \<noteq> ADDRESS_UNKNOWN"
  using assms unfolding address_from_nlmsghdr_def get_msg_payload_def
  by (auto simp: Let_def bind_eq_Some_conv address_event_init_def split: if_splits option.splits)

interpretation address_parser: event_parser "address_from_nlmsghdr ntop"
  "\<lambda>ev. address_type ev = ADDRESS_UNKNOWN" "\<lambda>ev. address_type ev = NEW_ADDRESS"
  RTM_NEWADDR RTM_DELADDR sizeof_ifaddrmsg
proof unfold_locales
  show "ub_le (address_from_nlmsghdr ntop b p) (address_from_nlmsghdr ntop m q)"
    if "embeds b m d" "q = d + p" for b m d q p
    using that by (rule address_frame)
  show "\<exists>ev. address_from_nlmsghdr ntop m h = Some ev"
    if "nlmsg_type m h = Some ty" "ty \<noteq> RTM_NEWADDR" "ty \<noteq> RTM_DELADDR" for m h ty
    using that by (simp add: address_from_nlmsghdr_def Let_def address_event_init_def)
  show "\<exists>ty. nlmsg_type m h = Some ty" if "address_from_nlmsghdr ntop m h = Some ev" for m h ev
    using that by (auto simp: address_from_nlmsghdr_def bind_eq_Some_conv)
qed (rule address_unknown address_new; assumption | simp)+

section \<open>The parser on the kernel's messages\<close>

definition enc_ifaddrmsg :: "u8 \<Rightarrow> u8 \<Rightarrow> u8 \<Rightarrow> u8 \<Rightarrow> u32 \<Rightarrow> u8 list" where
  "enc_ifaddrmsg family prefixlen flags scope index = [family, prefixlen, flags, scope] @ le32 index"

lemma length_enc_ifaddrmsg [simp, size_simps]: "length (enc_ifaddrmsg f p fl sc i) = 8"
  by (simp add: enc_ifaddrmsg_def)

definition wf_address_attrs :: "u8 \<Rightarrow> attr list \<Rightarrow> bool" where
  "wf_address_attrs family as \<longleftrightarrow>
     (\<forall>a \<in> set as. wf_attr a
        \<and> (fst a = IFA_LOCAL \<or> fst a = IFA_ADDRESS \<longrightarrow> addr_fits family (snd a))
        \<and> (fst a = IFA_LABEL \<longrightarrow> snd a = [] \<or> 0 \<in> set (snd a)))
     \<and> length (enc_attrs as) < 2 ^ 30"

fun address_attr_value :: "inet_ntop \<Rightarrow> u8 \<Rightarrow> attr \<Rightarrow> address_locals \<Rightarrow> address_locals" where
  "address_attr_value ntop family a (l, p, b) =
     (if fst a = IFA_LOCAL then addr_text ntop family (snd a) else l,
      if fst a = IFA_ADDRESS then addr_text ntop family (snd a) else p,
      if fst a = IFA_LABEL then cstr_text (snd a) else b)"

lemma fold_address_attr_value:
  "fold (address_attr_value ntop family) as (l, p, b) =
     (last_value IFA_LOCAL (addr_text ntop family) l as,
      last_value IFA_ADDRESS (addr_text ntop family) p as,
      last_value IFA_LABEL cstr_text b as)"
  by (induction as arbitrary: l p b) auto

lemma address_attr_enc:
  assumes "wf_address_attrs family as" "a \<in> set as" "embeds (enc_attr a) m p"
  shows "address_attr ntop m family p s = Some (address_attr_value ntop family a s)"
  using assms
  by (cases s) (auto simp: address_attr_def wf_address_attrs_def rta_type_embedded
      attribute_address_enc attribute_string_enc)

lemma address_parse_enc:
  assumes "ty = RTM_NEWADDR \<or> ty = RTM_DELADDR" and "wf_address_attrs family as"
  shows "address_from_nlmsghdr ntop
      (enc_msg ty fl seq pid (enc_ifaddrmsg family prefixlen flags scope index @ enc_attrs as)) 0
    = Some \<lparr>address_type = address_type_of ty, address_index = sint index,
        address_prefix_len = prefixlen, address_scope = scope, address_flags = ucast flags,
        address_family = family,
        address_address =
          (if last_value IFA_LOCAL (addr_text ntop family) [] as \<noteq> []
           then last_value IFA_LOCAL (addr_text ntop family) [] as
           else last_value IFA_ADDRESS (addr_text ntop family) [] as),
        address_label = last_value IFA_LABEL cstr_text [] as\<rparr>"
proof -
  let ?info = "enc_ifaddrmsg family prefixlen flags scope index"
  let ?hdr = "enc_nlmsghdr (of_nat (16 + length (?info @ enc_attrs as))) ty fl seq pid"
  let ?m = "enc_msg ty fl seq pid (?info @ enc_attrs as)"
  have "for_each_attr sizeof_ifaddrmsg ?m 0 (Some 16) (address_attr ntop ?m family) ([], [], [])
      = Some (fold (address_attr_value ntop family) as ([], [], []))"
    by (rule for_each_attr_enc [where I = "\<lambda>_. True", OF _ _ _ _ refl])
      (use assms(2) in \<open>auto simp: wf_address_attrs_def intro: address_attr_enc [OF assms(2)]\<close>)
  moreover have "get_msg_payload sizeof_ifaddrmsg ?m 0 = Some (Some 16)"
    using assms(2) by (intro get_msg_payload_enc) (auto simp: wf_address_attrs_def)
  moreover have "rd8 ?m 16 = Some family" "rd8 ?m 17 = Some prefixlen" "rd8 ?m 18 = Some flags"
    "rd8 ?m 19 = Some scope" "rd32 ?m 20 = Some index"
    unfolding enc_msg_def enc_ifaddrmsg_def
    using rd32_le32 [of 20 "?hdr @ [family, prefixlen, flags, scope]"]
    by (simp_all add: enc_ifaddrmsg_def rd8_def nth_append)
  ultimately show ?thesis
    using assms(1)
    by (auto simp: address_from_nlmsghdr_def nlmsghdr_enc_msg Let_def address_event_init_def
        fold_address_attr_value)
qed

section \<open>Properties\<close>

text \<open>
  C15. \<open>AddressEvent::from_nlmsghdr\<close>, applied to an address message of the kernel wherever it lies
  in the buffer, yields the fields of its struct, the text of the last \<open>IFA_LOCAL\<close> or else of the
  last \<open>IFA_ADDRESS\<close>, and the last label.
\<close>

theorem address_event_parsed:
  assumes "ty = RTM_NEWADDR \<or> ty = RTM_DELADDR" and "wf_address_attrs family as"
    and "embeds (enc_msg ty fl seq pid (enc_ifaddrmsg family prefixlen flags scope index @ enc_attrs as)) m h"
  shows "address_from_nlmsghdr ntop m h
    = Some \<lparr>address_type = address_type_of ty, address_index = sint index,
        address_prefix_len = prefixlen, address_scope = scope, address_flags = ucast flags,
        address_family = family,
        address_address =
          (if last_value IFA_LOCAL (addr_text ntop family) [] as \<noteq> []
           then last_value IFA_LOCAL (addr_text ntop family) [] as
           else last_value IFA_ADDRESS (addr_text ntop family) [] as),
        address_label = last_value IFA_LABEL cstr_text [] as\<rparr>"
  by (rule address_parser.parse_embedded [OF address_parse_enc [OF assms(1,2)] assms(3)])

lemma address_event_parsed_witness:
  "address_from_nlmsghdr (\<lambda>family addr. if family = AF_INET \<and> addr = [127, 0, 0, 1] then Some ''127.0.0.1'' else None)
     ([1, 2, 3] @ enc_msg RTM_NEWADDR 0 9 0 (enc_ifaddrmsg AF_INET 8 0x80 254 1
       @ enc_attrs [(IFA_ADDRESS, [127, 0, 0, 1]), (IFA_LABEL, [108, 111, 0])]) @ [4]) 3
   = Some \<lparr>address_type = NEW_ADDRESS, address_index = 1, address_prefix_len = 8, address_scope = 254,
       address_flags = 0x80, address_family = AF_INET, address_address = ''127.0.0.1'', address_label = ''lo''\<rparr>"
proof -
  have "embeds b ([1, 2, 3] @ b @ [4]) 3" for b by (rule embedsI [of _ "[1, 2, 3]" _ "[4]"]) simp_all
  from address_event_parsed [OF _ _ this, of RTM_NEWADDR AF_INET "[(IFA_ADDRESS, [127, 0, 0, 1]), (IFA_LABEL, [108, 111, 0])]"]
  show ?thesis
    by (simp add: wf_address_attrs_def wf_attr_def enc_attrs_def enc_attr_def pad4_def cstr_text_def
        addr_fits_def addr_len_def addr_text_def trim_ntop_buffer chr_of_byte_def char_of_def bit_Suc_0_iff)
qed

end
