(* ===== verification/Route_Event.thy ===== *)
theory Route_Event
  imports Event_Parser Encoding
begin

text \<open>
  \<open>RouteEvent\<close> and its parser (\<open>include/rtaco/events/nl_route_event.hxx\<close>,
  \<open>src/events/nl_route_event.cxx\<close>).
\<close>

datatype route_event_type = ROUTE_UNKNOWN | NEW_ROUTE | DELETE_ROUTE

record route_event =
  route_type :: route_event_type
  route_family :: u8
  route_dst_prefix_len :: u8
  route_src_prefix_len :: u8
  route_scope :: u8
  route_protocol :: u8
  route_route_type :: u8
  route_flags :: u32
  route_table :: u32
  route_priority :: u32
  route_oif_index :: u32
  route_dst :: string
  route_src :: string
  route_gateway :: string
  route_prefsrc :: string
  route_oif :: string

definition route_event_init :: route_event where
  "route_event_init = \<lparr>route_type = ROUTE_UNKNOWN, route_family = 0, route_dst_prefix_len = 0,
     route_src_prefix_len = 0, route_scope = 0, route_protocol = 0, route_route_type = 0,
     route_flags = 0, route_table = 0, route_priority = 0, route_oif_index = 0, route_dst = [],
     route_src = [], route_gateway = [], route_prefsrc = [], route_oif = []\<rparr>"

definition route_type_of :: "u16 \<Rightarrow> route_event_type" where
  "route_type_of ty =
     (if ty = RTM_NEWROUTE then NEW_ROUTE
      else if ty = RTM_DELROUTE then DELETE_ROUTE
      else ROUTE_UNKNOWN)"

definition route_attr :: "inet_ntop \<Rightarrow> mem \<Rightarrow> ptr \<Rightarrow> route_event \<Rightarrow> route_event ub" where
  "route_attr ntop m attr event = do {
     type \<leftarrow> rta_type m attr;
     if type = RTA_TABLE then do {
       v \<leftarrow> attribute_uint32 m attr; Some (event\<lparr>route_table := v\<rparr>) }
     else if type = RTA_DST then do {
       s \<leftarrow> attribute_address ntop m attr (route_family event); Some (event\<lparr>route_dst := s\<rparr>) }
     else if type = RTA_SRC then do {
       s \<leftarrow> attribute_address ntop m attr (route_family event); Some (event\<lparr>route_src := s\<rparr>) }
     else if type = RTA_GATEWAY then do {
       s \<leftarrow> attribute_address ntop m attr (route_family event); Some (event\<lparr>route_gateway := s\<rparr>) }
     else if type = RTA_PREFSRC then do {
       s \<leftarrow> attribute_address ntop m attr (route_family event); Some (event\<lparr>route_prefsrc := s\<rparr>) }
     else if type = RTA_OIF then do {
       v \<leftarrow> attribute_uint32 m attr; Some (event\<lparr>route_oif_index := v\<rparr>) }
     else if type = RTA_PRIORITY then do {
       v \<leftarrow> attribute_uint32 m attr; Some (event\<lparr>route_priority := v\<rparr>) }
     else Some event }"

definition route_from_nlmsghdr :: "inet_ntop \<Rightarrow> mem \<Rightarrow> ptr \<Rightarrow> route_event ub" where
  "route_from_nlmsghdr ntop m header = do {
     ty \<leftarrow> nlmsg_type m header;
     let event = route_event_init\<lparr>route_type := route_type_of ty\<rparr>;
     if route_type event = ROUTE_UNKNOWN then Some event
     else do {
       info \<leftarrow> get_msg_payload sizeof_rtmsg m header;
       case info of
         None \<Rightarrow> Some (event\<lparr>route_type := ROUTE_UNKNOWN\<rparr>)
       | Some p \<Rightarrow> do {
           rtm_family \<leftarrow> rd8 m p;
           rtm_dst_len \<leftarrow> rd8 m (p + 1);
           rtm_src_len \<leftarrow> rd8 m (p + 2);
           rtm_scope \<leftarrow> rd8 m (p + 6);
           rtm_protocol \<leftarrow> rd8 m (p + 5);
           rtm_type \<leftarrow> rd8 m (p + 7);
           rtm_flags \<leftarrow> rd32 m (p + 8);
           rtm_table \<leftarrow> rd8 m (p + 4);
           event \<leftarrow> for_each_attr sizeof_rtmsg m header (Some p) (route_attr ntop m)
             (event\<lparr>route_family := rtm_family, route_dst_prefix_len := rtm_dst_len,
               route_src_prefix_len := rtm_src_len, route_scope := rtm_scope,
               route_protocol := rtm_protocol, route_route_type := rtm_type,
               route_flags := rtm_flags, route_table := ucast rtm_table\<rparr>);
           Some (if route_oif_index event \<noteq> 0
                 then event\<lparr>route_oif := dec_string (unat (route_oif_index event))\<rparr>
                 else event) } } }"

section \<open>Laws\<close>

lemma route_type_of_simps [simp]:
  "route_type_of ty = NEW_ROUTE \<longleftrightarrow> ty = 24" "route_type_of ty = DELETE_ROUTE \<longleftrightarrow> ty = 25"
  "route_type_of ty = ROUTE_UNKNOWN \<longleftrightarrow> ty \<noteq> 24 \<and> ty \<noteq> 25"
  "NEW_ROUTE = route_type_of ty \<longleftrightarrow> ty = 24" "DELETE_ROUTE = route_type_of ty \<longleftrightarrow> ty = 25"
  "ROUTE_UNKNOWN = route_type_of ty \<longleftrightarrow> ty \<noteq> 24 \<and> ty \<noteq> 25"
  by (auto simp: route_type_of_def)

lemma route_attr_frame:
  assumes "embeds b m d" "q = d + p"
  shows "ub_le (route_attr ntop b p s) (route_attr ntop m q s)"
  unfolding route_attr_def
  by (rule frame assms | assumption | simp add: assms(2))+

lemma route_frame:
  assumes "embeds b m d" "q = d + p"
  shows "ub_le (route_from_nlmsghdr ntop b p) (route_from_nlmsghdr ntop m q)"
  unfolding route_from_nlmsghdr_def Let_def
  by (rule get_msg_payload_bind_frame for_each_attr_frame frame route_attr_frame assms | assumption
      | simp only: option.case | simp add: assms(2))+

lemma route_loop_type:
  assumes "for_each_attr sz m h info (route_attr ntop m') s = Some s'"
  shows "route_type s' = route_type s"
  by (rule for_each_attr_preserves [OF assms])
    (auto simp: route_attr_def bind_eq_Some_conv split: if_splits)

lemma route_parse_type:
  assumes "route_from_nlmsghdr ntop m h = Some ev" "nlmsg_type m h = Some ty"
    and "ty = RTM_NEWROUTE \<or> ty = RTM_DELROUTE"
  shows "\<exists>len. nlmsg_len m h = Some len
    \<and> route_type ev = (if unat len < NLMSG_LENGTH sizeof_rtmsg then ROUTE_UNKNOWN else route_type_of ty)"
proof -
  have known: "route_type (route_event_init\<lparr>route_type := route_type_of ty\<rparr>) \<noteq> ROUTE_UNKNOWN"
    using assms(3) by auto
  note unfolded = assms(1) [unfolded route_from_nlmsghdr_def Let_def assms(2) Option.bind.simps,
      simplified known if_False]
  obtain info where info: "get_msg_payload sizeof_rtmsg m h = Some info"
    using unfolded by (rule bind_SomeE)
  then obtain len where len: "nlmsg_len m h = Some len"
    and i: "info = (if unat len < NLMSG_LENGTH sizeof_rtmsg then None else Some (NLMSG_DATA h))"
    by (auto simp: get_msg_payload_def bind_eq_Some_conv)
  show ?thesis
  proof (cases "unat len < NLMSG_LENGTH sizeof_rtmsg")
    case True
    then show ?thesis using unfolded len i info by auto
  next
    case False
    then have p: "get_msg_payload sizeof_rtmsg m h = Some (Some (NLMSG_DATA h))"
      using i info by simp
    have "route_type ev = route_type_of ty"
      using unfolded unfolding p Option.bind.simps option.case
      by (elim bind_SomeE) (auto dest!: route_loop_type)
    with False len show ?thesis by simp
  qed
qed

lemma route_parse_other:
  assumes "nlmsg_type m h = Some ty" "\<not> (ty = RTM_NEWROUTE \<or> ty = RTM_DELROUTE)"
  shows "\<exists>ev. route_from_nlmsghdr ntop m h = Some ev \<and> route_type ev = ROUTE_UNKNOWN"
  using assms by (simp add: route_from_nlmsghdr_def)

lemma route_unknown:
  assumes "route_from_nlmsghdr ntop m h = Some ev" "nlmsg_type m h = Some ty"
  shows "route_type ev = ROUTE_UNKNOWN \<longleftrightarrow> (ty \<noteq> RTM_NEWROUTE \<and> ty \<noteq> RTM_DELROUTE)
    \<or> (\<exists>len. nlmsg_len m h = Some len \<and> unat len < NLMSG_LENGTH sizeof_rtmsg)"
  using route_parse_type [OF assms] route_parse_other [OF assms(2), of ntop] assms(1)
  by (cases "ty = RTM_NEWROUTE \<or> ty = RTM_DELROUTE") auto

lemma route_new:
  assumes "route_from_nlmsghdr ntop m h = Some ev" "nlmsg_type m h = Some ty"
  shows "route_type ev = NEW_ROUTE \<longleftrightarrow> ty = RTM_NEWROUTE \<and> route_type ev \<noteq> ROUTE_UNKNOWN"
  using route_parse_type [OF assms] route_parse_other [OF assms(2), of ntop] assms(1)
  by (cases "ty = RTM_NEWROUTE \<or> ty = RTM_DELROUTE") (auto split: if_splits)

interpretation route_parser: event_parser "route_from_nlmsghdr ntop"
  "\<lambda>ev. route_type ev = ROUTE_UNKNOWN" "\<lambda>ev. route_type ev = NEW_ROUTE"
  RTM_NEWROUTE RTM_DELROUTE sizeof_rtmsg
proof unfold_locales
  show "ub_le (route_from_nlmsghdr ntop b p) (route_from_nlmsghdr ntop m q)"
    if "embeds b m d" "q = d + p" for b m d q p
    using that by (rule route_frame)
  show "\<exists>ev. route_from_nlmsghdr ntop m h = Some ev"
    if "nlmsg_type m h = Some ty" "ty \<noteq> RTM_NEWROUTE" "ty \<noteq> RTM_DELROUTE" for m h ty
    using that by (simp add: route_from_nlmsghdr_def Let_def route_event_init_def)
  show "\<exists>ty. nlmsg_type m h = Some ty" if "route_from_nlmsghdr ntop m h = Some ev" for m h ev
    using that by (auto simp: route_from_nlmsghdr_def bind_eq_Some_conv)
qed (rule route_unknown route_new; assumption | simp)+

section \<open>The parser on the kernel's messages\<close>

definition enc_rtmsg :: "u8 \<Rightarrow> u8 \<Rightarrow> u8 \<Rightarrow> u8 \<Rightarrow> u8 \<Rightarrow> u8 \<Rightarrow> u8 \<Rightarrow> u8 \<Rightarrow> u32 \<Rightarrow> u8 list" where
  "enc_rtmsg family dst_len src_len tos table protocol scope type flags =
     [family, dst_len, src_len, tos, table, protocol, scope, type] @ le32 flags"

lemma length_enc_rtmsg [simp, size_simps]: "length (enc_rtmsg f d s t tb pr sc ty fl) = 12"
  by (simp add: enc_rtmsg_def)

definition is_route_addr :: "u16 \<Rightarrow> bool" where
  "is_route_addr ty \<longleftrightarrow> ty = RTA_DST \<or> ty = RTA_SRC \<or> ty = RTA_GATEWAY \<or> ty = RTA_PREFSRC"

definition wf_route_attrs :: "u8 \<Rightarrow> attr list \<Rightarrow> bool" where
  "wf_route_attrs family as \<longleftrightarrow>
     (\<forall>a \<in> set as. wf_attr a \<and> (is_route_addr (fst a) \<longrightarrow> addr_fits family (snd a)))
     \<and> length (enc_attrs as) < 2 ^ 30"

definition route_attr_value :: "inet_ntop \<Rightarrow> u8 \<Rightarrow> attr \<Rightarrow> route_event \<Rightarrow> route_event" where
  "route_attr_value ntop family a event = event
     \<lparr>route_table := (if fst a = RTA_TABLE then payload_u32 (snd a) else route_table event),
      route_dst := (if fst a = RTA_DST then addr_text ntop family (snd a) else route_dst event),
      route_src := (if fst a = RTA_SRC then addr_text ntop family (snd a) else route_src event),
      route_gateway := (if fst a = RTA_GATEWAY then addr_text ntop family (snd a) else route_gateway event),
      route_prefsrc := (if fst a = RTA_PREFSRC then addr_text ntop family (snd a) else route_prefsrc event),
      route_oif_index := (if fst a = RTA_OIF then payload_u32 (snd a) else route_oif_index event),
      route_priority := (if fst a = RTA_PRIORITY then payload_u32 (snd a) else route_priority event)\<rparr>"

lemma fold_route_attr_value:
  "fold (route_attr_value ntop family) as event = event
     \<lparr>route_table := last_value RTA_TABLE payload_u32 (route_table event) as,
      route_dst := last_value RTA_DST (addr_text ntop family) (route_dst event) as,
      route_src := last_value RTA_SRC (addr_text ntop family) (route_src event) as,
      route_gateway := last_value RTA_GATEWAY (addr_text ntop family) (route_gateway event) as,
      route_prefsrc := last_value RTA_PREFSRC (addr_text ntop family) (route_prefsrc event) as,
      route_oif_index := last_value RTA_OIF payload_u32 (route_oif_index event) as,
      route_priority := last_value RTA_PRIORITY payload_u32 (route_priority event) as\<rparr>"
  by (induction as arbitrary: event) (simp_all add: route_attr_value_def)

lemma route_attr_enc:
  assumes "wf_route_attrs family as" "a \<in> set as" "embeds (enc_attr a) m p"
    and "route_family s = family"
  shows "route_attr ntop m p s = Some (route_attr_value ntop family a s)
    \<and> route_family (route_attr_value ntop family a s) = family"
  using assms
  by (auto simp: route_attr_def route_attr_value_def wf_route_attrs_def is_route_addr_def
      rta_type_embedded attribute_address_enc attribute_uint32_enc)

lemma route_parse_enc:
  assumes "ty = RTM_NEWROUTE \<or> ty = RTM_DELROUTE" and "wf_route_attrs family as"
  shows "route_from_nlmsghdr ntop
      (enc_msg ty fl seq pid
        (enc_rtmsg family dst_len src_len tos table protocol scope type flags @ enc_attrs as)) 0
    = Some \<lparr>route_type = route_type_of ty, route_family = family, route_dst_prefix_len = dst_len,
        route_src_prefix_len = src_len, route_scope = scope, route_protocol = protocol,
        route_route_type = type, route_flags = flags,
        route_table = last_value RTA_TABLE payload_u32 (ucast table) as,
        route_priority = last_value RTA_PRIORITY payload_u32 0 as,
        route_oif_index = last_value RTA_OIF payload_u32 0 as,
        route_dst = last_value RTA_DST (addr_text ntop family) [] as,
        route_src = last_value RTA_SRC (addr_text ntop family) [] as,
        route_gateway = last_value RTA_GATEWAY (addr_text ntop family) [] as,
        route_prefsrc = last_value RTA_PREFSRC (addr_text ntop family) [] as,
        route_oif = (if last_value RTA_OIF payload_u32 0 as \<noteq> 0
          then dec_string (unat (last_value RTA_OIF payload_u32 0 as)) else [])\<rparr>"
proof -
  let ?info = "enc_rtmsg family dst_len src_len tos table protocol scope type flags"
  let ?hdr = "enc_nlmsghdr (of_nat (16 + length (?info @ enc_attrs as))) ty fl seq pid"
  let ?m = "enc_msg ty fl seq pid (?info @ enc_attrs as)"
  let ?ev = "route_event_init\<lparr>route_type := route_type_of ty, route_family := family,
      route_dst_prefix_len := dst_len, route_src_prefix_len := src_len, route_scope := scope,
      route_protocol := protocol, route_route_type := type, route_flags := flags,
      route_table := ucast table\<rparr>"
  have "for_each_attr sizeof_rtmsg ?m 0 (Some 16) (route_attr ntop ?m) ?ev
      = Some (fold (route_attr_value ntop family) as ?ev)"
    by (rule for_each_attr_enc [where I = "\<lambda>s. route_family s = family", OF _ _ _ _ refl])
      (use assms(2) in \<open>simp_all add: wf_route_attrs_def route_attr_enc [OF assms(2)]\<close>)
  moreover have "get_msg_payload sizeof_rtmsg ?m 0 = Some (Some 16)"
    using assms(2) by (intro get_msg_payload_enc) (auto simp: wf_route_attrs_def)
  moreover have "rd8 ?m 16 = Some family" "rd8 ?m 17 = Some dst_len" "rd8 ?m 18 = Some src_len"
    "rd8 ?m 20 = Some table" "rd8 ?m 21 = Some protocol" "rd8 ?m 22 = Some scope"
    "rd8 ?m 23 = Some type" "rd32 ?m 24 = Some flags"
    unfolding enc_msg_def enc_rtmsg_def
    using rd32_le32 [of 24 "?hdr @ [family, dst_len, src_len, tos, table, protocol, scope, type]" flags]
    by (simp_all add: enc_rtmsg_def rd8_def nth_append)
  moreover have "route_type (route_event_init\<lparr>route_type := route_type_of ty\<rparr>) \<noteq> ROUTE_UNKNOWN"
    using assms(1) by auto
  ultimately have "route_from_nlmsghdr ntop ?m 0
      = (let event = fold (route_attr_value ntop family) as ?ev
         in Some (if route_oif_index event \<noteq> 0
                  then event\<lparr>route_oif := dec_string (unat (route_oif_index event))\<rparr>
                  else event))"
    unfolding route_from_nlmsghdr_def Let_def
    by (simp only: nlmsghdr_enc_msg Option.bind.simps if_False option.case numeral_plus_one arith_simps)
  then show ?thesis
    unfolding fold_route_attr_value by (simp add: Let_def route_event_init_def)
qed

section \<open>Properties\<close>

text \<open>
  C17. \<open>RouteEvent::from_nlmsghdr\<close>, applied to a route message of the kernel wherever it lies in
  the buffer, yields the fields of its struct, the table of \<open>RTA_TABLE\<close> where there is one and
  of the struct otherwise, the last attribute of each other kind, and the decimal text of the
  output interface when there is one.
\<close>

theorem route_event_parsed:
  assumes "ty = RTM_NEWROUTE \<or> ty = RTM_DELROUTE" and "wf_route_attrs family as"
    and "embeds (enc_msg ty fl seq pid
        (enc_rtmsg family dst_len src_len tos table protocol scope type flags @ enc_attrs as)) m h"
  shows "route_from_nlmsghdr ntop m h
    = Some \<lparr>route_type = route_type_of ty, route_family = family, route_dst_prefix_len = dst_len,
        route_src_prefix_len = src_len, route_scope = scope, route_protocol = protocol,
        route_route_type = type, route_flags = flags,
        route_table = last_value RTA_TABLE payload_u32 (ucast table) as,
        route_priority = last_value RTA_PRIORITY payload_u32 0 as,
        route_oif_index = last_value RTA_OIF payload_u32 0 as,
        route_dst = last_value RTA_DST (addr_text ntop family) [] as,
        route_src = last_value RTA_SRC (addr_text ntop family) [] as,
        route_gateway = last_value RTA_GATEWAY (addr_text ntop family) [] as,
        route_prefsrc = last_value RTA_PREFSRC (addr_text ntop family) [] as,
        route_oif = (if last_value RTA_OIF payload_u32 0 as \<noteq> 0
          then dec_string (unat (last_value RTA_OIF payload_u32 0 as)) else [])\<rparr>"
  by (rule route_parser.parse_embedded [OF route_parse_enc [OF assms(1,2)] assms(3)])

lemma route_event_parsed_witness:
  "route_from_nlmsghdr (\<lambda>_ _. Some ''10.0.0.1'') ([1, 2, 3] @ enc_msg RTM_NEWROUTE 0 9 0
       (enc_rtmsg AF_INET 0 0 0 254 3 0 1 0 @ enc_attrs [(RTA_GATEWAY, [10, 0, 0, 1]), (RTA_TABLE, le32 1000)]) @ [4]) 3
   = Some \<lparr>route_type = NEW_ROUTE, route_family = AF_INET, route_dst_prefix_len = 0,
       route_src_prefix_len = 0, route_scope = 0, route_protocol = 3, route_route_type = 1, route_flags = 0,
       route_table = 1000, route_priority = 0, route_oif_index = 0, route_dst = [], route_src = [],
       route_gateway = ''10.0.0.1'', route_prefsrc = [], route_oif = []\<rparr>"
proof -
  have u: "payload_u32 (le32 v) = v" for v using payload_u32_le32 [of v "[]"] by simp
  have "embeds b ([1, 2, 3] @ b @ [4]) 3" for b by (rule embedsI [of _ "[1, 2, 3]" _ "[4]"]) simp_all
  from route_event_parsed [OF _ _ this, of RTM_NEWROUTE AF_INET "[(RTA_GATEWAY, [10, 0, 0, 1]), (RTA_TABLE, le32 1000)]"]
  show ?thesis
    by (simp add: wf_route_attrs_def is_route_addr_def wf_attr_def enc_attrs_def enc_attr_def pad4_def
        addr_fits_def addr_len_def addr_text_def trim_ntop_buffer u)
qed

end
