(* ===== verification/Nl_Listener.thy ===== *)
theory Nl_Listener
  imports Nl_Signal Nl_Socket Request_Task Link_Event Address_Event Route_Event Neighbor_Event
begin

text \<open>
  \<open>Listener\<close> (\<open>include/rtaco/core/nl_listener.hxx\<close>, \<open>src/core/nl_listener.cxx\<close>): the
  dispatch of the messages of a datagram to the signals, and the state machine of starting,
  reading and stopping.

  The slots act on a state \<open>'w\<close> of the application, beside the queue of the executor; they do not
  call back into the listener (Reentrant_Listener is about those that do). An exception of a
  synchronous slot leaves the handlers. What the listener prints to the standard error stream is
  not modelled.
\<close>

section \<open>Signals and handlers\<close>

record nlmsgerr =
  err_error :: int
  err_msg :: nlmsghdr

record 'w listener_signals =
  on_link_event :: "(link_event, unit, 'w) signal"
  on_address_event :: "(address_event, unit, 'w) signal"
  on_route_event :: "(route_event, unit, 'w) signal"
  on_neighbor_event :: "(neighbor_event, unit, 'w) signal"
  on_nlmsgerr_event :: "(nlmsgerr \<times> nlmsghdr, unit, 'w) signal"

type_synonym 'w app = "'w \<times> 'w job list"

text \<open>What an emission comes back with: nothing, or the exception it left with.\<close>

definition emission :: "'w app \<times> unit list emitted \<Rightarrow> 'w app \<times> nat option" where
  "emission r = (case r of (st, Threw e) \<Rightarrow> (st, Some e) | (st, _) \<Rightarrow> (st, None))"

definition has_payload :: "mem \<Rightarrow> ptr \<Rightarrow> nat \<Rightarrow> bool ub" where
  "has_payload m header min_len = do {
     len \<leftarrow> nlmsg_len m header;
     Some (if unat len < NLMSG_LENGTH min_len then False
           else unat (NLMSG_PAYLOAD len) \<ge> min_len) }"

definition rd_nlmsgerr :: "mem \<Rightarrow> ptr \<Rightarrow> nlmsgerr ub" where
  "rd_nlmsgerr m p = do {
     e \<leftarrow> rd32 m p;
     h \<leftarrow> rd_nlmsghdr m (p + 4);
     Some \<lparr>err_error = sint e, err_msg = h\<rparr> }"

definition handle_error_message :: "'w listener_signals \<Rightarrow> mem \<Rightarrow> ptr \<Rightarrow> 'w app \<Rightarrow> ('w app \<times> nat option) ub" where
  "handle_error_message sigs m header st = do {
     err \<leftarrow> rd_nlmsgerr m (NLMSG_DATA header);
     hdr \<leftarrow> rd_nlmsghdr m header;
     Some (emission (emit_void (on_nlmsgerr_event sigs) (err, hdr) st)) }"

definition handle_link_message :: "'w listener_signals \<Rightarrow> mem \<Rightarrow> ptr \<Rightarrow> 'w app \<Rightarrow> ('w app \<times> nat option) ub" where
  "handle_link_message sigs m header st = do {
     event \<leftarrow> link_from_nlmsghdr m header;
     Some (if link_type event = LINK_UNKNOWN then (st, None)
           else emission (emit_void (on_link_event sigs) event st)) }"

definition handle_address_message ::
  "inet_ntop \<Rightarrow> 'w listener_signals \<Rightarrow> mem \<Rightarrow> ptr \<Rightarrow> 'w app \<Rightarrow> ('w app \<times> nat option) ub" where
  "handle_address_message ntop sigs m header st = do {
     event \<leftarrow> address_from_nlmsghdr ntop m header;
     Some (if address_type event = ADDRESS_UNKNOWN then (st, None)
           else emission (emit_void (on_address_event sigs) event st)) }"

definition handle_route_message ::
  "inet_ntop \<Rightarrow> 'w listener_signals \<Rightarrow> mem \<Rightarrow> ptr \<Rightarrow> 'w app \<Rightarrow> ('w app \<times> nat option) ub" where
  "handle_route_message ntop sigs m header st = do {
     event \<leftarrow> route_from_nlmsghdr ntop m header;
     Some (if route_type event = ROUTE_UNKNOWN then (st, None)
           else emission (emit_void (on_route_event sigs) event st)) }"

definition handle_neighbor_message ::
  "inet_ntop \<Rightarrow> 'w listener_signals \<Rightarrow> mem \<Rightarrow> ptr \<Rightarrow> 'w app \<Rightarrow> ('w app \<times> nat option) ub" where
  "handle_neighbor_message ntop sigs m header st = do {
     event \<leftarrow> neighbor_from_nlmsghdr ntop m header;
     Some (if neighbor_type event = NEIGHBOR_UNKNOWN then (st, None)
           else emission (emit_void (on_neighbor_event sigs) event st)) }"

datatype handler = Handle_Link | Handle_Address | Handle_Route | Handle_Neighbor | Handle_Error

definition handlers :: "(u16 \<times> nat \<times> handler) list" where
  "handlers =
    [(RTM_NEWLINK, sizeof_ifinfomsg, Handle_Link), (RTM_DELLINK, sizeof_ifinfomsg, Handle_Link),
     (RTM_NEWADDR, sizeof_ifaddrmsg, Handle_Address), (RTM_DELADDR, sizeof_ifaddrmsg, Handle_Address),
     (RTM_NEWROUTE, sizeof_rtmsg, Handle_Route), (RTM_DELROUTE, sizeof_rtmsg, Handle_Route),
     (RTM_NEWNEIGH, sizeof_ndmsg, Handle_Neighbor), (RTM_DELNEIGH, sizeof_ndmsg, Handle_Neighbor),
     (NLMSG_ERROR, sizeof_nlmsgerr, Handle_Error)]"

fun run_handler ::
  "inet_ntop \<Rightarrow> 'w listener_signals \<Rightarrow> handler \<Rightarrow> mem \<Rightarrow> ptr \<Rightarrow> 'w app \<Rightarrow> ('w app \<times> nat option) ub" where
  "run_handler ntop sigs Handle_Link = handle_link_message sigs"
| "run_handler ntop sigs Handle_Address = handle_address_message ntop sigs"
| "run_handler ntop sigs Handle_Route = handle_route_message ntop sigs"
| "run_handler ntop sigs Handle_Neighbor = handle_neighbor_message ntop sigs"
| "run_handler ntop sigs Handle_Error = handle_error_message sigs"

definition handle_message ::
  "inet_ntop \<Rightarrow> 'w listener_signals \<Rightarrow> mem \<Rightarrow> ptr \<Rightarrow> 'w app \<Rightarrow> ('w app \<times> nat option) ub" where
  "handle_message ntop sigs m header st = do {
     ty \<leftarrow> nlmsg_type m header;
     case map_of handlers ty of
       None \<Rightarrow> Some (st, None)
     | Some (min_len, handler) \<Rightarrow> do {
         ok \<leftarrow> (if min_len > 0 then has_payload m header min_len else Some True);
         if \<not> ok then Some (st, None)
         else run_handler ntop sigs handler m header st } }"

section \<open>Reading\<close>

text \<open>
  An outstanding \<open>async_receive\<close> is waiting for data, or has completed with an error or a
  number of bytes and waits for the executor to call its handler. The handlers are called in the
  order of completion. Closing the socket completes what waits with \<open>operation_aborted\<close>.
\<close>

definition operation_aborted :: error_code where
  "operation_aborted = Error_Code System_Category 125"

record 'w listener =
  l_guard :: socket_guard
  l_signals :: "'w listener_signals"
  l_buffer :: mem
  l_sequence :: u32
  l_running :: bool
  l_waiting :: nat
  l_ready :: "(error_code option \<times> nat) list"
  l_app :: "'w app"

definition BUFFER_SIZE :: nat where
  "BUFFER_SIZE = 32 * 1024"

definition listener_init :: "'w \<Rightarrow> 'w listener" where
  "listener_init w =
     \<lparr>l_guard = socket_guard_init ''nl-listener'',
      l_signals = \<lparr>on_link_event = signal_init, on_address_event = signal_init,
        on_route_event = signal_init, on_neighbor_event = signal_init, on_nlmsgerr_event = signal_init\<rparr>,
      l_buffer = replicate BUFFER_SIZE 0, l_sequence = 1, l_running = False, l_waiting = 0, l_ready = [],
      l_app = (w, [])\<rparr>"

definition listener_running :: "'w listener \<Rightarrow> bool" where
  "listener_running l = l_running l"

definition request_read :: "'w listener \<Rightarrow> 'w listener" where
  "request_read l =
     (if \<not> l_running l then l
      else if is_open (guard_socket (l_guard l)) then l\<lparr>l_waiting := l_waiting l + 1\<rparr>
      else l\<lparr>l_ready := l_ready l @ [(Some bad_descriptor, 0)]\<rparr>)"

definition open_socket :: "os \<Rightarrow> 'w listener \<Rightarrow> 'w listener \<times> unit expected outcome" where
  "open_socket os l = (case ensure_open os (l_guard l) of (g, rc) \<Rightarrow> (l\<lparr>l_guard := g\<rparr>, rc))"

definition listener_start :: "os \<Rightarrow> 'w listener \<Rightarrow> 'w listener \<times> unit outcome" where
  "listener_start os l =
     (if l_running l then (l, Return ())
      else case open_socket os l of
        (l, Throw text ec) \<Rightarrow> (l, Throw text ec)
      | (l, Return (Inl ec)) \<Rightarrow> (l, Return ())
      | (l, Return (Inr _)) \<Rightarrow> (request_read (l\<lparr>l_running := True\<rparr>), Return ()))"

definition listener_stop :: "os \<Rightarrow> 'w listener \<Rightarrow> 'w listener" where
  "listener_stop os l =
     (if \<not> l_running l then l
      else l\<lparr>l_running := False, l_guard := guard_stop os (l_guard l),
             l_ready := l_ready l @ replicate (l_waiting l) (Some operation_aborted, 0),
             l_waiting := 0\<rparr>)"

definition listener_destroy :: "os \<Rightarrow> 'w listener \<Rightarrow> 'w listener" where
  "listener_destroy os l =
     (let l = listener_stop os l
      in l\<lparr>l_guard := (l_guard l)\<lparr>guard_socket := socket_destroy os (guard_socket (l_guard l))\<rparr>\<rparr>)"

definition process_messages :: "inet_ntop \<Rightarrow> nat \<Rightarrow> 'w listener \<Rightarrow> ('w listener \<times> nat option) ub option" where
  "process_messages ntop bytes l =
     (case nlmsg_loop (handle_message ntop (l_signals l) (l_buffer l)) (l_buffer l) 0 (of_nat bytes) (l_app l) of
        None \<Rightarrow> None
      | Some None \<Rightarrow> Some None
      | Some (Some (app, Some e, remaining)) \<Rightarrow> Some (Some (l\<lparr>l_app := app\<rparr>, Some e))
      | Some (Some (app, None, remaining)) \<Rightarrow> Some (Some (request_read (l\<lparr>l_app := app\<rparr>), None)))"

definition handle_read ::
  "inet_ntop \<Rightarrow> error_code option \<Rightarrow> nat \<Rightarrow> 'w listener \<Rightarrow> ('w listener \<times> nat option) ub option" where
  "handle_read ntop ec bytes l =
     (if \<not> l_running l then Some (Some (l, None))
      else if ec = Some operation_aborted then Some (Some (l, None))
      else if ec \<noteq> None then Some (Some (request_read l, None))
      else process_messages ntop bytes l)"

section \<open>Connecting slots\<close>

definition connect_to_link_event ::
  "(link_event, unit, 'w) slot \<Rightarrow> exec_policy \<Rightarrow> 'w listener \<Rightarrow> 'w listener \<times> nat" where
  "connect_to_link_event slot policy l =
     (let (sig, connection) = connect slot policy (on_link_event (l_signals l))
      in (l\<lparr>l_signals := (l_signals l)\<lparr>on_link_event := sig\<rparr>\<rparr>, connection))"

definition connect_to_address_event ::
  "(address_event, unit, 'w) slot \<Rightarrow> exec_policy \<Rightarrow> 'w listener \<Rightarrow> 'w listener \<times> nat" where
  "connect_to_address_event slot policy l =
     (let (sig, connection) = connect slot policy (on_address_event (l_signals l))
      in (l\<lparr>l_signals := (l_signals l)\<lparr>on_address_event := sig\<rparr>\<rparr>, connection))"

definition connect_to_route_event ::
  "(route_event, unit, 'w) slot \<Rightarrow> exec_policy \<Rightarrow> 'w listener \<Rightarrow> 'w listener \<times> nat" where
  "connect_to_route_event slot policy l =
     (let (sig, connection) = connect slot policy (on_route_event (l_signals l))
      in (l\<lparr>l_signals := (l_signals l)\<lparr>on_route_event := sig\<rparr>\<rparr>, connection))"

definition connect_to_neighbor_event ::
  "(neighbor_event, unit, 'w) slot \<Rightarrow> exec_policy \<Rightarrow> 'w listener \<Rightarrow> 'w listener \<times> nat" where
  "connect_to_neighbor_event slot policy l =
     (let (sig, connection) = connect slot policy (on_neighbor_event (l_signals l))
      in (l\<lparr>l_signals := (l_signals l)\<lparr>on_neighbor_event := sig\<rparr>\<rparr>, connection))"

definition connect_to_error ::
  "(nlmsgerr \<times> nlmsghdr, unit, 'w) slot \<Rightarrow> exec_policy \<Rightarrow> 'w listener \<Rightarrow> 'w listener \<times> nat" where
  "connect_to_error slot policy l =
     (let (sig, connection) = connect slot policy (on_nlmsgerr_event (l_signals l))
      in (l\<lparr>l_signals := (l_signals l)\<lparr>on_nlmsgerr_event := sig\<rparr>\<rparr>, connection))"

end
