(* ===== verification/Listener_Dispatch.thy ===== *)
theory Listener_Dispatch
  imports Nl_Listener
begin

text \<open>
  What the listener does with the messages of a datagram: an abstract account of what each message
  tells (\<open>notification_of\<close>), and the proof that the table of handlers with its length check
  delivers exactly that, message by message, to the slots.
\<close>

section \<open>What a message tells\<close>

datatype notification = N_Link link_event | N_Address address_event | N_Route route_event
  | N_Neighbor neighbor_event | N_Error nlmsgerr nlmsghdr

definition notification_of :: "inet_ntop \<Rightarrow> mem \<Rightarrow> ptr \<Rightarrow> notification option ub" where
  "notification_of ntop m h = do {
     ty \<leftarrow> nlmsg_type m h;
     len \<leftarrow> nlmsg_len m h;
     if ty = RTM_NEWLINK \<or> ty = RTM_DELLINK then do {
       ev \<leftarrow> link_from_nlmsghdr m h;
       Some (if link_type ev = LINK_UNKNOWN then None else Some (N_Link ev)) }
     else if ty = RTM_NEWADDR \<or> ty = RTM_DELADDR then do {
       ev \<leftarrow> address_from_nlmsghdr ntop m h;
       Some (if address_type ev = ADDRESS_UNKNOWN then None else Some (N_Address ev)) }
     else if ty = RTM_NEWROUTE \<or> ty = RTM_DELROUTE then do {
       ev \<leftarrow> route_from_nlmsghdr ntop m h;
       Some (if route_type ev = ROUTE_UNKNOWN then None else Some (N_Route ev)) }
     else if ty = RTM_NEWNEIGH \<or> ty = RTM_DELNEIGH then do {
       ev \<leftarrow> neighbor_from_nlmsghdr ntop m h;
       Some (if neighbor_type ev = NEIGHBOR_UNKNOWN then None else Some (N_Neighbor ev)) }
     else if ty = NLMSG_ERROR \<and> 36 \<le> unat len then do {
       err \<leftarrow> rd_nlmsgerr m (h + 16);
       hdr \<leftarrow> rd_nlmsghdr m h;
       Some (Some (N_Error err hdr)) }
     else Some None }"

fun notify :: "'w listener_signals \<Rightarrow> notification \<Rightarrow> 'w app \<Rightarrow> 'w app \<times> nat option" where
  "notify sigs (N_Link ev) st = emission (emit_void (on_link_event sigs) ev st)"
| "notify sigs (N_Address ev) st = emission (emit_void (on_address_event sigs) ev st)"
| "notify sigs (N_Route ev) st = emission (emit_void (on_route_event sigs) ev st)"
| "notify sigs (N_Neighbor ev) st = emission (emit_void (on_neighbor_event sigs) ev st)"
| "notify sigs (N_Error err hdr) st = emission (emit_void (on_nlmsgerr_event sigs) (err, hdr) st)"

section \<open>The table of handlers\<close>

lemma has_payload_eq:
  "has_payload m h n = map_option (\<lambda>len. NLMSG_LENGTH n \<le> unat len) (nlmsg_len m h)"
proof (cases "nlmsg_len m h")
  case None
  then show ?thesis by (simp add: has_payload_def)
next
  case (Some len)
  have "n \<le> unat (NLMSG_PAYLOAD len)" if "NLMSG_LENGTH n \<le> unat len"
  proof -
    have "16 \<le> len" using that by (simp add: NLMSG_LENGTH_def word_le_nat_alt)
    then have "unat (NLMSG_PAYLOAD len) = unat len - 16"
      by (simp add: NLMSG_PAYLOAD_def unat_sub)
    then show ?thesis using that by (simp add: NLMSG_LENGTH_def)
  qed
  then show ?thesis using Some by (auto simp: has_payload_def)
qed

text \<open>On a message that is too short for its struct, the parsers yield an unknown event.\<close>

lemma short_messages:
  assumes "nlmsg_type m h = Some ty" "nlmsg_len m h = Some len"
  shows "ty = RTM_NEWLINK \<or> ty = RTM_DELLINK \<Longrightarrow> unat len < 32 \<Longrightarrow>
      \<exists>ev. link_from_nlmsghdr m h = Some ev \<and> link_type ev = LINK_UNKNOWN"
    and "ty = RTM_NEWADDR \<or> ty = RTM_DELADDR \<Longrightarrow> unat len < 24 \<Longrightarrow>
      \<exists>ev. address_from_nlmsghdr ntop m h = Some ev \<and> address_type ev = ADDRESS_UNKNOWN"
    and "ty = RTM_NEWROUTE \<or> ty = RTM_DELROUTE \<Longrightarrow> unat len < 28 \<Longrightarrow>
      \<exists>ev. route_from_nlmsghdr ntop m h = Some ev \<and> route_type ev = ROUTE_UNKNOWN"
    and "ty = RTM_NEWNEIGH \<or> ty = RTM_DELNEIGH \<Longrightarrow> unat len < 28 \<Longrightarrow>
      \<exists>ev. neighbor_from_nlmsghdr ntop m h = Some ev \<and> neighbor_type ev = NEIGHBOR_UNKNOWN"
  using assms
  by (auto simp: link_from_nlmsghdr_def address_from_nlmsghdr_def route_from_nlmsghdr_def
      neighbor_from_nlmsghdr_def get_msg_payload_def NLMSG_LENGTH_def Let_def
      link_event_init_def address_event_init_def neighbor_event_init_def)

lemma handlers_lookup:
  "map_of handlers ty =
     (if ty = RTM_NEWLINK \<or> ty = RTM_DELLINK then Some (16, Handle_Link)
      else if ty = RTM_NEWADDR \<or> ty = RTM_DELADDR then Some (8, Handle_Address)
      else if ty = RTM_NEWROUTE \<or> ty = RTM_DELROUTE then Some (12, Handle_Route)
      else if ty = RTM_NEWNEIGH \<or> ty = RTM_DELNEIGH then Some (12, Handle_Neighbor)
      else if ty = NLMSG_ERROR then Some (20, Handle_Error)
      else None)"
  by (simp add: handlers_def)

lemma notify_or_not:
  "(case if u then None else Some n of None \<Rightarrow> (st, None) | Some n \<Rightarrow> notify sigs n st)
    = (if u then (st, None) else notify sigs n st)"
  by simp

lemma handle_message_spec:
  assumes "nlmsg_len m h \<noteq> None"
  shows "handle_message ntop sigs m h st = map_option
    (\<lambda>n. case n of None \<Rightarrow> (st, None) | Some n \<Rightarrow> notify sigs n st) (notification_of ntop m h)"
proof (cases "nlmsg_type m h")
  case None
  then show ?thesis by (simp add: handle_message_def notification_of_def)
next
  case (Some ty)
  obtain len where len: "nlmsg_len m h = Some len" using assms by blast
  note short = short_messages [OF Some len]
  consider "ty = RTM_NEWLINK \<or> ty = RTM_DELLINK" | "ty = RTM_NEWADDR \<or> ty = RTM_DELADDR"
    | "ty = RTM_NEWROUTE \<or> ty = RTM_DELROUTE" | "ty = RTM_NEWNEIGH \<or> ty = RTM_DELNEIGH"
    | "ty = NLMSG_ERROR" | "map_of handlers ty = None" "notification_of ntop m h = Some None"
    unfolding notification_of_def Some len handlers_lookup Option.bind.simps by argo
  then show ?thesis
  proof cases
    case 1
    then have h: "map_of handlers ty = Some (16, Handle_Link)"
      and n: "notification_of ntop m h = do {
        ev \<leftarrow> link_from_nlmsghdr m h;
        Some (if link_type ev = LINK_UNKNOWN then None else Some (N_Link ev)) }"
      by (simp_all add: handlers_lookup notification_of_def Some len)
    show ?thesis
      using short(1) [OF 1] by (cases "unat len < 32"; cases "link_from_nlmsghdr m h")
        (auto simp: handle_message_def Some h n has_payload_eq len NLMSG_LENGTH_def handle_link_message_def)
  next
    case 2
    then have h: "map_of handlers ty = Some (8, Handle_Address)"
      and n: "notification_of ntop m h = do {
        ev \<leftarrow> address_from_nlmsghdr ntop m h;
        Some (if address_type ev = ADDRESS_UNKNOWN then None else Some (N_Address ev)) }"
      by (auto simp: handlers_lookup notification_of_def Some len)
    show ?thesis
      using short(2) [OF 2, of ntop] by (cases "unat len < 24"; cases "address_from_nlmsghdr ntop m h")
        (auto simp: handle_message_def Some h n has_payload_eq len NLMSG_LENGTH_def handle_address_message_def)
  next
    case 3
    then have h: "map_of handlers ty = Some (12, Handle_Route)"
      and n: "notification_of ntop m h = do {
        ev \<leftarrow> route_from_nlmsghdr ntop m h;
        Some (if route_type ev = ROUTE_UNKNOWN then None else Some (N_Route ev)) }"
      by (auto simp: handlers_lookup notification_of_def Some len)
    show ?thesis
      using short(3) [OF 3, of ntop] by (cases "unat len < 28"; cases "route_from_nlmsghdr ntop m h")
        (auto simp: handle_message_def Some h n has_payload_eq len NLMSG_LENGTH_def handle_route_message_def)
  next
    case 4
    then have h: "map_of handlers ty = Some (12, Handle_Neighbor)"
      and n: "notification_of ntop m h = do {
        ev \<leftarrow> neighbor_from_nlmsghdr ntop m h;
        Some (if neighbor_type ev = NEIGHBOR_UNKNOWN then None else Some (N_Neighbor ev)) }"
      by (auto simp: handlers_lookup notification_of_def Some len)
    show ?thesis
      using short(4) [OF 4, of ntop] by (cases "unat len < 28"; cases "neighbor_from_nlmsghdr ntop m h")
        (auto simp: handle_message_def Some h n has_payload_eq len NLMSG_LENGTH_def handle_neighbor_message_def)
  next
    case 5
    then show ?thesis
      by (cases "rd_nlmsgerr m (h + 16)"; cases "rd_nlmsghdr m h")
        (auto simp: handle_message_def notification_of_def Some len handlers_lookup has_payload_eq
          NLMSG_LENGTH_def NLMSG_DATA_def handle_error_message_def)
  next
    case 6
    then show ?thesis by (simp add: handle_message_def Some)
  qed
qed

section \<open>Datagrams\<close>

lemma rd_nlmsgerr_frame [frame]:
  "embeds b m d \<Longrightarrow> q = d + p \<Longrightarrow> ub_le (rd_nlmsgerr b p) (rd_nlmsgerr m q)"
  unfolding rd_nlmsgerr_def by (rule frame | assumption | simp)+

lemma notification_frame:
  assumes "embeds b m d" "q = d + p"
  shows "ub_le (notification_of ntop b p) (notification_of ntop m q)"
  unfolding notification_of_def
  by (rule frame link_frame address_frame route_frame neighbor_frame assms | assumption | simp add: assms(2))+

lemma handle_message_frame:
  assumes "embeds b m d" "q = d + p"
  shows "ub_le (handle_message ntop sigs b p st) (handle_message ntop sigs m q st)"
proof (cases "nlmsg_len b p")
  case None
  then have "\<not> p + 4 \<le> length b" using rd32_defined_iff [of b p] by (simp add: nlmsg_len_def)
  then have "nlmsg_type b p = None"
    using rd16_defined_iff [of b "p + 4"] by (cases "nlmsg_type b p") (auto simp: nlmsg_type_def)
  then show ?thesis by (simp add: handle_message_def ub_le_None)
next
  case (Some len)
  then have "nlmsg_len m q = Some len" by (rule ub_leD [OF nlmsghdr_frame(1) [OF assms]])
  then show ?thesis
    using handle_message_spec [of m q ntop sigs st] handle_message_spec [of b p ntop sigs st] Some
    by (simp add: ub_le_map [OF notification_frame [OF assms]])
qed

interpretation dispatch: message_handler "handle_message ntop sigs"
  by unfold_locales (rule handle_message_frame)

text \<open>Slots that raise no exception.\<close>

definition quiet :: "'w listener_signals \<Rightarrow> bool" where
  "quiet sigs \<longleftrightarrow> never_raises (connections (on_link_event sigs))
     \<and> never_raises (connections (on_address_event sigs)) \<and> never_raises (connections (on_route_event sigs))
     \<and> never_raises (connections (on_neighbor_event sigs)) \<and> never_raises (connections (on_nlmsgerr_event sigs))"

lemma notify_quiet: "quiet sigs \<Longrightarrow> snd (notify sigs n st) = None"
  by (cases n; cases st) (auto simp: quiet_def emission_def emit_void_def wait_all_void)

text \<open>The notifications of a list of messages, and their delivery one after the other.\<close>

definition notifications :: "inet_ntop \<Rightarrow> u8 list list \<Rightarrow> notification list" where
  "notifications ntop msgs = concat (map (\<lambda>b. case notification_of ntop b 0 of
     Some (Some n) \<Rightarrow> [n] | _ \<Rightarrow> []) msgs)"

definition deliver :: "'w listener_signals \<Rightarrow> notification list \<Rightarrow> 'w app \<Rightarrow> 'w app" where
  "deliver sigs ns st = fold (\<lambda>n st. fst (notify sigs n st)) ns st"

lemma run_handle_messages:
  assumes "quiet sigs" and "\<And>b. b \<in> set msgs \<Longrightarrow> wf_msg b \<and> notification_of ntop b 0 \<noteq> None"
  shows "run_msgs (handle_message ntop sigs) msgs st = Some (deliver sigs (notifications ntop msgs) st, None)"
  using assms(2)
proof (induction msgs arbitrary: st)
  case Nil
  then show ?case by (simp add: deliver_def notifications_def)
next
  case (Cons b bs)
  obtain n where n: "notification_of ntop b 0 = Some n" and l: "nlmsg_len b 0 \<noteq> None"
    using Cons.prems [of b] by (auto simp: wf_msg_def)
  have "handle_message ntop sigs b 0 st
      = Some (case n of None \<Rightarrow> st | Some n \<Rightarrow> fst (notify sigs n st), None)"
    using handle_message_spec [OF l, of ntop sigs st] n notify_quiet [OF assms(1)]
    by (auto simp: prod_eq_iff split: option.splits)
  then show ?case
    using Cons by (auto simp: deliver_def notifications_def n split: option.splits)
qed

text \<open>
  A running listener hands every message of a datagram in its buffer, in order, to the slots
  connected for its kind, and asks for the next datagram.
\<close>

lemma handle_datagram:
  assumes "l_running l" "quiet (l_signals l)"
    and "list_all (\<lambda>b. wf_msg b \<and> notification_of ntop b 0 \<noteq> None) msgs"
    and "embeds (enc_datagram msgs) (l_buffer l) 0" "length (enc_datagram msgs) < 2 ^ 31"
  shows "handle_read ntop None (length (enc_datagram msgs)) l
    = Some (Some (request_read (l\<lparr>l_app := deliver (l_signals l) (notifications ntop msgs) (l_app l)\<rparr>), None))"
proof -
  have msgs: "wf_msg b \<and> notification_of ntop b 0 \<noteq> None" if "b \<in> set msgs" for b
    using assms(3) that by (simp add: list.pred_set)
  then have wf: "wf_msg b" if "b \<in> set msgs" for b using that by blast
  from dispatch.loop_datagram [OF run_handle_messages [OF assms(2) msgs] wf assms(4,5)]
  show ?thesis using assms(1) by (auto simp: handle_read_def process_messages_def)
qed

lemma notifications_append: "notifications ntop (xs @ ys) = notifications ntop xs @ notifications ntop ys"
  by (simp add: notifications_def)

lemma deliver_append: "deliver sigs (xs @ ys) st = deliver sigs ys (deliver sigs xs st)"
  by (simp add: deliver_def)

lemma deliver_Nil [simp]: "deliver sigs [] st = st" "notifications ntop [] = []"
  by (simp_all add: deliver_def notifications_def)

end
