(* ===== verification/Listener_States.thy ===== *)
theory Listener_States
  imports Listener_Dispatch
begin

text \<open>
  The listener as a state machine: \<open>start\<close>, \<open>stop\<close> and the connecting of slots by the application,
  data and errors arriving on the socket, and the handlers of completed reads run by the executor.
  The slots act on the state of the application; those that act on the listener itself are in
  Reentrant_Listener. The results: a running listener has an open socket; it never has more than one
  read outstanding as long as it is not started while a completed read of an earlier run still waits
  for its handler; and when it is, two reads share the buffer from then on. At the end: the object is
  destroyed with a read outstanding.
\<close>

datatype 'w connecting =
    To_Link_Event "(link_event, unit, 'w) slot" exec_policy
  | To_Address_Event "(address_event, unit, 'w) slot" exec_policy
  | To_Route_Event "(route_event, unit, 'w) slot" exec_policy
  | To_Neighbor_Event "(neighbor_event, unit, 'w) slot" exec_policy
  | To_Error "(nlmsgerr \<times> nlmsghdr, unit, 'w) slot" exec_policy

fun connect_slot :: "'w connecting \<Rightarrow> 'w listener \<Rightarrow> 'w listener" where
  "connect_slot (To_Link_Event slot policy) l = fst (connect_to_link_event slot policy l)"
| "connect_slot (To_Address_Event slot policy) l = fst (connect_to_address_event slot policy l)"
| "connect_slot (To_Route_Event slot policy) l = fst (connect_to_route_event slot policy l)"
| "connect_slot (To_Neighbor_Event slot policy) l = fst (connect_to_neighbor_event slot policy l)"
| "connect_slot (To_Error slot policy) l = fst (connect_to_error slot policy l)"

datatype 'w action =
    Start os
  | Stop os
  | Connect "'w connecting"
  | Receive "u8 list"
  | Fail error_code
  | Run_Handler inet_ntop

text \<open>
  What an action leads to, when it can occur and is defined: data and errors complete a read that
  waits, and a handler is run when a read has completed. An exception that leaves the handler leaves
  the listener as it was then.
\<close>

definition act :: "'w action \<Rightarrow> 'w listener \<Rightarrow> 'w listener option" where
  "act a l = (case a of
     Start os \<Rightarrow> Some (fst (listener_start os l))
   | Stop os \<Rightarrow> Some (listener_stop os l)
   | Connect k \<Rightarrow> Some (connect_slot k l)
   | Receive data \<Rightarrow>
       (if l_waiting l = 0 then None
        else Some (l\<lparr>l_waiting := l_waiting l - 1, l_buffer := receive_into (l_buffer l) data,
          l_ready := l_ready l @ [(None, min (length data) (length (l_buffer l)))]\<rparr>))
   | Fail ec \<Rightarrow>
       (if l_waiting l = 0 then None
        else Some (l\<lparr>l_waiting := l_waiting l - 1, l_ready := l_ready l @ [(Some ec, 0)]\<rparr>))
   | Run_Handler ntop \<Rightarrow>
       (case l_ready l of
          [] \<Rightarrow> None
        | (ec, bytes) # rest \<Rightarrow>
            (case handle_read ntop ec bytes (l\<lparr>l_ready := rest\<rparr>) of
               Some (Some (l', e)) \<Rightarrow> Some l'
             | _ \<Rightarrow> None)))"

text \<open>Reads that have been requested and whose handler has not been run.\<close>

definition outstanding :: "'w listener \<Rightarrow> nat" where
  "outstanding l = l_waiting l + length (l_ready l)"

text \<open>A start is clean when no handler of an earlier run is still to come.\<close>

definition clean :: "'w action \<Rightarrow> 'w listener \<Rightarrow> bool" where
  "clean a l \<longleftrightarrow> (\<forall>os. a = Start os \<longrightarrow> l_running l \<or> outstanding l = 0)"

inductive listener_step :: "'w listener \<Rightarrow> 'w action \<Rightarrow> 'w listener \<Rightarrow> bool" where
  listener_step: "act a l = Some l' \<Longrightarrow> listener_step l a l'"

inductive_cases listener_stepE [elim]: "listener_step l a l'"

inductive listener_reachable :: "bool \<Rightarrow> 'w listener \<Rightarrow> bool" for only_clean where
  start: "listener_reachable only_clean (listener_init w)"
| step: "listener_reachable only_clean l \<Longrightarrow> listener_step l a l' \<Longrightarrow> only_clean \<longrightarrow> clean a l \<Longrightarrow>
     listener_reachable only_clean l'"

section \<open>Invariants\<close>

text \<open>Connecting to or emitting a signal, and reading, does not touch the life cycle.\<close>

lemma connect_slot_simps [simp]:
  "l_running (connect_slot k l) = l_running l" "l_guard (connect_slot k l) = l_guard l"
  "l_buffer (connect_slot k l) = l_buffer l" "l_app (connect_slot k l) = l_app l"
  "l_waiting (connect_slot k l) = l_waiting l" "l_ready (connect_slot k l) = l_ready l"
  by (cases k; simp add: connect_to_link_event_def connect_to_address_event_def connect_to_route_event_def
      connect_to_neighbor_event_def connect_to_error_def case_prod_beta Let_def)+

lemma request_read_simps [simp]:
  "l_running (request_read l) = l_running l" "l_guard (request_read l) = l_guard l"
  "l_buffer (request_read l) = l_buffer l" "l_app (request_read l) = l_app l"
  "l_signals (request_read l) = l_signals l"
  "outstanding (request_read l) = outstanding l + (if l_running l then 1 else 0)"
  by (simp_all add: request_read_def outstanding_def)

text \<open>What a handler leaves: an exception, or one more read if the listener is running.\<close>

lemma handle_read_outcome:
  assumes "handle_read ntop ec bytes l = Some (Some (l', e))"
  shows "l_running l' = l_running l \<and> l_guard l' = l_guard l \<and> l_buffer l' = l_buffer l
    \<and> (outstanding l' = outstanding l \<or> l_running l \<and> outstanding l' = outstanding l + 1)
    \<and> (l_waiting l \<le> l_waiting l')"
  using assms
  by (auto simp: handle_read_def process_messages_def outstanding_def request_read_def
      split: if_splits option.splits prod.splits)

definition listener_inv :: "'w listener \<Rightarrow> bool" where
  "listener_inv l \<longleftrightarrow> (l_running l \<longrightarrow> is_open (guard_socket (l_guard l)))
     \<and> (\<not> l_running l \<longrightarrow> l_waiting l = 0)
     \<and> length (l_buffer l) = BUFFER_SIZE"

lemma start_inv:
  assumes "listener_inv l"
  shows "listener_inv (fst (listener_start os l))"
proof (cases "l_running l")
  case True
  then show ?thesis using assms by (simp add: listener_start_def)
next
  case False
  obtain g rc where g: "ensure_open os (l_guard l) = (g, rc)" by (cases "ensure_open os (l_guard l)")
  have "is_open (guard_socket g)" if "rc = Return (Inr u)" for u
    using ensure_open_is_open [of os "l_guard l" g] g that by simp
  then show ?thesis
    using assms False g
    by (auto simp: listener_start_def open_socket_def listener_inv_def request_read_def
        split: outcome.splits sum.splits)
qed

lemma act_inv:
  assumes "act a l = Some l'" "listener_inv l"
  shows "listener_inv l'"
proof (cases a)
  case (Start os)
  then show ?thesis using assms start_inv by (auto simp: act_def)
next
  case (Stop os)
  then show ?thesis using assms by (auto simp: act_def listener_stop_def listener_inv_def)
next
  case (Run_Handler ntop)
  then obtain ec bytes rest e where "l_ready l = (ec, bytes) # rest"
    and h: "handle_read ntop ec bytes (l\<lparr>l_ready := rest\<rparr>) = Some (Some (l', e))"
    using assms(1) by (auto simp: act_def split: list.splits option.splits)
  have "l_waiting l' = 0" if "\<not> l_running l"
    using h assms(2) that by (auto simp: handle_read_def listener_inv_def)
  then show ?thesis using handle_read_outcome [OF h] assms(2) by (auto simp: listener_inv_def)
qed (use assms in \<open>auto simp: act_def listener_inv_def split: if_splits\<close>)

lemma listener_inv_init: "listener_inv (listener_init w)"
  by (simp add: listener_inv_def listener_init_def)

lemma reachable_inv: "listener_reachable c l \<Longrightarrow> listener_inv l"
  by (induction rule: listener_reachable.induct) (auto simp: listener_inv_init dest: act_inv)

text \<open>With clean starts only, there is never more than one read outstanding.\<close>

lemma act_one_read:
  assumes "act a l = Some l'" "clean a l" "outstanding l \<le> 1" "listener_inv l"
  shows "outstanding l' \<le> 1"
proof (cases a)
  case (Start os)
  then show ?thesis
    using assms by (auto simp: act_def listener_start_def open_socket_def clean_def outstanding_def
        request_read_def split: prod.splits outcome.splits sum.splits)
next
  case (Stop os)
  then show ?thesis using assms by (auto simp: act_def listener_stop_def outstanding_def)
next
  case (Run_Handler ntop)
  then obtain ec bytes rest e where r: "l_ready l = (ec, bytes) # rest"
    and h: "handle_read ntop ec bytes (l\<lparr>l_ready := rest\<rparr>) = Some (Some (l', e))"
    using assms(1) by (auto simp: act_def split: list.splits option.splits)
  have "outstanding (l\<lparr>l_ready := rest\<rparr>) = 0"
    using r assms(3) by (simp add: outstanding_def)
  then show ?thesis using handle_read_outcome [OF h] by auto
next
  case (Connect k)
  then show ?thesis using assms by (auto simp: act_def outstanding_def)
next
  case (Receive data)
  then have "outstanding l' = outstanding l"
    using assms(1) by (auto simp: act_def outstanding_def split: if_splits)
  then show ?thesis using assms(3) by simp
next
  case (Fail ec)
  then have "outstanding l' = outstanding l"
    using assms(1) by (auto simp: act_def outstanding_def split: if_splits)
  then show ?thesis using assms(3) by simp
qed

lemma reachable_one_read: "listener_reachable True l \<Longrightarrow> outstanding l \<le> 1"
proof (induction rule: listener_reachable.induct)
  case (start w)
  then show ?case by (simp add: listener_init_def outstanding_def)
next
  case (step l a l')
  then show ?case using act_one_read [of a l l'] reachable_inv [of True l] by auto
qed

section \<open>A listener that runs keeps reading\<close>

text \<open>Reads that wait or have completed with something else than the abort by a stop.\<close>

definition live_reads :: "'w listener \<Rightarrow> nat" where
  "live_reads l = l_waiting l + length (filter (\<lambda>r. fst r \<noteq> Some operation_aborted) (l_ready l))"

lemma live_reads_request [simp]:
  "live_reads (request_read l) = live_reads l + (if l_running l then 1 else 0)"
  by (simp add: request_read_def live_reads_def bad_descriptor_def operation_aborted_def)

lemma emission_quiet: "never_raises (connections sig) \<Longrightarrow> snd (emission (emit_void sig args st)) = None"
  by (cases st) (simp add: emission_def emit_void_def wait_all_void)

lemma run_handler_quiet:
  assumes "run_handler ntop sigs k m h st = Some (st', r)" "quiet sigs"
  shows "r = None"
  using assms
  by (cases k)
    (auto simp: emission_quiet quiet_def handle_link_message_def handle_address_message_def handle_route_message_def
      handle_neighbor_message_def handle_error_message_def bind_eq_Some_conv prod_eq_iff split: if_splits)

lemma handle_message_quiet:
  assumes "handle_message ntop sigs m h st = Some (st', r)" "quiet sigs"
  shows "r = None"
proof -
  obtain ty where ty: "nlmsg_type m h = Some ty"
    using assms(1) by (auto simp: handle_message_def bind_eq_Some_conv)
  show ?thesis
  proof (cases "map_of handlers ty")
    case None
    then show ?thesis using assms(1) ty by (simp add: handle_message_def)
  next
    case (Some c)
    obtain n k where c: "c = (n, k)" by (cases c)
    have "(st', r) = (st, None) \<or> run_handler ntop sigs k m h st = Some (st', r)"
      using assms(1) ty Some c
      by (cases "if n > 0 then has_payload m h n else Some True")
        (auto simp: handle_message_def split: if_splits)
    then show ?thesis using run_handler_quiet [OF _ assms(2)] by blast
  qed
qed

lemma process_messages_quiet:
  assumes "process_messages ntop bytes l = Some (Some (l', e))" "quiet (l_signals l)"
  shows "\<exists>app. l' = request_read (l\<lparr>l_app := app\<rparr>)"
proof -
  obtain app r left where loop: "nlmsg_loop (handle_message ntop (l_signals l) (l_buffer l)) (l_buffer l) 0
      (of_nat bytes) (l_app l) = Some (Some (app, r, left))"
    using assms(1) by (auto simp: process_messages_def split: option.splits)
  have "True \<and> (\<forall>x. r = Some x \<longrightarrow> False)"
    by (rule nlmsg_loop_invariant [OF loop]) (auto dest: handle_message_quiet [OF _ assms(2)])
  then show ?thesis
    using assms(1) loop by (cases r; cases app) (auto simp: process_messages_def)
qed

text \<open>
  Slots that raise nothing are connected, and the socket reports \<open>operation_aborted\<close> only when it is
  stopped.
\<close>

definition raises_nothing :: "exec_policy \<Rightarrow> ('a, unit, 'w) slot \<Rightarrow> bool" where
  "raises_nothing policy slot \<longleftrightarrow> (policy = Sync \<longrightarrow> (\<forall>a w. \<exists>w' r. slot a w = (w', Value r)))"

fun connects_quiet :: "'w connecting \<Rightarrow> bool" where
  "connects_quiet (To_Link_Event slot policy) \<longleftrightarrow> raises_nothing policy slot"
| "connects_quiet (To_Address_Event slot policy) \<longleftrightarrow> raises_nothing policy slot"
| "connects_quiet (To_Route_Event slot policy) \<longleftrightarrow> raises_nothing policy slot"
| "connects_quiet (To_Neighbor_Event slot policy) \<longleftrightarrow> raises_nothing policy slot"
| "connects_quiet (To_Error slot policy) \<longleftrightarrow> raises_nothing policy slot"

fun calm :: "'w action \<Rightarrow> bool" where
  "calm (Connect k) \<longleftrightarrow> connects_quiet k"
| "calm (Fail ec) \<longleftrightarrow> ec \<noteq> operation_aborted"
| "calm _ \<longleftrightarrow> True"

lemma quiet_connect:
  assumes "quiet (l_signals l)" "connects_quiet k"
  shows "quiet (l_signals (connect_slot k l))"
  using assms
  by (cases k) (auto simp: quiet_def never_raises_def raises_nothing_def connect_to_link_event_def
      connect_to_address_event_def connect_to_route_event_def connect_to_neighbor_event_def connect_to_error_def connect_def)

definition alive :: "'w listener \<Rightarrow> bool" where
  "alive l \<longleftrightarrow> quiet (l_signals l) \<and> (l_running l \<longrightarrow> 1 \<le> live_reads l)"

lemma act_alive:
  assumes "act a l = Some l'" "alive l" "calm a"
  shows "alive l'"
proof (cases a)
  case (Start os)
  then show ?thesis
    using assms by (auto simp: act_def listener_start_def open_socket_def alive_def request_read_def live_reads_def
        bad_descriptor_def operation_aborted_def split: prod.splits outcome.splits sum.splits)
next
  case (Stop os)
  then show ?thesis using assms by (auto simp: act_def listener_stop_def alive_def)
next
  case (Connect k)
  then show ?thesis using assms quiet_connect [of l k] by (auto simp: act_def alive_def live_reads_def)
next
  case (Run_Handler ntop)
  then obtain ec bytes rest e where r: "l_ready l = (ec, bytes) # rest"
    and h: "handle_read ntop ec bytes (l\<lparr>l_ready := rest\<rparr>) = Some (Some (l', e))"
    using assms(1) by (auto simp: act_def split: list.splits option.splits)
  let ?l = "l\<lparr>l_ready := rest\<rparr>"
  consider "\<not> l_running l" "l' = ?l" | "ec = Some operation_aborted" "l' = ?l"
    | "l' = request_read ?l" | app where "l' = request_read (?l\<lparr>l_app := app\<rparr>)"
    using h assms(2) process_messages_quiet [of ntop bytes ?l l' e]
    by (auto simp: handle_read_def alive_def split: if_splits)
  then show ?thesis
  proof cases
    case 1
    then show ?thesis using assms(2) by (simp add: alive_def)
  next
    case 2
    then show ?thesis using assms(2) r by (simp add: alive_def live_reads_def)
  qed (use assms(2) in \<open>simp_all add: alive_def\<close>)
next
  case (Receive data)
  then show ?thesis using assms by (auto simp: act_def alive_def live_reads_def split: if_splits)
next
  case (Fail ec)
  then show ?thesis using assms by (auto simp: act_def alive_def live_reads_def split: if_splits)
qed

section \<open>What goes wrong\<close>

text \<open>
  An exception of a slot leaves the handler before the next read is requested: the listener still
  says it is running, a start does nothing, and nothing is read any more until it is stopped.
\<close>

definition deaf :: "'w listener \<Rightarrow> bool" where
  "deaf l \<longleftrightarrow> l_running l \<and> outstanding l = 0"

lemma deaf_stays:
  assumes "deaf l" "act a l = Some l'"
  shows "deaf l' \<or> (\<exists>os. a = Stop os)"
  using assms by (cases a) (auto simp: deaf_def act_def outstanding_def listener_start_def split: if_splits)

lemma exception_deafens:
  assumes "handle_read ntop None bytes l = Some (Some (l', Some e))" "outstanding l = 0"
  shows "deaf l'"
  using assms
  by (auto simp: handle_read_def process_messages_def deaf_def outstanding_def
      split: if_splits option.splits prod.splits)

text \<open>
  A start right after a stop, while data that had arrived before waits for its handler: from then
  on two reads are outstanding at a time.
\<close>

definition working :: os where
  "working c = None"

definition restart_run :: "'w action list" where
  "restart_run = [Start working, Receive [], Stop working, Start working, Run_Handler (\<lambda>_ _. None)]"

fun acts :: "'w action list \<Rightarrow> 'w listener \<Rightarrow> 'w listener option" where
  "acts [] l = Some l"
| "acts (a # as) l = (case act a l of None \<Rightarrow> None | Some l' \<Rightarrow> acts as l')"

lemma acts_reachable: "acts as l = Some l' \<Longrightarrow> listener_reachable False l \<Longrightarrow> listener_reachable False l'"
  by (induction as arbitrary: l) (auto split: option.splits intro: listener_reachable.step listener_step)

lemma working_open:
  assumes "\<not> is_open (guard_socket g)"
  shows "\<exists>g'. ensure_open working g = (g', Return (Inr ())) \<and> is_open (guard_socket g')"
  using assms
  by (auto simp: ensure_open_def socket_defs working_def)

lemma start_working:
  assumes "\<not> l_running l" "\<not> is_open (guard_socket (l_guard l))"
  shows "\<exists>g. listener_start working l = (l\<lparr>l_guard := g, l_running := True, l_waiting := Suc (l_waiting l)\<rparr>, Return ())
    \<and> is_open (guard_socket g)"
  using working_open [OF assms(2)] assms(1)
  by (auto simp: listener_start_def open_socket_def request_read_def)

lemma restart_run_reads:
  "\<exists>l. acts restart_run (listener_init w) = Some l \<and> l_running l \<and> l_waiting l = 2"
proof -
  let ?l0 = "listener_init w"
  have init: "\<not> l_running ?l0" "\<not> is_open (guard_socket (l_guard ?l0))" "l_waiting ?l0 = 0" "l_ready ?l0 = []"
    by (simp_all add: listener_init_def is_open_def socket_guard_init_def socket_guard_with_mask_def socket_init_def)
  obtain g1 where g1: "act (Start working) ?l0 = Some (?l0\<lparr>l_guard := g1, l_running := True, l_waiting := Suc 0\<rparr>)"
    "is_open (guard_socket g1)"
    using start_working [OF init(1,2)] init(3) by (auto simp: act_def)
  define l2 where "l2 = ?l0\<lparr>l_guard := g1, l_running := True, l_waiting := 0,
      l_buffer := receive_into (l_buffer ?l0) [], l_ready := [(None, 0)]\<rparr>"
  have a2: "act (Receive []) (?l0\<lparr>l_guard := g1, l_running := True, l_waiting := Suc 0\<rparr>) = Some l2"
    using init by (simp add: act_def l2_def)
  define l3 where "l3 = l2\<lparr>l_running := False, l_guard := guard_stop working g1\<rparr>"
  have a3: "act (Stop working) l2 = Some l3"
    by (simp add: act_def listener_stop_def l2_def l3_def)
  have c3: "\<not> l_running l3" "\<not> is_open (guard_socket (l_guard l3))"
    by (simp_all add: l3_def guard_stop_closed)
  obtain g4 where a4: "act (Start working) l3 = Some (l3\<lparr>l_guard := g4, l_running := True, l_waiting := Suc 0\<rparr>)"
    and o4: "is_open (guard_socket g4)"
    using start_working [OF c3] by (auto simp: act_def l3_def l2_def)
  have a5: "\<exists>l. act (Run_Handler (\<lambda>_ _. None)) (l3\<lparr>l_guard := g4, l_running := True, l_waiting := Suc 0\<rparr>) = Some l
      \<and> l_running l \<and> l_waiting l = 2"
    using o4 by (simp add: act_def l3_def l2_def handle_read_def process_messages_def
        nlmsg_loop_stop request_read_def)
  show ?thesis
    using a5 by (auto simp: restart_run_def g1(1) a2 a3 a4)
qed

text \<open>Runs of several actions.\<close>

lemma acts_alive:
  assumes "acts as l = Some l'" "alive l" "list_all calm as"
  shows "alive l'"
  using assms
  by (induction as arbitrary: l) (auto split: option.splits dest: act_alive)

lemma acts_deaf:
  assumes "acts as l = Some l'" "deaf l" "list_all (\<lambda>a. case a of Stop os \<Rightarrow> False | _ \<Rightarrow> True) as"
  shows "deaf l'"
  using assms
proof (induction as arbitrary: l)
  case Nil
  then show ?case by simp
next
  case (Cons a as)
  then obtain k where k: "act a l = Some k" "acts as k = Some l'" by (auto split: option.splits)
  have "\<forall>os. a \<noteq> Stop os" using Cons.prems(3) by (auto split: action.splits)
  then have "deaf k" using deaf_stays [OF Cons.prems(2) k(1)] by blast
  then show ?case using Cons.IH [OF k(2)] Cons.prems(3) by simp
qed

lemma alive_init: "alive (listener_init w)"
  by (simp add: alive_def quiet_def never_raises_def listener_init_def signal_init_def)

lemma init_closed: "\<not> l_running (listener_init w)" "\<not> is_open (guard_socket (l_guard (listener_init w)))"
  "l_waiting (listener_init w) = 0" "l_ready (listener_init w) = []"
  by (simp_all add: listener_init_def is_open_def socket_guard_init_def socket_guard_with_mask_def socket_init_def)

lemma started:
  "\<exists>g. act (Start working) (listener_init w)
      = Some ((listener_init w)\<lparr>l_guard := g, l_running := True, l_waiting := Suc 0\<rparr>) \<and> is_open (guard_socket g)"
proof -
  obtain g where st: "listener_start working (listener_init w)
      = ((listener_init w)\<lparr>l_guard := g, l_running := True, l_waiting := Suc (l_waiting (listener_init w))\<rparr>, Return ())"
    and o: "is_open (guard_socket g)"
    using start_working [OF init_closed(1) [of w] init_closed(2) [of w]] by (elim exE conjE) (rule that)
  have "act (Start working) (listener_init w)
      = Some ((listener_init w)\<lparr>l_guard := g, l_running := True, l_waiting := Suc 0\<rparr>)"
    unfolding act_def action.case st init_closed fst_conv by (rule refl)
  then show ?thesis using o by blast
qed

text \<open>A listener with one slot, which keeps the indexes of the links it is told of.\<close>

abbreviation keep_index :: "(link_event, unit, int list) slot" where
  "keep_index \<equiv> \<lambda>ev w. (w @ [link_index ev], Value ())"

definition one_slot :: "int list listener" where
  "one_slot = connect_slot (To_Link_Event keep_index Sync) (listener_init [])"

lemma one_slot_started:
  "\<exists>g. act (Start working) one_slot = Some (one_slot\<lparr>l_guard := g, l_running := True, l_waiting := Suc 0\<rparr>)
    \<and> is_open (guard_socket g)"
proof -
  have closed: "\<not> l_running one_slot" "\<not> is_open (guard_socket (l_guard one_slot))" "l_waiting one_slot = 0"
    by (simp_all only: one_slot_def connect_slot_simps init_closed simp_thms)
  show ?thesis using start_working [OF closed(1,2)] closed(3) by (auto simp: act_def)
qed

lemma one_slot_connected:
  "act (Connect (To_Link_Event keep_index Sync)) (listener_init []) = Some one_slot"
  "connections (on_link_event (l_signals one_slot)) = [(0, Sync, keep_index)]"
  "l_waiting one_slot = 0" "l_ready one_slot = []"
  by (simp_all add: act_def one_slot_def connect_to_link_event_def connect_def listener_init_def signal_init_def)

section \<open>Reading datagrams\<close>

text \<open>A listener that waits for the next datagram.\<close>

definition idle :: "'w listener \<Rightarrow> bool" where
  "idle l \<longleftrightarrow> l_running l \<and> is_open (guard_socket (l_guard l)) \<and> l_waiting l = Suc 0 \<and> l_ready l = []
     \<and> length (l_buffer l) = BUFFER_SIZE \<and> quiet (l_signals l)"

lemma receive_and_handle:
  assumes "idle l" "list_all (\<lambda>b. wf_msg b \<and> notification_of ntop b 0 \<noteq> None) msgs"
    and "length (enc_datagram msgs) \<le> BUFFER_SIZE"
  shows "\<exists>l'. acts [Receive (enc_datagram msgs), Run_Handler ntop] l = Some l' \<and> idle l'
    \<and> l_signals l' = l_signals l \<and> l_app l' = deliver (l_signals l) (notifications ntop msgs) (l_app l)"
proof -
  let ?d = "enc_datagram msgs"
  define k where "k = l\<lparr>l_buffer := receive_into (l_buffer l) ?d, l_waiting := 0, l_ready := []\<rparr>"
  have l: "l_running l" "is_open (guard_socket (l_guard l))" "l_waiting l = Suc 0" "l_ready l = []"
    "length (l_buffer l) = BUFFER_SIZE" "quiet (l_signals l)"
    using assms(1) by (simp_all add: idle_def)
  have d: "length ?d \<le> length (l_buffer l)" "length ?d < 2 ^ 31"
    using assms(3) l(5) by (simp_all add: BUFFER_SIZE_def)
  have k: "l_running k" "quiet (l_signals k)" "embeds ?d (l_buffer k) 0"
    using l receive_into_embeds [OF d(1)] by (simp_all add: k_def)
  have r: "act (Receive ?d) l = Some (k\<lparr>l_ready := [(None, length ?d)]\<rparr>)"
    using d(1) by (simp add: act_def k_def l)
  define l' where "l' = request_read (k\<lparr>l_app := deliver (l_signals k) (notifications ntop msgs) (l_app k)\<rparr>)"
  have "k\<lparr>l_ready := []\<rparr> = k" by (simp add: k_def)
  then have h: "act (Run_Handler ntop) (k\<lparr>l_ready := [(None, length ?d)]\<rparr>) = Some l'"
    using handle_datagram [OF k(1,2) assms(2) k(3) d(2)] by (simp add: act_def l'_def)
  have "idle l'"
    using l by (simp add: l'_def idle_def request_read_def k_def)
  moreover have "l_signals l' = l_signals l" "l_app l' = deliver (l_signals l) (notifications ntop msgs) (l_app l)"
    by (simp_all add: l'_def k_def)
  ultimately show ?thesis using r h by (intro exI [of _ l']) simp
qed

lemma acts_append: "acts (as @ bs) l = (case acts as l of None \<Rightarrow> None | Some l' \<Rightarrow> acts bs l')"
  by (induction as arbitrary: l) (simp_all split: option.split)

lemma receive_all:
  assumes "idle l"
    and "list_all (\<lambda>msgs. list_all (\<lambda>b. wf_msg b \<and> notification_of ntop b 0 \<noteq> None) msgs
      \<and> length (enc_datagram msgs) \<le> BUFFER_SIZE) mss"
  shows "\<exists>l'. acts (concat (map (\<lambda>msgs. [Receive (enc_datagram msgs), Run_Handler ntop]) mss)) l = Some l'
    \<and> idle l' \<and> l_app l' = deliver (l_signals l) (notifications ntop (concat mss)) (l_app l)"
  using assms
proof (induction mss arbitrary: l)
  case Nil
  then show ?case by simp
next
  case (Cons msgs mss)
  obtain k where k: "acts [Receive (enc_datagram msgs), Run_Handler ntop] l = Some k" "idle k"
    "l_signals k = l_signals l" "l_app k = deliver (l_signals l) (notifications ntop msgs) (l_app l)"
    using receive_and_handle [OF Cons.prems(1), of ntop msgs] Cons.prems(2) by auto
  obtain l' where "acts (concat (map (\<lambda>msgs. [Receive (enc_datagram msgs), Run_Handler ntop]) mss)) k = Some l'"
    "idle l'" "l_app l' = deliver (l_signals k) (notifications ntop (concat mss)) (l_app k)"
    using Cons.IH [OF k(2)] Cons.prems(2) by auto
  then show ?case
    using k by (intro exI [of _ l'])
      (simp only: list.map concat.simps acts_append option.case notifications_append deliver_append simp_thms)
qed

text \<open>A listener that is started and receives one datagram after the other.\<close>

lemma listener_run:
  assumes "\<not> l_running l" "snd (ensure_open os (l_guard l)) = Return (Inr ())" "outstanding l = 0"
    and "length (l_buffer l) = BUFFER_SIZE" "quiet (l_signals l)"
    and "list_all (\<lambda>msgs. list_all (\<lambda>b. wf_msg b \<and> notification_of ntop b 0 \<noteq> None) msgs
      \<and> length (enc_datagram msgs) \<le> BUFFER_SIZE) mss"
  shows "\<exists>l'. acts (Start os # concat (map (\<lambda>msgs. [Receive (enc_datagram msgs), Run_Handler ntop]) mss)) l = Some l'
    \<and> l_running l' \<and> l_waiting l' = 1 \<and> l_ready l' = []
    \<and> l_app l' = deliver (l_signals l) (notifications ntop (concat mss)) (l_app l)"
proof -
  obtain g where g: "ensure_open os (l_guard l) = (g, Return (Inr ()))"
    using assms(2) by (cases "ensure_open os (l_guard l)") simp
  let ?k = "l\<lparr>l_guard := g, l_running := True, l_waiting := Suc 0\<rparr>"
  have o: "is_open (guard_socket g)" by (rule ensure_open_is_open [OF g])
  have "act (Start os) l = Some ?k"
    using assms(1,3) o by (simp add: act_def listener_start_def open_socket_def g request_read_def outstanding_def)
  moreover have "idle ?k" using assms(3-5) o by (simp add: idle_def outstanding_def)
  ultimately show ?thesis using receive_all [OF _ assms(6), of ?k] by (auto simp: idle_def)
qed

text \<open>A link message and its event, for concrete runs.\<close>

definition lo_message :: "u8 list" where
  "lo_message = enc_msg RTM_NEWLINK 0 0 0 (enc_ifinfomsg 0 1 2 3 0 @ enc_attrs [(IFLA_IFNAME, [108, 111, 0])])"

definition lo_event :: link_event where
  "lo_event = \<lparr>link_type = NEW_LINK, link_index = 2, link_flags = 3, link_change = 0, link_name = ''lo''\<rparr>"

lemma lo_message:
  "wf_msg lo_message" "notification_of ntop lo_message 0 = Some (Some (N_Link lo_event))"
  "length (enc_datagram [lo_message, lo_message]) = 80"
proof -
  show "wf_msg lo_message" "length (enc_datagram [lo_message, lo_message]) = 80"
    by (simp_all add: lo_message_def wf_msg_enc enc_attrs_def enc_attr_def pad4_def)
  have "link_from_nlmsghdr lo_message 0 = Some lo_event"
    unfolding lo_message_def lo_event_def
    by (subst link_parse_enc) (simp_all add: wf_link_attrs_def wf_attr_def is_ifname_def enc_attrs_def enc_attr_def
        pad4_def cstr_text_def chr_of_byte_def char_of_def bit_Suc_0_iff)
  moreover have "nlmsg_type lo_message 0 = Some RTM_NEWLINK" "nlmsg_len lo_message 0 \<noteq> None"
    by (simp_all add: lo_message_def nlmsghdr_enc_msg)
  ultimately show "notification_of ntop lo_message 0 = Some (Some (N_Link lo_event))"
    by (auto simp: notification_of_def lo_event_def)
qed

section \<open>Destruction\<close>

text \<open>
  The handlers that the executor still has to run refer to their listener. When it has been
  destroyed, \<open>handle_read\<close> begins by reading a member of an object that is gone: \<open>None\<close>, as for every
  undefined behaviour.
\<close>

datatype 'w object =
    Object "'w listener"
  | Destroyed "(error_code option \<times> nat) list"

definition destroy :: "os \<Rightarrow> 'w listener \<Rightarrow> 'w object" where
  "destroy os l = Destroyed (l_ready (listener_destroy os l))"

fun executor_turn :: "inet_ntop \<Rightarrow> 'w object \<Rightarrow> 'w object option" where
  "executor_turn ntop (Object l) =
     (if l_ready l = [] then Some (Object l) else map_option Object (act (Run_Handler ntop) l))"
| "executor_turn ntop (Destroyed []) = Some (Destroyed [])"
| "executor_turn ntop (Destroyed (r # rs)) = None"

lemma destroyed_turn: "executor_turn ntop (Destroyed rs) = None \<longleftrightarrow> rs \<noteq> []"
  by (cases rs) simp_all

lemma stop_ready:
  "l_ready (listener_stop os l) = l_ready l @ (if l_running l then replicate (l_waiting l) (Some operation_aborted, 0) else [])"
  by (simp add: listener_stop_def)

lemma destroy_turn:
  assumes "listener_inv l"
  shows "executor_turn ntop (destroy os l) = None \<longleftrightarrow> outstanding l \<noteq> 0"
  using assms by (auto simp: destroy_def destroyed_turn listener_destroy_def Let_def stop_ready outstanding_def listener_inv_def)

lemma stop_outstanding: "listener_inv l \<Longrightarrow> outstanding (listener_stop os l) = outstanding l"
  by (auto simp: outstanding_def listener_stop_def listener_inv_def)

lemma acts_inv: "acts as l = Some l' \<Longrightarrow> listener_inv l \<Longrightarrow> listener_inv l'"
  by (induction as arbitrary: l) (auto split: option.splits dest: act_inv)

lemma live_reads_outstanding: "live_reads l \<le> outstanding l"
  by (simp add: live_reads_def outstanding_def)

section \<open>Properties\<close>

text \<open>
  C10. From its start on, a listener hands every message of every datagram it receives, in order and
  exactly once, to the slots connected for its kind, with the event the parsers make of it, as long as
  the slots raise nothing and leave the listener itself alone; messages of other kinds are ignored,
  and after each datagram it waits for the next one.
\<close>

theorem listener_delivers_datagrams:
  assumes "\<not> l_running l" "snd (ensure_open os (l_guard l)) = Return (Inr ())" "outstanding l = 0"
    and "length (l_buffer l) = BUFFER_SIZE" "quiet (l_signals l)"
    and "list_all (\<lambda>msgs. list_all (\<lambda>b. wf_msg b \<and> notification_of ntop b 0 \<noteq> None) msgs
      \<and> length (enc_datagram msgs) \<le> BUFFER_SIZE) mss"
  shows "\<exists>l'. acts (Start os # concat (map (\<lambda>msgs. [Receive (enc_datagram msgs), Run_Handler ntop]) mss)) l = Some l'
    \<and> l_running l' \<and> l_waiting l' = 1 \<and> l_ready l' = []
    \<and> l_app l' = deliver (l_signals l) (notifications ntop (concat mss)) (l_app l)"
  by (rule listener_run [OF assms])

lemma listener_delivers_datagrams_witness:
  "let b = enc_msg RTM_NEWLINK 0 0 0 (enc_ifinfomsg 0 1 2 3 0 @ enc_attrs [(IFLA_IFNAME, [108, 111, 0])]);
       d = enc_msg NLMSG_NOOP 0 0 0 [];
       l = fst (connect_to_link_event (\<lambda>ev w. (w @ [(link_index ev, link_name ev)], Value ())) Sync (listener_init []))
   in \<exists>l'. acts [Start working, Receive (enc_datagram [d, b]), Run_Handler (\<lambda>_ _. None),
        Receive (enc_datagram [b]), Run_Handler (\<lambda>_ _. None)] l = Some l'
      \<and> l_app l' = ([(2, ''lo''), (2, ''lo'')], [])"
proof -
  let ?b = "enc_msg RTM_NEWLINK 0 0 0 (enc_ifinfomsg 0 1 2 3 0 @ enc_attrs [(IFLA_IFNAME, [108, 111, 0])])"
  let ?d = "enc_msg NLMSG_NOOP 0 0 0 []" and ?ntop = "\<lambda>_ _. None :: string option"
  let ?slot = "\<lambda>ev w. (w @ [(link_index ev, link_name ev)], Value ())"
  let ?l = "fst (connect_to_link_event ?slot Sync (listener_init []))"
  have sigs: "connections (on_link_event (l_signals ?l)) = [(0, Sync, ?slot)]"
    "connections (on_address_event (l_signals ?l)) = []" "connections (on_route_event (l_signals ?l)) = []"
    "connections (on_neighbor_event (l_signals ?l)) = []" "connections (on_nlmsgerr_event (l_signals ?l)) = []"
    by (simp_all add: connect_to_link_event_def connect_def listener_init_def signal_init_def)
  have quiet: "quiet (l_signals ?l)"
    unfolding quiet_def sigs by (simp add: never_raises_def)
  have parse: "link_from_nlmsghdr ?b 0 = Some \<lparr>link_type = NEW_LINK, link_index = 2, link_flags = 3,
      link_change = 0, link_name = ''lo''\<rparr>"
    by (subst link_parse_enc) (simp_all add: wf_link_attrs_def wf_attr_def is_ifname_def enc_attrs_def enc_attr_def
        pad4_def cstr_text_def chr_of_byte_def char_of_def bit_Suc_0_iff)
  have n: "notification_of ?ntop ?b 0 = Some (Some (N_Link \<lparr>link_type = NEW_LINK, link_index = 2, link_flags = 3,
      link_change = 0, link_name = ''lo''\<rparr>))" "notification_of ?ntop ?d 0 = Some None"
    using parse by (simp_all add: notification_of_def nlmsghdr_enc_msg)
  have wf: "wf_msg ?b" "wf_msg ?d" by (simp_all add: wf_msg_enc enc_attrs_def enc_attr_def pad4_def)
  have l: "\<not> l_running ?l" "l_buffer ?l = replicate BUFFER_SIZE 0" "l_app ?l = ([], [])" "outstanding ?l = 0"
    "l_guard ?l = socket_guard_init ''nl-listener''"
    by (simp_all add: connect_to_link_event_def listener_init_def connect_def outstanding_def)
  have len: "length (enc_datagram [?d, ?b]) \<le> BUFFER_SIZE" "length (enc_datagram [?b]) \<le> BUFFER_SIZE"
    by (simp_all add: enc_datagram_def pad4_def enc_attrs_def enc_attr_def BUFFER_SIZE_def)
  have all: "list_all (\<lambda>msgs. list_all (\<lambda>b. wf_msg b \<and> notification_of ?ntop b 0 \<noteq> None) msgs
      \<and> length (enc_datagram msgs) \<le> BUFFER_SIZE) [[?d, ?b], [?b]]"
    using n wf len by (simp only: list.pred_inject) simp
  have open_ok: "snd (ensure_open working (l_guard ?l)) = Return (Inr ())"
    unfolding l(5) by (simp add: ensure_open_def socket_defs working_def socket_guard_init_def
        socket_guard_with_mask_def socket_init_def)
  have size: "length (l_buffer ?l) = BUFFER_SIZE" by (simp add: l(2))
  have ns: "notifications ?ntop (concat [[?d, ?b], [?b]]) = replicate 2 (N_Link \<lparr>link_type = NEW_LINK,
      link_index = 2, link_flags = 3, link_change = 0, link_name = ''lo''\<rparr>)"
    by (simp only: notifications_def n list.map option.case concat.simps append_Nil2 append.simps
        numeral_2_eq_2 replicate.simps)
  have "deliver (l_signals ?l) (notifications ?ntop (concat [[?d, ?b], [?b]])) (l_app ?l)
      = ([(2, ''lo''), (2, ''lo'')], [])"
    unfolding deliver_def ns l(3) numeral_2_eq_2 replicate.simps fold.simps notify.simps emit_void_def sigs
    by (simp add: slot_call_void_def emission_def)
  then show ?thesis
    unfolding Let_def
    using listener_delivers_datagrams [OF l(1) open_ok l(4) size quiet all]
    by (simp only: list.map concat.simps append.simps append_Nil2) blast
qed

text \<open>
  C21. Whatever the application and the kernel do, in whatever order, and whatever slots are
  connected that leave the listener itself alone: a running listener has an open socket, and as long
  as it is never started while the handler of an earlier run is still to come, there is at most one
  read of the buffer outstanding.
\<close>

theorem listener_one_read:
  assumes "listener_reachable True l"
  shows "outstanding l \<le> 1 \<and> (l_running l \<longrightarrow> is_open (guard_socket (l_guard l)))
    \<and> length (l_buffer l) = BUFFER_SIZE"
  using reachable_one_read [OF assms] reachable_inv [OF assms] by (simp add: listener_inv_def)

lemma listener_one_read_witness:
  "\<exists>l. listener_reachable True l \<and> l_running l \<and> connections (on_link_event (l_signals l)) = [(0, Sync, keep_index)]
     \<and> outstanding l \<le> 1 \<and> is_open (guard_socket (l_guard l))"
proof -
  obtain g where g: "act (Start working) one_slot = Some (one_slot\<lparr>l_guard := g, l_running := True, l_waiting := Suc 0\<rparr>)"
    using one_slot_started by blast
  let ?l = "one_slot\<lparr>l_guard := g, l_running := True, l_waiting := Suc 0\<rparr>"
  have "listener_reachable True one_slot"
    by (rule listener_reachable.step [OF listener_reachable.start listener_step.listener_step [OF one_slot_connected(1)]])
      (simp add: clean_def)
  then have "listener_reachable True ?l"
    by (rule listener_reachable.step [OF _ listener_step.listener_step [OF g]])
      (simp add: clean_def outstanding_def one_slot_connected(3,4))
  from listener_one_read [OF this] this show ?thesis by (intro exI [of _ ?l]) (simp add: one_slot_connected(2))
qed

text \<open>
  \<open>start()\<close>, a datagram, \<open>stop()\<close> and \<open>start()\<close> again, before the executor has run the handler of
  the first read: once it has, two reads of the one buffer are outstanding, and stay so.
\<close>

theorem restart_two_reads:
  "\<exists>l. acts restart_run (listener_init w) = Some l \<and> listener_reachable False l \<and> l_running l \<and> l_waiting l = 2"
proof -
  obtain l where l: "acts restart_run (listener_init w) = Some l" "l_running l" "l_waiting l = 2"
    using restart_run_reads [of w] by (elim exE conjE) (rule that)
  have "listener_reachable False l"
    by (rule acts_reachable [OF l(1) listener_reachable.start])
  then show ?thesis using l by (intro exI [of _ l]) simp
qed

text \<open>
  C23. A listener whose slots raise nothing and leave the listener itself alone keeps reading: through
  all starts, stops, connections, datagrams and errors of the socket other than an abort that no stop
  has caused, while it is running there is always a read that waits for data, or one that has completed
  and whose handler will ask for the next.
\<close>

theorem listener_keeps_reading:
  assumes "acts as (listener_init w) = Some l" "list_all calm as"
  shows "l_running l \<longrightarrow> 1 \<le> live_reads l"
  using acts_alive [OF assms(1) alive_init assms(2)] by (simp add: alive_def)

lemma listener_keeps_reading_witness:
  "\<exists>l. acts [Connect (To_Link_Event keep_index Sync), Start working, Fail bad_descriptor, Run_Handler (\<lambda>_ _. None)]
      (listener_init []) = Some l
     \<and> connections (on_link_event (l_signals l)) = [(0, Sync, keep_index)] \<and> l_running l \<and> 1 \<le> live_reads l"
proof -
  let ?as = "[Connect (To_Link_Event keep_index Sync), Start working, Fail bad_descriptor, Run_Handler (\<lambda>_ _. None)]"
  obtain g where g: "act (Start working) one_slot = Some (one_slot\<lparr>l_guard := g, l_running := True, l_waiting := Suc 0\<rparr>)"
    and o: "is_open (guard_socket g)"
    using one_slot_started by blast
  let ?l = "one_slot\<lparr>l_guard := g, l_running := True, l_waiting := Suc 0, l_ready := []\<rparr>"
  have f: "act (Fail bad_descriptor) (one_slot\<lparr>l_guard := g, l_running := True, l_waiting := Suc 0\<rparr>)
      = Some (?l\<lparr>l_waiting := 0, l_ready := [(Some bad_descriptor, 0)]\<rparr>)"
    by (simp add: act_def one_slot_connected(4))
  have h: "act (Run_Handler (\<lambda>_ _. None)) (?l\<lparr>l_waiting := 0, l_ready := [(Some bad_descriptor, 0)]\<rparr>) = Some ?l"
    by (simp add: act_def handle_read_def request_read_def o bad_descriptor_def operation_aborted_def)
  have run: "acts ?as (listener_init []) = Some ?l" by (simp only: acts.simps one_slot_connected(1) g f h option.case)
  have "list_all calm ?as"
    by (simp add: bad_descriptor_def operation_aborted_def raises_nothing_def)
  from listener_keeps_reading [OF run this] run show ?thesis by (intro exI [of _ ?l]) (simp add: one_slot_connected(2))
qed

text \<open>
  C24. When a slot raises an exception, it leaves the handler before the next read is requested:
  the listener still says it is running, but there is no read any more, whatever happens, until it
  is stopped.
\<close>

theorem exception_ends_reading:
  assumes "handle_read ntop None bytes l = Some (Some (l', Some e))" "outstanding l = 0"
    and "acts as l' = Some l''" "list_all (\<lambda>a. case a of Stop os \<Rightarrow> False | _ \<Rightarrow> True) as"
  shows "listener_running l'' \<and> outstanding l'' = 0"
  using acts_deaf [OF assms(3) exception_deafens [OF assms(1,2)] assms(4)]
  by (simp add: deaf_def listener_running_def)

lemma exception_ends_reading_witness:
  "let b = enc_msg NLMSG_ERROR 0 0 0 (replicate 20 0);
       l = (fst (connect_to_error (\<lambda>_ w. (w, Raised 7)) Sync (listener_init (0 :: nat))))\<lparr>l_running := True, l_buffer := pad4 b\<rparr>
   in \<exists>l'. handle_read (\<lambda>_ _. None) None 36 l = Some (Some (l', Some 7)) \<and> listener_running l' \<and> outstanding l' = 0"
proof -
  let ?b = "enc_msg NLMSG_ERROR 0 0 0 (replicate 20 0)"
  let ?l = "(fst (connect_to_error (\<lambda>_ w. (w, Raised 7)) Sync (listener_init (0 :: nat))))\<lparr>l_running := True, l_buffer := pad4 ?b\<rparr>"
  have sigs: "connections (on_nlmsgerr_event (l_signals ?l)) = [(0, Sync, \<lambda>_ w. (w, Raised 7))]"
    by (simp add: connect_to_error_def connect_def listener_init_def signal_init_def)
  have len: "length ?b = 36" "nlmsg_len ?b 0 = Some 36" "nlmsg_type ?b 0 = Some NLMSG_ERROR"
    by (simp_all add: nlmsghdr_enc_msg)
  obtain err where err: "rd_nlmsgerr ?b 16 = Some err"
    using len(1) rd32_defined_iff [of ?b 16] rd32_defined_iff [of ?b 20] rd16_defined_iff [of ?b 24]
      rd16_defined_iff [of ?b 26] rd32_defined_iff [of ?b 28] rd32_defined_iff [of ?b 32]
    by (auto simp: rd_nlmsgerr_def rd_nlmsghdr_def nlmsghdr_defs)
  obtain hdr where hdr: "rd_nlmsghdr ?b 0 = Some hdr"
    by (simp add: rd_nlmsghdr_def nlmsghdr_enc_msg)
  have notified: "notification_of (\<lambda>_ _. None) ?b 0 = Some (Some (N_Error err hdr))"
    using err hdr by (simp add: notification_of_def len)
  have h: "handle_message (\<lambda>_ _. None) (l_signals ?l) ?b 0 st = Some (st, Some 7)" for st
  proof -
    have "emission (emit_void (on_nlmsgerr_event (l_signals ?l)) (err, hdr) st) = (st, Some 7)"
      unfolding emit_void_def sigs by (cases st) (simp add: slot_call_void_def emission_def)
    then show ?thesis
      using len handle_message_spec [of ?b 0 "\<lambda>_ _. None" "l_signals ?l" st] notified by simp
  qed
  have run: "run_msgs (handle_message (\<lambda>_ _. None) (l_signals ?l)) [?b] (l_app ?l) = Some (l_app ?l, Some 7)"
    by (simp only: run_msgs.simps h option.case prod.case)
  have emb: "embeds (enc_datagram [?b]) (l_buffer ?l) 0"
    by (rule embedsI [of _ "[]" _ "[]"]) (simp_all add: enc_datagram_def)
  have "wf_msg b" if "b \<in> set [?b]" for b using that by (simp add: wf_msg_enc)
  from dispatch.loop_datagram [OF run this emb] have
    "\<exists>left. nlmsg_loop (handle_message (\<lambda>_ _. None) (l_signals ?l) (l_buffer ?l)) (l_buffer ?l) 0 36 (l_app ?l)
      = Some (Some (l_app ?l, Some 7, left))"
    by (simp add: enc_datagram_def pad4_def)
  then have *: "handle_read (\<lambda>_ _. None) None 36 ?l = Some (Some (?l, Some 7))"
    by (auto simp: handle_read_def process_messages_def)
  have o: "outstanding ?l = 0"
    by (simp add: outstanding_def connect_to_error_def listener_init_def connect_def)
  show ?thesis
    unfolding Let_def using * exception_ends_reading [OF * o, of "[]" ?l] by auto
qed

text \<open>
  C38. Destroying a listener while a read of it is outstanding leaves the handler to the executor, whose
  next turn then uses an object that is gone; without one it is safe, and stopping the listener first
  makes no difference. A running listener whose slots raise nothing always has such a read.
\<close>

theorem destroy_leaves_handler:
  assumes "acts as (listener_init w) = Some l"
  shows "(executor_turn ntop (destroy os l) = None \<longleftrightarrow> outstanding l \<noteq> 0)
    \<and> (executor_turn ntop (destroy os (listener_stop os' l)) = None \<longleftrightarrow> outstanding l \<noteq> 0)
    \<and> (list_all calm as \<and> l_running l \<longrightarrow> outstanding l \<noteq> 0)"
proof -
  have inv: "listener_inv l" by (rule acts_inv [OF assms listener_inv_init])
  have stopped: "listener_inv (listener_stop os' l)" using act_inv [of "Stop os'" l] inv by (simp add: act_def)
  have "outstanding l \<noteq> 0" if "list_all calm as" "l_running l"
    using acts_alive [OF assms alive_init that(1)] that(2) live_reads_outstanding [of l] by (simp add: alive_def)
  then show ?thesis using destroy_turn [OF inv] destroy_turn [OF stopped] stop_outstanding [OF inv] by simp
qed

lemma destroy_leaves_handler_witness:
  "\<exists>l. acts [Connect (To_Link_Event keep_index Sync), Start working] (listener_init []) = Some l
    \<and> executor_turn (\<lambda>_ _. None) (destroy working l) = None
    \<and> executor_turn (\<lambda>_ _. None) (destroy working (listener_stop working l)) = None"
proof -
  let ?as = "[Connect (To_Link_Event keep_index Sync), Start working]"
  obtain g where g: "act (Start working) one_slot = Some (one_slot\<lparr>l_guard := g, l_running := True, l_waiting := Suc 0\<rparr>)"
    using one_slot_started by blast
  let ?l = "one_slot\<lparr>l_guard := g, l_running := True, l_waiting := Suc 0\<rparr>"
  have run: "acts ?as (listener_init []) = Some ?l" by (simp only: acts.simps one_slot_connected(1) g option.case)
  have "list_all calm ?as \<and> l_running ?l" by (simp add: raises_nothing_def)
  with destroy_leaves_handler [OF run, of "\<lambda>_ _. None" working working] run show ?thesis by (intro exI [of _ ?l]) blast
qed

end
