(* ===== verification/Requests.thy ===== *)
theory Requests
  imports Request_Task Link_Event Address_Event Neighbor_Event Route_Event
begin

text \<open>
  The request structs and the base tasks that fill them: \<open>LinkTask\<close>,
  \<open>AddressTask\<close>, \<open>RouteTask\<close> and \<open>NeighborTask\<close>
  (\<open>include/rtaco/tasks/nl_link_task.hxx\<close>, \<open>nl_address_task.hxx\<close>,
  \<open>nl_route_task.hxx\<close>, \<open>nl_neighbor_task.hxx\<close>). A base task is a record that
  extends the one of \<open>RequestTask\<close>, as the class extends it, and is extended by the
  concrete tasks in turn. \<open>request_payload\<close> is the span of the first \<open>nlmsg_len\<close>
  bytes of the struct; it is undefined when the span is longer than the struct.
\<close>

section \<open>Structs and their bytes\<close>

record ifinfomsg =
  ifi_family :: u8
  ifi_type :: u16
  ifi_index :: u32
  ifi_flags :: u32
  ifi_change :: u32

record ifaddrmsg =
  ifa_family :: u8
  ifa_prefixlen :: u8
  ifa_flags :: u8
  ifa_scope :: u8
  ifa_index :: u32

record rtmsg =
  rtm_family :: u8
  rtm_dst_len :: u8
  rtm_src_len :: u8
  rtm_tos :: u8
  rtm_table :: u8
  rtm_protocol :: u8
  rtm_scope :: u8
  rtm_type :: u8
  rtm_flags :: u32

record ndmsg =
  ndm_family :: u8
  ndm_ifindex :: u32
  ndm_state :: u16
  ndm_flags :: u8
  ndm_type :: u8

definition bytes_nlmsghdr :: "nlmsghdr \<Rightarrow> u8 list" where
  "bytes_nlmsghdr h = le32 (hdr_len h) @ le16 (hdr_type h) @ le16 (hdr_flags h) @ le32 (hdr_seq h) @ le32 (hdr_pid h)"

definition bytes_ifinfomsg :: "ifinfomsg \<Rightarrow> u8 list" where
  "bytes_ifinfomsg i = [ifi_family i, 0] @ le16 (ifi_type i) @ le32 (ifi_index i) @ le32 (ifi_flags i) @ le32 (ifi_change i)"

definition bytes_ifaddrmsg :: "ifaddrmsg \<Rightarrow> u8 list" where
  "bytes_ifaddrmsg i = [ifa_family i, ifa_prefixlen i, ifa_flags i, ifa_scope i] @ le32 (ifa_index i)"

definition bytes_rtmsg :: "rtmsg \<Rightarrow> u8 list" where
  "bytes_rtmsg r = [rtm_family r, rtm_dst_len r, rtm_src_len r, rtm_tos r, rtm_table r, rtm_protocol r,
     rtm_scope r, rtm_type r] @ le32 (rtm_flags r)"

definition bytes_ndmsg :: "ndmsg \<Rightarrow> u8 list" where
  "bytes_ndmsg n = [ndm_family n, 0, 0, 0] @ le32 (ndm_ifindex n) @ le16 (ndm_state n) @ [ndm_flags n, ndm_type n]"

definition zero_nlmsghdr :: nlmsghdr where
  "zero_nlmsghdr = \<lparr>hdr_len = 0, hdr_type = 0, hdr_flags = 0, hdr_seq = 0, hdr_pid = 0\<rparr>"

text \<open>A span over the front of an object.\<close>

definition span_of :: "u8 list \<Rightarrow> u32 \<Rightarrow> u8 list ub" where
  "span_of object n = (if unat n \<le> length object then Some (take (unat n) object) else None)"

section \<open>\<open>LinkTask\<close>\<close>

record link_request =
  lreq_header :: nlmsghdr
  lreq_message :: ifinfomsg

record link_task = request_task +
  link_request :: link_request

definition zero_link_request :: link_request where
  "zero_link_request = \<lparr>lreq_header = zero_nlmsghdr,
     lreq_message = \<lparr>ifi_family = 0, ifi_type = 0, ifi_index = 0, ifi_flags = 0, ifi_change = 0\<rparr>\<rparr>"

definition link_request_payload :: "'a link_task_scheme \<Rightarrow> u8 list ub" where
  "link_request_payload t =
     span_of (bytes_nlmsghdr (lreq_header (link_request t)) @ bytes_ifinfomsg (lreq_message (link_request t)))
       (hdr_len (lreq_header (link_request t)))"

definition link_build_request :: "u16 \<Rightarrow> u8 \<Rightarrow> u16 \<Rightarrow> u32 \<Rightarrow> u32 \<Rightarrow> 'a link_task_scheme \<Rightarrow> 'a link_task_scheme" where
  "link_build_request msg_flags family type flags change t = t\<lparr>link_request :=
     \<lparr>lreq_header = (lreq_header (link_request t))
        \<lparr>hdr_len := of_nat (NLMSG_LENGTH sizeof_ifinfomsg), hdr_type := RTM_GETLINK,
         hdr_flags := msg_flags, hdr_seq := sequence t, hdr_pid := 0\<rparr>,
      lreq_message = (lreq_message (link_request t))
        \<lparr>ifi_family := family, ifi_type := type, ifi_index := ucast (ifindex t),
         ifi_flags := flags, ifi_change := change\<rparr>\<rparr>\<rparr>"

section \<open>\<open>AddressTask\<close>\<close>

record address_request =
  areq_header :: nlmsghdr
  areq_message :: ifaddrmsg

record address_task = request_task +
  address_request :: address_request

definition zero_address_request :: address_request where
  "zero_address_request = \<lparr>areq_header = zero_nlmsghdr,
     areq_message = \<lparr>ifa_family = 0, ifa_prefixlen = 0, ifa_flags = 0, ifa_scope = 0, ifa_index = 0\<rparr>\<rparr>"

definition address_request_payload :: "'a address_task_scheme \<Rightarrow> u8 list ub" where
  "address_request_payload t =
     span_of (bytes_nlmsghdr (areq_header (address_request t)) @ bytes_ifaddrmsg (areq_message (address_request t)))
       (hdr_len (areq_header (address_request t)))"

definition address_build_request ::
  "u16 \<Rightarrow> u8 \<Rightarrow> u8 \<Rightarrow> u8 \<Rightarrow> u8 \<Rightarrow> 'a address_task_scheme \<Rightarrow> 'a address_task_scheme" where
  "address_build_request msg_flags family prefixlen ifaflags scope t = t\<lparr>address_request :=
     \<lparr>areq_header = (areq_header (address_request t))
        \<lparr>hdr_len := of_nat (NLMSG_LENGTH sizeof_ifaddrmsg), hdr_type := RTM_GETADDR,
         hdr_flags := msg_flags, hdr_seq := sequence t, hdr_pid := 0\<rparr>,
      areq_message = (areq_message (address_request t))
        \<lparr>ifa_family := family, ifa_prefixlen := prefixlen, ifa_flags := ifaflags,
         ifa_scope := scope, ifa_index := ucast (ifindex t)\<rparr>\<rparr>\<rparr>"

section \<open>\<open>RouteTask\<close>\<close>

record route_request =
  rreq_header :: nlmsghdr
  rreq_message :: rtmsg

record route_task = request_task +
  route_request :: route_request

definition zero_route_request :: route_request where
  "zero_route_request = \<lparr>rreq_header = zero_nlmsghdr,
     rreq_message = \<lparr>rtm_family = 0, rtm_dst_len = 0, rtm_src_len = 0, rtm_tos = 0, rtm_table = 0,
       rtm_protocol = 0, rtm_scope = 0, rtm_type = 0, rtm_flags = 0\<rparr>\<rparr>"

definition route_request_payload :: "'a route_task_scheme \<Rightarrow> u8 list ub" where
  "route_request_payload t =
     span_of (bytes_nlmsghdr (rreq_header (route_request t)) @ bytes_rtmsg (rreq_message (route_request t)))
       (hdr_len (rreq_header (route_request t)))"

definition route_build_request ::
  "u16 \<Rightarrow> u8 \<Rightarrow> u8 \<Rightarrow> u8 \<Rightarrow> u8 \<Rightarrow> 'a route_task_scheme \<Rightarrow> 'a route_task_scheme" where
  "route_build_request msg_flags family table scope protocol t = t\<lparr>route_request :=
     \<lparr>rreq_header = (rreq_header (route_request t))
        \<lparr>hdr_len := of_nat (NLMSG_LENGTH sizeof_rtmsg), hdr_type := RTM_GETROUTE,
         hdr_flags := msg_flags, hdr_seq := sequence t, hdr_pid := 0\<rparr>,
      rreq_message = (rreq_message (route_request t))
        \<lparr>rtm_family := family, rtm_table := table, rtm_scope := scope,
         rtm_protocol := protocol, rtm_type := RTN_UNSPEC\<rparr>\<rparr>\<rparr>"

section \<open>\<open>NeighborTask\<close>\<close>

record neighbor_request =
  nreq_header :: nlmsghdr
  nreq_message :: ndmsg
  nreq_dst_rta_len :: u16
  nreq_dst_rta_type :: u16
  nreq_dst :: "u8 list"

record neighbor_task = request_task +
  neighbor_request :: neighbor_request

definition zero_neighbor_request :: neighbor_request where
  "zero_neighbor_request = \<lparr>nreq_header = zero_nlmsghdr,
     nreq_message = \<lparr>ndm_family = 0, ndm_ifindex = 0, ndm_state = 0, ndm_flags = 0, ndm_type = 0\<rparr>,
     nreq_dst_rta_len = 0, nreq_dst_rta_type = 0, nreq_dst = replicate 16 0\<rparr>"

definition bytes_neighbor_request :: "neighbor_request \<Rightarrow> u8 list" where
  "bytes_neighbor_request r = bytes_nlmsghdr (nreq_header r) @ bytes_ndmsg (nreq_message r)
     @ le16 (nreq_dst_rta_len r) @ le16 (nreq_dst_rta_type r) @ nreq_dst r"

definition neighbor_request_payload :: "'a neighbor_task_scheme \<Rightarrow> u8 list ub" where
  "neighbor_request_payload t =
     span_of (bytes_neighbor_request (neighbor_request t)) (hdr_len (nreq_header (neighbor_request t)))"

text \<open>\<open>address\<close> is a span of 16 bytes, as its type in the source says.\<close>

definition neighbor_build_request ::
  "u16 \<Rightarrow> u16 \<Rightarrow> u16 \<Rightarrow> u8 \<Rightarrow> u8 list \<Rightarrow> 'a neighbor_task_scheme \<Rightarrow> 'a neighbor_task_scheme" where
  "neighbor_build_request msg_type msg_flags state flags address t =
     (let r = (neighbor_request t)
          \<lparr>nreq_header := (nreq_header (neighbor_request t))
             \<lparr>hdr_len := of_nat (NLMSG_LENGTH sizeof_ndmsg), hdr_type := msg_type,
              hdr_flags := msg_flags, hdr_seq := sequence t, hdr_pid := 0\<rparr>,
           nreq_message := (nreq_message (neighbor_request t))
             \<lparr>ndm_family := RTN_UNSPEC, ndm_ifindex := ucast (ifindex t), ndm_state := state,
              ndm_flags := flags, ndm_type := RTN_UNSPEC\<rparr>\<rparr>
      in if ifindex t = 0 then t\<lparr>neighbor_request := r\<rparr>
         else
           let rta_len = of_nat (RTA_LENGTH 16);
               payload = NLMSG_ALIGN (hdr_len (nreq_header r))
           in t\<lparr>neighbor_request := r
                \<lparr>nreq_dst_rta_type := NDA_DST, nreq_dst_rta_len := rta_len, nreq_dst := address,
                 nreq_header := (nreq_header r)\<lparr>hdr_len := payload + RTA_ALIGN (ucast rta_len)\<rparr>\<rparr>\<rparr>)"

section \<open>The requests on the wire\<close>

text \<open>
  What goes out is a message in the format of the kernel: the payload has exactly the length its
  header gives, so the span never runs past the struct.
\<close>

lemma span_of_exact: "unat n = length object \<Longrightarrow> span_of object n = Some object"
  by (simp add: span_of_def)

lemma bytes_nlmsghdr_enc:
  "bytes_nlmsghdr h = enc_nlmsghdr (hdr_len h) (hdr_type h) (hdr_flags h) (hdr_seq h) (hdr_pid h)"
  by (simp add: bytes_nlmsghdr_def enc_nlmsghdr_def)

lemma link_payload:
  "link_request_payload (link_build_request msg_flags family type flags change t)
   = Some (enc_msg RTM_GETLINK msg_flags (sequence t) 0
       (enc_ifinfomsg family type (ucast (ifindex t)) flags change))"
  unfolding link_request_payload_def link_build_request_def
  by (subst span_of_exact)
    (simp_all add: bytes_nlmsghdr_enc bytes_ifinfomsg_def enc_ifinfomsg_def enc_msg_def NLMSG_LENGTH_def)

lemma address_payload:
  "address_request_payload (address_build_request msg_flags family prefixlen flags scope t)
   = Some (enc_msg RTM_GETADDR msg_flags (sequence t) 0
       (enc_ifaddrmsg family prefixlen flags scope (ucast (ifindex t))))"
  unfolding address_request_payload_def address_build_request_def
  by (subst span_of_exact)
    (simp_all add: bytes_nlmsghdr_enc bytes_ifaddrmsg_def enc_ifaddrmsg_def enc_msg_def NLMSG_LENGTH_def)

lemma route_payload:
  assumes "route_request t = zero_route_request"
  shows "route_request_payload (route_build_request msg_flags family table scope protocol t)
   = Some (enc_msg RTM_GETROUTE msg_flags (sequence t) 0
       (enc_rtmsg family 0 0 0 table protocol scope RTN_UNSPEC 0))"
  unfolding route_request_payload_def route_build_request_def
  by (subst span_of_exact)
    (simp_all add: assms zero_route_request_def bytes_nlmsghdr_enc bytes_rtmsg_def enc_rtmsg_def
      enc_msg_def NLMSG_LENGTH_def)

text \<open>Even a reused struct goes out as one message (of its 28 bytes).\<close>

lemma route_payload_wf:
  "\<exists>body. length body = sizeof_rtmsg \<and>
     route_request_payload (route_build_request msg_flags family table scope protocol t)
     = Some (enc_msg RTM_GETROUTE msg_flags (sequence t) 0 body)"
  unfolding route_request_payload_def route_build_request_def
  by (subst span_of_exact)
    (auto simp: bytes_nlmsghdr_enc bytes_rtmsg_def enc_msg_def NLMSG_LENGTH_def)

lemma neighbor_payload_all:
  assumes "ifindex t = 0" "length (nreq_dst (neighbor_request t)) = 16"
  shows "neighbor_request_payload (neighbor_build_request msg_type msg_flags state flags address t)
   = Some (enc_msg msg_type msg_flags (sequence t) 0 (enc_ndmsg 0 0 state flags 0))"
  unfolding neighbor_request_payload_def neighbor_build_request_def span_of_def
  using assms
  by (simp add: Let_def bytes_neighbor_request_def bytes_nlmsghdr_enc bytes_ndmsg_def enc_ndmsg_def
      enc_msg_def NLMSG_LENGTH_def)

lemma neighbor_payload:
  assumes "ifindex t \<noteq> 0" "length address = 16"
  shows "neighbor_request_payload (neighbor_build_request msg_type msg_flags state flags address t)
   = Some (enc_msg msg_type msg_flags (sequence t) 0
       (enc_ndmsg 0 (ucast (ifindex t)) state flags 0 @ enc_attrs [(NDA_DST, address)]))"
proof -
  have "RTA_ALIGN (20 :: u32) = 20" "NLMSG_ALIGN (28 :: u32) = 28"
    by (simp_all add: RTA_ALIGN_def NLMSG_ALIGN_def)
  then show ?thesis
    unfolding neighbor_request_payload_def neighbor_build_request_def Let_def
    using assms
    by (subst span_of_exact)
      (simp_all add: bytes_neighbor_request_def bytes_nlmsghdr_enc bytes_ndmsg_def
        enc_ndmsg_def enc_msg_def NLMSG_LENGTH_def RTA_LENGTH_def enc_attr_def pad4_def attr_len_def)
qed

end
