(* ===== verification/Dump_Task.thy ===== *)
theory Dump_Task
  imports Requests
begin

text \<open>
  What the four dump tasks (\<open>src/tasks/nl_link_dump_task.cxx\<close>,
  \<open>nl_address_dump_task.cxx\<close>, \<open>nl_neighbor_dump_task.cxx\<close>,
  \<open>nl_route_dump_task.cxx\<close>) have in common: the error code of a \<open>NLMSG_ERROR\<close>
  message, and the contract of a dump: events are learned from the messages of one type, filtered,
  and handed over at the end of the dump or at an acknowledgement.
\<close>

section \<open>Error messages\<close>

text \<open>
  \<open>err->error\<close> is a signed 32-bit field, and its negation overflows for the least of them.
  \<open>err\<close> is the address of a member of the message and never null, so the \<open>EPROTO\<close>
  branch of the handlers is dead.
\<close>

definition nlmsgerr_error :: "mem \<Rightarrow> ptr \<Rightarrow> int ub" where
  "nlmsgerr_error m header = do {
     e \<leftarrow> rd32 m (NLMSG_DATA header);
     Some (sint e) }"

definition nlmsgerr_code :: "mem \<Rightarrow> ptr \<Rightarrow> error_code ub" where
  "nlmsgerr_code m header = do {
     e \<leftarrow> nlmsgerr_error m header;
     code \<leftarrow> s32_uminus e;
     Some (Error_Code Generic_Category code) }"

lemma nlmsgerr_code_frame [frame]:
  "embeds b m d \<Longrightarrow> q = d + p \<Longrightarrow> ub_le (nlmsgerr_code b p) (nlmsgerr_code m q)"
  unfolding nlmsgerr_code_def nlmsgerr_error_def
  by (rule frame | assumption | simp add: NLMSG_DATA_def)+

text \<open>The kernel's messages: a negative error number, or 0 for an acknowledgement.\<close>

definition enc_error :: "u32 \<Rightarrow> u32 \<Rightarrow> int \<Rightarrow> u8 list \<Rightarrow> u8 list" where
  "enc_error seq pid error rest = enc_msg NLMSG_ERROR 0 seq pid (le32 (word_of_int error) @ rest)"

lemma nlmsgerr_code_enc:
  assumes "- (2 ^ 31) < error" "error < 2 ^ 31"
  shows "nlmsgerr_code (enc_error seq pid error rest) 0 = Some (Error_Code Generic_Category (- error))"
proof -
  have "rd32 (enc_error seq pid error rest) 16 = Some (word_of_int error)"
    unfolding enc_error_def enc_msg_def by (intro rd32_le32) simp
  moreover have "sint (word_of_int error :: u32) = error"
    using assms by (simp add: signed_of_int signed_take_bit_int_eq_self)
  ultimately show ?thesis
    using assms by (simp add: nlmsgerr_code_def nlmsgerr_error_def NLMSG_DATA_def s32_uminus_def s32_minus_def)
qed

lemma enc_error_hdr:
  "nlmsg_type (enc_error seq pid error rest) 0 = Some NLMSG_ERROR"
  "nlmsg_seq (enc_error seq pid error rest) 0 = Some seq"
  unfolding enc_error_def by (rule nlmsghdr_enc_msg)+

section \<open>What a dump yields\<close>

definition kept_events :: "(mem \<Rightarrow> ptr \<Rightarrow> 'ev ub) \<Rightarrow> ('ev \<Rightarrow> bool) \<Rightarrow> u16 \<Rightarrow> u8 list list \<Rightarrow> 'ev list" where
  "kept_events parse keep new_type msgs =
     filter keep (map (\<lambda>b. the (parse b 0)) (filter (\<lambda>b. nlmsg_type b 0 = Some new_type) msgs))"

text \<open>A message in the middle of a dump, which the parser can read when it is one of the dump's type.\<close>

definition dump_entry :: "(mem \<Rightarrow> ptr \<Rightarrow> 'ev ub) \<Rightarrow> u16 \<Rightarrow> u8 list \<Rightarrow> bool" where
  "dump_entry parse new_type b \<longleftrightarrow>
     (\<exists>ty. nlmsg_type b 0 = Some ty \<and> ty \<noteq> NLMSG_DONE \<and> ty \<noteq> NLMSG_ERROR
       \<and> (ty = new_type \<longrightarrow> (\<exists>ev. parse b 0 = Some ev)))"

lemma kept_events_simps [simp]:
  "kept_events parse keep new_type [] = []"
  "kept_events parse keep new_type (b # bs) =
     (if nlmsg_type b 0 = Some new_type \<and> keep (the (parse b 0)) then [the (parse b 0)] else [])
       @ kept_events parse keep new_type bs"
  by (simp_all add: kept_events_def)

locale dump_task = request_behavior process prepare_request request_payload seq_of valid
  for process :: "mem \<Rightarrow> ptr \<Rightarrow> 's \<Rightarrow> ('s \<times> 'ev list expected option) ub"
    and prepare_request request_payload seq_of valid +
  fixes parse :: "mem \<Rightarrow> ptr \<Rightarrow> 'ev ub"
    and keep :: "'ev \<Rightarrow> bool"
    and new_type :: u16
    and learned :: "'s \<Rightarrow> 'ev list"
    and with_learned :: "'ev list \<Rightarrow> 's \<Rightarrow> 's"
  assumes learned_with [simp]: "learned (with_learned evs s) = evs"
    and with_with [simp]: "with_learned evs (with_learned evs' s) = with_learned evs s"
    and with_same [simp]: "with_learned (learned s) s = s"
    and process_done: "nlmsg_seq m h = Some (seq_of s) \<Longrightarrow> nlmsg_type m h = Some NLMSG_DONE \<Longrightarrow>
      process m h s = Some (with_learned [] s, Some (Inr (learned s)))"
    and process_error: "nlmsg_seq m h = Some (seq_of s) \<Longrightarrow> nlmsg_type m h = Some NLMSG_ERROR \<Longrightarrow>
      nlmsgerr_code m h = Some ec \<Longrightarrow>
      process m h s = Some (if error_value ec = 0 then (with_learned [] s, Some (Inr (learned s)))
        else (s, Some (Inl ec)))"
    and process_new: "nlmsg_seq m h = Some (seq_of s) \<Longrightarrow> nlmsg_type m h = Some new_type \<Longrightarrow>
      parse m h = Some ev \<Longrightarrow>
      process m h s = Some (if keep ev then with_learned (learned s @ [ev]) s else s, None)"
    and process_ignored: "nlmsg_seq m h = Some (seq_of s) \<Longrightarrow> nlmsg_type m h = Some ty \<Longrightarrow>
      ty \<noteq> NLMSG_DONE \<Longrightarrow> ty \<noteq> NLMSG_ERROR \<Longrightarrow> ty \<noteq> new_type \<Longrightarrow> process m h s = Some (s, None)"
    and process_keeps: "(\<forall>ev \<in> set (learned s). keep ev) \<Longrightarrow> process m h s = Some (s', r) \<Longrightarrow>
      (\<forall>ev \<in> set (learned s'). keep ev) \<and> (\<forall>evs. r = Some (Inr evs) \<longrightarrow> (\<forall>ev \<in> set evs. keep ev))"
begin

lemma run_entries:
  assumes "\<And>b. b \<in> set ms \<Longrightarrow> dump_entry parse new_type b \<and> own (seq_of s) b"
  shows "run_msgs process ms s = Some (with_learned (learned s @ kept_events parse keep new_type ms) s, None)"
  using assms
proof (induction ms arbitrary: s)
  case Nil
  then show ?case by simp
next
  case (Cons b bs)
  obtain ty where ty: "nlmsg_type b 0 = Some ty" "ty \<noteq> NLMSG_DONE" "ty \<noteq> NLMSG_ERROR"
    and ev: "ty = new_type \<Longrightarrow> \<exists>ev. parse b 0 = Some ev" and seq: "nlmsg_seq b 0 = Some (seq_of s)"
    using Cons.prems [of b] by (auto simp: dump_entry_def)
  show ?case
  proof (cases "ty = new_type")
    case True
    then obtain ev where ev: "parse b 0 = Some ev" using ev by blast
    let ?s = "if keep ev then with_learned (learned s @ [ev]) s else s"
    have p: "process b 0 s = Some (?s, None)"
      using process_new [OF seq _ ev] ty(1) True by simp
    have "run_msgs process bs ?s = Some (with_learned (learned ?s @ kept_events parse keep new_type bs) ?s, None)"
      using Cons.prems process_seq [OF p] by (intro Cons.IH) simp
    with p show ?thesis using ty(1) True ev by simp
  next
    case False
    then have p: "process b 0 s = Some (s, None)" by (rule process_ignored [OF seq ty])
    then show ?thesis using Cons.IH [of s] Cons.prems ty(1) False by simp
  qed
qed

text \<open>Until the end of the dump nothing is handed over; at its end, everything learned is.\<close>

lemma run_done:
  assumes "\<And>b. b \<in> set ms \<Longrightarrow> dump_entry parse new_type b \<and> own (seq_of s) b"
    and "own (seq_of s) d" "nlmsg_type d 0 = Some NLMSG_DONE"
  shows "run_msgs process (ms @ d # rest) s
    = Some (with_learned [] s, Some (Inr (learned s @ kept_events parse keep new_type ms)))"
proof -
  have run: "run_msgs process ms s = Some (with_learned (learned s @ kept_events parse keep new_type ms) s, None)"
    by (rule run_entries [OF assms(1)])
  show ?thesis
    using process_done [OF assms(2) [folded run_msgs_seq [OF run]] assms(3)] run by (simp add: run_msgs_append)
qed

lemma run_error:
  assumes "\<And>b. b \<in> set ms \<Longrightarrow> dump_entry parse new_type b \<and> own (seq_of s) b"
    and "own (seq_of s) d" "nlmsg_type d 0 = Some NLMSG_ERROR" "nlmsgerr_code d 0 = Some ec" "error_value ec \<noteq> 0"
  shows "\<exists>s'. run_msgs process (ms @ d # rest) s = Some (s', Some (Inl ec))"
proof -
  have run: "run_msgs process ms s = Some (with_learned (learned s @ kept_events parse keep new_type ms) s, None)"
    by (rule run_entries [OF assms(1)])
  show ?thesis
    using process_error [OF assms(2) [folded run_msgs_seq [OF run]] assms(3,4)] assms(5) run
    by (simp add: run_msgs_append)
qed

text \<open>The whole dump.\<close>

lemma dump_done:
  assumes "valid s" "wf_answer (length buffer) mss"
    and "filter (own (seq_of s)) (concat mss) = ms @ d # rest"
    and "\<And>b. b \<in> set ms \<Longrightarrow> dump_entry parse new_type b"
    and "nlmsg_type d 0 = Some NLMSG_DONE"
    and "request_payload (prepare_request s) = Some bytes" "length bytes \<le> sum_list ns"
  shows "async_run prepare_request request_payload process buffer s (map Sent ns) (answers mss)
    = Some (Some (bytes, with_learned [] (prepare_request s),
        Some (Inr (learned (prepare_request s) @ kept_events parse keep new_type ms))))"
proof -
  have "set (ms @ d # rest) \<subseteq> {b. own (seq_of s) b}"
    unfolding assms(3) [symmetric] by auto
  then have "run_msgs process (filter (own (seq_of s)) (concat mss)) (prepare_request s)
      = Some (with_learned [] (prepare_request s),
          Some (Inr (learned (prepare_request s) @ kept_events parse keep new_type ms)))"
    unfolding assms(3) using assms(4,5) by (intro run_done) (auto simp: prepare_seq)
  from exchange [OF assms(1) this assms(2)] assms(6,7) show ?thesis by auto
qed

lemma dump_error:
  assumes "valid s" "wf_answer (length buffer) mss"
    and "filter (own (seq_of s)) (concat mss) = ms @ d # rest"
    and "\<And>b. b \<in> set ms \<Longrightarrow> dump_entry parse new_type b"
    and "nlmsg_type d 0 = Some NLMSG_ERROR" "nlmsgerr_code d 0 = Some ec" "error_value ec \<noteq> 0"
    and "request_payload (prepare_request s) = Some bytes" "length bytes \<le> sum_list ns"
  shows "\<exists>s'. async_run prepare_request request_payload process buffer s (map Sent ns) (answers mss)
    = Some (Some (bytes, s', Some (Inl ec)))"
proof -
  have "set (ms @ d # rest) \<subseteq> {b. own (seq_of s) b}"
    unfolding assms(3) [symmetric] by auto
  then have "\<exists>s'. run_msgs process (filter (own (seq_of s)) (concat mss)) (prepare_request s)
      = Some (s', Some (Inl ec))"
    unfolding assms(3) using assms(4-7) by (intro run_error) (auto simp: prepare_seq)
  then obtain s' where "run_msgs process (filter (own (seq_of s)) (concat mss)) (prepare_request s)
      = Some (s', Some (Inl ec))" by blast
  from exchange [OF assms(1) this assms(2)] assms(8,9) show ?thesis by auto
qed

text \<open>Whatever is received: what a dump hands over has passed the filter.\<close>

lemma dump_keeps:
  assumes "async_run prepare_request request_payload process buffer s sends recvs
      = Some (Some (wire, s', Some (Inr evs)))"
    and "learned (prepare_request s) = []"
  shows "\<forall>ev \<in> set evs. keep ev"
proof -
  let ?I = "\<lambda>s. \<forall>ev \<in> set (learned s). keep ev"
  let ?Q = "\<lambda>x :: 'ev list expected. \<forall>evs. x = Inr evs \<longrightarrow> (\<forall>ev \<in> set evs. keep ev)"
  have "?I s' \<and> (\<forall>x. Some (Inr evs) = Some x \<longrightarrow> ?Q x)"
  proof (rule async_run_invariant [where I = ?I and Q = ?Q, OF assms(1)])
    show "?I (prepare_request s)" using assms(2) by simp
    show "?I s' \<and> (\<forall>x. r = Some x \<longrightarrow> ?Q x)" if "?I s" "process m h s = Some (s', r)" for m h s s' r
      using process_keeps [OF that] by blast
    show "?Q (Inl (Error_Code Generic_Category ec))" for ec by simp
  qed
  then show ?thesis by blast
qed

end

end
