(* ===== verification/Link_Dump_Task.thy ===== *)
theory Link_Dump_Task
  imports Dump_Task
begin

text \<open>
  \<open>LinkDumpTask\<close> (\<open>include/rtaco/tasks/nl_link_dump_task.hxx\<close>,
  \<open>src/tasks/nl_link_dump_task.cxx\<close>).
\<close>

record link_dump_task = link_task +
  link_learned :: "link_event list"

definition link_dump_init :: "u16 \<Rightarrow> u32 \<Rightarrow> link_dump_task" where
  "link_dump_init index seq = \<lparr>ifindex = index, sequence = seq,
     link_request = zero_link_request, link_learned = []\<rparr>"

definition link_dump_prepare_request :: "link_dump_task \<Rightarrow> link_dump_task" where
  "link_dump_prepare_request t =
     link_build_request (NLM_F_REQUEST OR NLM_F_DUMP) AF_UNSPEC 0 0 0 (t\<lparr>link_request := zero_link_request\<rparr>)"

definition link_dump_handle_done :: "link_dump_task \<Rightarrow> link_dump_task \<times> link_event list expected" where
  "link_dump_handle_done t = (t\<lparr>link_learned := []\<rparr>, Inr (link_learned t))"

definition link_dump_handle_error ::
  "mem \<Rightarrow> ptr \<Rightarrow> link_dump_task \<Rightarrow> (link_dump_task \<times> link_event list expected) ub" where
  "link_dump_handle_error m header t = do {
     error_code \<leftarrow> nlmsgerr_code m header;
     Some (if error_value error_code = 0
           then (t\<lparr>link_learned := []\<rparr>, Inr (link_learned t))
           else (t, Inl error_code)) }"

definition link_dump_dispatch ::
  "mem \<Rightarrow> ptr \<Rightarrow> link_dump_task \<Rightarrow> (link_dump_task \<times> link_event list expected option) ub" where
  "link_dump_dispatch m header t = do {
     event \<leftarrow> link_from_nlmsghdr m header;
     Some (if link_type event \<noteq> NEW_LINK then (t, None)
           else if link_index event \<le> 0 then (t, None)
           else if link_index event > 65535 then (t, None)
           else (t\<lparr>link_learned := link_learned t @ [event]\<rparr>, None)) }"

definition link_dump_process_message ::
  "mem \<Rightarrow> ptr \<Rightarrow> link_dump_task \<Rightarrow> (link_dump_task \<times> link_event list expected option) ub" where
  "link_dump_process_message m header t = do {
     seq \<leftarrow> nlmsg_seq m header;
     if seq \<noteq> sequence t then Some (t, None)
     else do {
       ty \<leftarrow> nlmsg_type m header;
       if ty = NLMSG_DONE then Some (map_prod id Some (link_dump_handle_done t))
       else if ty = NLMSG_ERROR then map_option (map_prod id Some) (link_dump_handle_error m header t)
       else if ty = RTM_NEWLINK then link_dump_dispatch m header t
       else Some (t, None) } }"

text \<open>The filter of the dispatch.\<close>

definition link_keep :: "link_event \<Rightarrow> bool" where
  "link_keep ev \<longleftrightarrow> link_type ev = NEW_LINK \<and> 0 < link_index ev \<and> link_index ev \<le> 65535"

section \<open>The contract of a dump\<close>

lemmas link_dump_defs = link_dump_process_message_def link_dump_handle_done_def
  link_dump_handle_error_def link_dump_dispatch_def

lemma link_dump_frame:
  assumes "embeds b m d" "q = d + p"
  shows "ub_le (link_dump_process_message b p s) (link_dump_process_message m q s)"
  unfolding link_dump_defs
  by (rule frame link_frame assms | assumption | simp add: assms(2))+

lemma link_dump_payload:
  "link_request_payload (link_dump_prepare_request t)
   = Some (enc_msg RTM_GETLINK 0x301 (sequence t) 0 (enc_ifinfomsg 0 0 (ucast (ifindex t)) 0 0))"
  by (simp add: link_dump_prepare_request_def link_payload)

lemma link_dump_prepare_simps [simp]:
  "sequence (link_dump_prepare_request t) = sequence t"
  "ifindex (link_dump_prepare_request t) = ifindex t"
  "link_learned (link_dump_prepare_request t) = link_learned t"
  by (simp_all add: link_dump_prepare_request_def link_build_request_def)

lemma link_dump_dispatch_eq:
  "link_dump_dispatch m header t = map_option
     (\<lambda>ev. (if link_keep ev then t\<lparr>link_learned := link_learned t @ [ev]\<rparr> else t, None))
     (link_from_nlmsghdr m header)"
  by (cases "link_from_nlmsghdr m header")
    (simp_all add: link_dump_dispatch_def link_keep_def not_le [symmetric])

interpretation link_dump: dump_task link_dump_process_message link_dump_prepare_request
  link_request_payload sequence "\<lambda>_. True" link_from_nlmsghdr link_keep RTM_NEWLINK
  link_learned "\<lambda>evs. link_learned_update (\<lambda>_. evs)"
proof unfold_locales
  show "ub_le (link_dump_process_message b p s) (link_dump_process_message m q s)"
    if "embeds b m d" "q = d + p" for b m d q p s
    using that by (rule link_dump_frame)
  show "\<exists>bytes. link_request_payload (link_dump_prepare_request s) = Some bytes \<and> wf_msg bytes
      \<and> nlmsg_seq bytes 0 = Some (sequence s)" for s
    by (simp add: link_dump_payload wf_msg_enc nlmsghdr_enc_msg)
qed (auto simp: link_dump_process_message_def link_dump_handle_done_def
    link_dump_handle_error_def link_dump_dispatch_eq bind_eq_Some_conv split: if_splits)

section \<open>A dump of the kernel's links\<close>

text \<open>
  A link as the kernel reports it: flags and port of the message header, the struct and the
  attributes.
\<close>

type_synonym link_entry = "u16 \<times> u32 \<times> ifinfomsg \<times> attr list"

definition enc_link_entry :: "u32 \<Rightarrow> link_entry \<Rightarrow> u8 list" where
  "enc_link_entry seq = (\<lambda>(fl, pid, i, as). enc_msg RTM_NEWLINK fl seq pid (bytes_ifinfomsg i @ enc_attrs as))"

definition link_of_entry :: "link_entry \<Rightarrow> link_event" where
  "link_of_entry = (\<lambda>(fl, pid, i, as). \<lparr>link_type = NEW_LINK, link_index = sint (ifi_index i),
     link_flags = ifi_flags i, link_change = ifi_change i, link_name = first_ifname as\<rparr>)"

definition wf_link_entry :: "link_entry \<Rightarrow> bool" where
  "wf_link_entry = (\<lambda>(fl, pid, i, as). wf_link_attrs as)"

lemma link_entry_parse:
  assumes "wf_link_entry e"
  shows "link_from_nlmsghdr (enc_link_entry seq e) 0 = Some (link_of_entry e)"
  using assms link_parse_enc [of RTM_NEWLINK]
  by (cases e) (simp add: enc_link_entry_def link_of_entry_def wf_link_entry_def bytes_ifinfomsg_def enc_ifinfomsg_def)

lemma link_entry_hdr:
  "nlmsg_type (enc_link_entry seq e) 0 = Some RTM_NEWLINK" "nlmsg_seq (enc_link_entry seq e) 0 = Some seq"
  by (cases e; simp add: enc_link_entry_def nlmsghdr_enc_msg)+

lemma link_entries_kept:
  assumes "\<And>e. e \<in> set es \<Longrightarrow> wf_link_entry e"
  shows "kept_events link_from_nlmsghdr link_keep RTM_NEWLINK (map (enc_link_entry seq) es)
    = filter link_keep (map link_of_entry es)"
  using assms by (induction es) (simp_all add: link_entry_hdr link_entry_parse)

lemma link_dump_init_simps [simp]:
  "sequence (link_dump_init index seq) = seq" "ifindex (link_dump_init index seq) = index"
  "link_learned (link_dump_init index seq) = []"
  "link_request (link_dump_init index seq) = zero_link_request"
  by (simp_all add: link_dump_init_def)

lemma link_entry_dump_entry:
  "wf_link_entry e \<Longrightarrow> dump_entry link_from_nlmsghdr RTM_NEWLINK (enc_link_entry seq e)"
  by (simp add: dump_entry_def link_entry_hdr link_entry_parse)

text \<open>What a dump task gets back from the kernel, when the dump is complete.\<close>

lemma link_dump_answered:
  assumes "wf_answer (length buffer) mss"
    and "filter (\<lambda>b. nlmsg_seq b 0 = Some seq) (concat mss) = map (enc_link_entry seq) es @ d # rest"
    and "\<And>e. e \<in> set es \<Longrightarrow> wf_link_entry e"
    and "nlmsg_type d 0 = Some NLMSG_DONE"
    and "link_request_payload (link_dump_prepare_request (link_dump_init index seq)) = Some bytes"
    and "length bytes \<le> sum_list ns"
  shows "\<exists>t. async_run link_dump_prepare_request link_request_payload link_dump_process_message
      buffer (link_dump_init index seq) (map Sent ns) (answers mss)
    = Some (Some (bytes, t, Some (Inr (filter link_keep (map link_of_entry es)))))"
proof -
  let ?t = "link_dump_init index seq"
  have f: "filter (\<lambda>b. nlmsg_seq b 0 = Some (sequence ?t)) (concat mss)
      = map (enc_link_entry seq) es @ d # rest"
    using assms(2) by simp
  have e: "dump_entry link_from_nlmsghdr RTM_NEWLINK b" if "b \<in> set (map (enc_link_entry seq) es)" for b
    using that assms(3) link_entry_dump_entry by auto
  show ?thesis
    using link_dump.dump_done [OF TrueI assms(1) f e assms(4-6)]
    by (simp add: link_entries_kept [OF assms(3)])
qed

text \<open>And when the kernel reports an error.\<close>

lemma link_dump_refused:
  assumes "wf_answer (length buffer) mss"
    and "filter (\<lambda>b. nlmsg_seq b 0 = Some seq) (concat mss)
      = map (enc_link_entry seq) es @ enc_error seq pid error payload # rest"
    and "\<And>e. e \<in> set es \<Longrightarrow> wf_link_entry e"
    and "- (2 ^ 31) < error" "error < 0"
    and "link_request_payload (link_dump_prepare_request (link_dump_init index seq)) = Some bytes"
    and "length bytes \<le> sum_list ns"
  shows "\<exists>t. async_run link_dump_prepare_request link_request_payload link_dump_process_message
      buffer (link_dump_init index seq) (map Sent ns) (answers mss)
    = Some (Some (bytes, t, Some (Inl (Error_Code Generic_Category (- error)))))"
proof -
  let ?t = "link_dump_init index seq"
  have f: "filter (\<lambda>b. nlmsg_seq b 0 = Some (sequence ?t)) (concat mss)
      = map (enc_link_entry seq) es @ enc_error seq pid error payload # rest"
    using assms(2) by simp
  have e: "dump_entry link_from_nlmsghdr RTM_NEWLINK b" if "b \<in> set (map (enc_link_entry seq) es)" for b
    using that assms(3) link_entry_dump_entry by auto
  have code: "nlmsgerr_code (enc_error seq pid error payload) 0 = Some (Error_Code Generic_Category (- error))"
    using assms(4,5) by (intro nlmsgerr_code_enc) simp_all
  have nonzero: "error_value (Error_Code Generic_Category (- error)) \<noteq> 0"
    using assms(5) by simp
  show ?thesis
    by (rule link_dump.dump_error [OF TrueI assms(1) f e enc_error_hdr(1) code nonzero assms(6,7)])
qed

end
