(* ===== verification/Address_Dump_Task.thy ===== *)
theory Address_Dump_Task
  imports Dump_Task
begin

text \<open>
  \<open>AddressDumpTask\<close> (\<open>include/rtaco/tasks/nl_address_dump_task.hxx\<close>,
  \<open>src/tasks/nl_address_dump_task.cxx\<close>).
\<close>

record address_dump_task = address_task +
  address_learned :: "address_event list"

definition address_dump_init :: "u16 \<Rightarrow> u32 \<Rightarrow> address_dump_task" where
  "address_dump_init index seq = \<lparr>ifindex = index, sequence = seq,
     address_request = zero_address_request, address_learned = []\<rparr>"

definition address_dump_prepare_request :: "address_dump_task \<Rightarrow> address_dump_task" where
  "address_dump_prepare_request t =
     address_build_request (NLM_F_REQUEST OR NLM_F_DUMP) RTN_UNSPEC 0 0 RT_SCOPE_UNIVERSE t"

definition address_dump_handle_done :: "address_dump_task \<Rightarrow> address_dump_task \<times> address_event list expected" where
  "address_dump_handle_done t = (t\<lparr>address_learned := []\<rparr>, Inr (address_learned t))"

definition address_dump_handle_error ::
  "mem \<Rightarrow> ptr \<Rightarrow> address_dump_task \<Rightarrow> (address_dump_task \<times> address_event list expected) ub" where
  "address_dump_handle_error m header t = do {
     error_code \<leftarrow> nlmsgerr_code m header;
     Some (if error_value error_code = 0
           then (t\<lparr>address_learned := []\<rparr>, Inr (address_learned t))
           else (t, Inl error_code)) }"

definition address_dump_dispatch ::
  "inet_ntop \<Rightarrow> mem \<Rightarrow> ptr \<Rightarrow> address_dump_task \<Rightarrow> (address_dump_task \<times> address_event list expected option) ub" where
  "address_dump_dispatch ntop m header t = do {
     event \<leftarrow> address_from_nlmsghdr ntop m header;
     Some (if address_type event \<noteq> NEW_ADDRESS then (t, None)
           else if address_index event \<le> 0 then (t, None)
           else if address_index event > 65535 then (t, None)
           else (t\<lparr>address_learned := address_learned t @ [event]\<rparr>, None)) }"

definition address_dump_process_message ::
  "inet_ntop \<Rightarrow> mem \<Rightarrow> ptr \<Rightarrow> address_dump_task \<Rightarrow> (address_dump_task \<times> address_event list expected option) ub" where
  "address_dump_process_message ntop m header t = do {
     seq \<leftarrow> nlmsg_seq m header;
     if seq \<noteq> sequence t then Some (t, None)
     else do {
       ty \<leftarrow> nlmsg_type m header;
       if ty = NLMSG_DONE then Some (map_prod id Some (address_dump_handle_done t))
       else if ty = NLMSG_ERROR then map_option (map_prod id Some) (address_dump_handle_error m header t)
       else if ty = RTM_NEWADDR then address_dump_dispatch ntop m header t
       else Some (t, None) } }"

text \<open>The filter of the dispatch.\<close>

definition address_keep :: "address_event \<Rightarrow> bool" where
  "address_keep ev \<longleftrightarrow> address_type ev = NEW_ADDRESS \<and> 0 < address_index ev \<and> address_index ev \<le> 65535"

section \<open>The contract of a dump\<close>

lemmas address_dump_defs = address_dump_process_message_def address_dump_handle_done_def
  address_dump_handle_error_def address_dump_dispatch_def

lemma address_dump_frame:
  assumes "embeds b m d" "q = d + p"
  shows "ub_le (address_dump_process_message ntop b p s) (address_dump_process_message ntop m q s)"
  unfolding address_dump_defs
  by (rule frame address_frame assms | assumption | simp add: assms(2))+

lemma address_dump_payload:
  "address_request_payload (address_dump_prepare_request t)
   = Some (enc_msg RTM_GETADDR 0x301 (sequence t) 0 (enc_ifaddrmsg 0 0 0 0 (ucast (ifindex t))))"
  by (simp add: address_dump_prepare_request_def address_payload)

lemma address_dump_prepare_simps [simp]:
  "sequence (address_dump_prepare_request t) = sequence t"
  "ifindex (address_dump_prepare_request t) = ifindex t"
  "address_learned (address_dump_prepare_request t) = address_learned t"
  by (simp_all add: address_dump_prepare_request_def address_build_request_def)

lemma address_dump_dispatch_eq:
  "address_dump_dispatch ntop m header t = map_option
     (\<lambda>ev. (if address_keep ev then t\<lparr>address_learned := address_learned t @ [ev]\<rparr> else t, None))
     (address_from_nlmsghdr ntop m header)"
  by (cases "address_from_nlmsghdr ntop m header")
    (simp_all add: address_dump_dispatch_def address_keep_def not_le [symmetric])

interpretation address_dump: dump_task "address_dump_process_message ntop" address_dump_prepare_request
  address_request_payload sequence "\<lambda>_. True" "address_from_nlmsghdr ntop" address_keep RTM_NEWADDR
  address_learned "\<lambda>evs. address_learned_update (\<lambda>_. evs)"
proof unfold_locales
  show "ub_le (address_dump_process_message ntop b p s) (address_dump_process_message ntop m q s)"
    if "embeds b m d" "q = d + p" for b m d q p s
    using that by (rule address_dump_frame)
  show "\<exists>bytes. address_request_payload (address_dump_prepare_request s) = Some bytes \<and> wf_msg bytes
      \<and> nlmsg_seq bytes 0 = Some (sequence s)" for s
    by (simp add: address_dump_payload wf_msg_enc nlmsghdr_enc_msg)
qed (auto simp: address_dump_process_message_def address_dump_handle_done_def
    address_dump_handle_error_def address_dump_dispatch_eq bind_eq_Some_conv split: if_splits)

section \<open>A dump of the kernel's addresses\<close>

text \<open>
  An address as the kernel reports it: flags and port of the message header, the struct and the
  attributes.
\<close>

type_synonym address_entry = "u16 \<times> u32 \<times> ifaddrmsg \<times> attr list"

definition enc_address_entry :: "u32 \<Rightarrow> address_entry \<Rightarrow> u8 list" where
  "enc_address_entry seq = (\<lambda>(fl, pid, i, as). enc_msg RTM_NEWADDR fl seq pid (bytes_ifaddrmsg i @ enc_attrs as))"

definition address_of_entry :: "inet_ntop \<Rightarrow> address_entry \<Rightarrow> address_event" where
  "address_of_entry ntop = (\<lambda>(fl, pid, i, as).
     let local_address = last_value IFA_LOCAL (addr_text ntop (ifa_family i)) [] as;
         peer_address = last_value IFA_ADDRESS (addr_text ntop (ifa_family i)) [] as
     in \<lparr>address_type = NEW_ADDRESS, address_index = sint (ifa_index i),
          address_prefix_len = ifa_prefixlen i, address_scope = ifa_scope i,
          address_flags = ucast (ifa_flags i), address_family = ifa_family i,
          address_address = (if local_address \<noteq> [] then local_address else peer_address),
          address_label = last_value IFA_LABEL cstr_text [] as\<rparr>)"

definition wf_address_entry :: "address_entry \<Rightarrow> bool" where
  "wf_address_entry = (\<lambda>(fl, pid, i, as). wf_address_attrs (ifa_family i) as)"

lemma address_entry_parse:
  assumes "wf_address_entry e"
  shows "address_from_nlmsghdr ntop (enc_address_entry seq e) 0 = Some (address_of_entry ntop e)"
  using assms address_parse_enc [of RTM_NEWADDR]
  by (cases e) (simp add: enc_address_entry_def address_of_entry_def wf_address_entry_def bytes_ifaddrmsg_def enc_ifaddrmsg_def)

lemma address_entry_hdr:
  "nlmsg_type (enc_address_entry seq e) 0 = Some RTM_NEWADDR" "nlmsg_seq (enc_address_entry seq e) 0 = Some seq"
  by (cases e; simp add: enc_address_entry_def nlmsghdr_enc_msg)+

lemma address_entries_kept:
  assumes "\<And>e. e \<in> set es \<Longrightarrow> wf_address_entry e"
  shows "kept_events (address_from_nlmsghdr ntop) address_keep RTM_NEWADDR (map (enc_address_entry seq) es)
    = filter address_keep (map (address_of_entry ntop) es)"
  using assms by (induction es) (simp_all add: address_entry_hdr address_entry_parse)

lemma address_dump_init_simps [simp]:
  "sequence (address_dump_init index seq) = seq" "ifindex (address_dump_init index seq) = index"
  "address_learned (address_dump_init index seq) = []"
  "address_request (address_dump_init index seq) = zero_address_request"
  by (simp_all add: address_dump_init_def)

lemma address_entry_dump_entry:
  "wf_address_entry e \<Longrightarrow> dump_entry (address_from_nlmsghdr ntop) RTM_NEWADDR (enc_address_entry seq e)"
  by (simp add: dump_entry_def address_entry_hdr address_entry_parse)

text \<open>What a dump task gets back from the kernel, when the dump is complete.\<close>

lemma address_dump_answered:
  assumes "wf_answer (length buffer) mss"
    and "filter (\<lambda>b. nlmsg_seq b 0 = Some seq) (concat mss) = map (enc_address_entry seq) es @ d # rest"
    and "\<And>e. e \<in> set es \<Longrightarrow> wf_address_entry e"
    and "nlmsg_type d 0 = Some NLMSG_DONE"
    and "address_request_payload (address_dump_prepare_request (address_dump_init index seq)) = Some bytes"
    and "length bytes \<le> sum_list ns"
  shows "\<exists>t. async_run address_dump_prepare_request address_request_payload (address_dump_process_message ntop)
      buffer (address_dump_init index seq) (map Sent ns) (answers mss)
    = Some (Some (bytes, t, Some (Inr (filter address_keep (map (address_of_entry ntop) es)))))"
proof -
  let ?t = "address_dump_init index seq"
  have f: "filter (\<lambda>b. nlmsg_seq b 0 = Some (sequence ?t)) (concat mss)
      = map (enc_address_entry seq) es @ d # rest"
    using assms(2) by simp
  have e: "dump_entry (address_from_nlmsghdr ntop) RTM_NEWADDR b" if "b \<in> set (map (enc_address_entry seq) es)" for b
    using that assms(3) address_entry_dump_entry by auto
  show ?thesis
    using address_dump.dump_done [OF TrueI assms(1) f e assms(4-6)]
    by (simp add: address_entries_kept [OF assms(3)])
qed

text \<open>And when the kernel reports an error.\<close>

lemma address_dump_refused:
  assumes "wf_answer (length buffer) mss"
    and "filter (\<lambda>b. nlmsg_seq b 0 = Some seq) (concat mss)
      = map (enc_address_entry seq) es @ enc_error seq pid error payload # rest"
    and "\<And>e. e \<in> set es \<Longrightarrow> wf_address_entry e"
    and "- (2 ^ 31) < error" "error < 0"
    and "address_request_payload (address_dump_prepare_request (address_dump_init index seq)) = Some bytes"
    and "length bytes \<le> sum_list ns"
  shows "\<exists>t. async_run address_dump_prepare_request address_request_payload (address_dump_process_message ntop)
      buffer (address_dump_init index seq) (map Sent ns) (answers mss)
    = Some (Some (bytes, t, Some (Inl (Error_Code Generic_Category (- error)))))"
proof -
  let ?t = "address_dump_init index seq"
  have f: "filter (\<lambda>b. nlmsg_seq b 0 = Some (sequence ?t)) (concat mss)
      = map (enc_address_entry seq) es @ enc_error seq pid error payload # rest"
    using assms(2) by simp
  have e: "dump_entry (address_from_nlmsghdr ntop) RTM_NEWADDR b" if "b \<in> set (map (enc_address_entry seq) es)" for b
    using that assms(3) address_entry_dump_entry by auto
  have code: "nlmsgerr_code (enc_error seq pid error payload) 0 = Some (Error_Code Generic_Category (- error))"
    using assms(4,5) by (intro nlmsgerr_code_enc) simp_all
  have nonzero: "error_value (Error_Code Generic_Category (- error)) \<noteq> 0"
    using assms(5) by simp
  show ?thesis
    by (rule address_dump.dump_error [OF TrueI assms(1) f e enc_error_hdr(1) code nonzero assms(6,7)])
qed

end
