(* ===== verification/Route_Dump_Task.thy ===== *)
theory Route_Dump_Task
  imports Dump_Task
begin

text \<open>
  \<open>RouteDumpTask\<close> (\<open>include/rtaco/tasks/nl_route_dump_task.hxx\<close>,
  \<open>src/tasks/nl_route_dump_task.cxx\<close>).
\<close>

record route_dump_task = route_task +
  route_learned :: "route_event list"

definition route_dump_init :: "u16 \<Rightarrow> u32 \<Rightarrow> route_dump_task" where
  "route_dump_init index seq = \<lparr>ifindex = index, sequence = seq,
     route_request = zero_route_request, route_learned = []\<rparr>"

definition route_dump_prepare_request :: "route_dump_task \<Rightarrow> route_dump_task" where
  "route_dump_prepare_request t =
     route_build_request (NLM_F_REQUEST OR NLM_F_DUMP) RTN_UNSPEC RT_TABLE_MAIN RT_SCOPE_UNIVERSE RTN_UNSPEC t"

definition route_dump_handle_done :: "route_dump_task \<Rightarrow> route_dump_task \<times> route_event list expected" where
  "route_dump_handle_done t = (t\<lparr>route_learned := []\<rparr>, Inr (route_learned t))"

definition route_dump_handle_error ::
  "mem \<Rightarrow> ptr \<Rightarrow> route_dump_task \<Rightarrow> (route_dump_task \<times> route_event list expected) ub" where
  "route_dump_handle_error m header t = do {
     error_code \<leftarrow> nlmsgerr_code m header;
     Some (if error_value error_code = 0
           then (t\<lparr>route_learned := []\<rparr>, Inr (route_learned t))
           else (t, Inl error_code)) }"

definition route_dump_dispatch ::
  "inet_ntop \<Rightarrow> mem \<Rightarrow> ptr \<Rightarrow> route_dump_task \<Rightarrow> (route_dump_task \<times> route_event list expected option) ub" where
  "route_dump_dispatch ntop m header t = do {
     event \<leftarrow> route_from_nlmsghdr ntop m header;
     Some (if route_type event \<noteq> NEW_ROUTE then (t, None)
           else if route_table event \<noteq> RT_TABLE_MAIN then (t, None)
           else if route_oif_index event \<le> 0 then (t, None)
           else if route_oif_index event > 65535 then (t, None)
           else (t\<lparr>route_learned := route_learned t @ [event]\<rparr>, None)) }"

definition route_dump_process_message ::
  "inet_ntop \<Rightarrow> mem \<Rightarrow> ptr \<Rightarrow> route_dump_task \<Rightarrow> (route_dump_task \<times> route_event list expected option) ub" where
  "route_dump_process_message ntop m header t = do {
     seq \<leftarrow> nlmsg_seq m header;
     if seq \<noteq> sequence t then Some (t, None)
     else do {
       ty \<leftarrow> nlmsg_type m header;
       if ty = NLMSG_DONE then Some (map_prod id Some (route_dump_handle_done t))
       else if ty = NLMSG_ERROR then map_option (map_prod id Some) (route_dump_handle_error m header t)
       else if ty = RTM_NEWROUTE then route_dump_dispatch ntop m header t
       else Some (t, None) } }"

text \<open>The filter of the dispatch.\<close>

definition route_keep :: "route_event \<Rightarrow> bool" where
  "route_keep ev \<longleftrightarrow> route_type ev = NEW_ROUTE \<and> route_table ev = RT_TABLE_MAIN
     \<and> 0 < route_oif_index ev \<and> route_oif_index ev \<le> 65535"

section \<open>The contract of a dump\<close>

lemmas route_dump_defs = route_dump_process_message_def route_dump_handle_done_def
  route_dump_handle_error_def route_dump_dispatch_def

lemma route_dump_frame:
  assumes "embeds b m d" "q = d + p"
  shows "ub_le (route_dump_process_message ntop b p s) (route_dump_process_message ntop m q s)"
  unfolding route_dump_defs
  by (rule frame route_frame assms | assumption | simp add: assms(2))+

lemma route_dump_payload:
  assumes "route_request t = zero_route_request"
  shows "route_request_payload (route_dump_prepare_request t)
    = Some (enc_msg RTM_GETROUTE 0x301 (sequence t) 0 (enc_rtmsg 0 0 0 0 254 0 0 0 0))"
  by (simp add: route_dump_prepare_request_def route_payload assms)

lemma route_dump_payload_wf:
  "\<exists>bytes. route_request_payload (route_dump_prepare_request t) = Some bytes \<and> wf_msg bytes
    \<and> nlmsg_seq bytes 0 = Some (sequence t)"
  using route_payload_wf [of "0x301" 0 254 0 0 t]
  by (auto simp: route_dump_prepare_request_def wf_msg_enc nlmsghdr_enc_msg)

lemma route_dump_prepare_simps [simp]:
  "sequence (route_dump_prepare_request t) = sequence t"
  "ifindex (route_dump_prepare_request t) = ifindex t"
  "route_learned (route_dump_prepare_request t) = route_learned t"
  by (simp_all add: route_dump_prepare_request_def route_build_request_def)

lemma route_dump_dispatch_eq:
  "route_dump_dispatch ntop m header t = map_option
     (\<lambda>ev. (if route_keep ev then t\<lparr>route_learned := route_learned t @ [ev]\<rparr> else t, None))
     (route_from_nlmsghdr ntop m header)"
  by (cases "route_from_nlmsghdr ntop m header")
    (simp_all add: route_dump_dispatch_def route_keep_def word_gt_0 not_le [symmetric])

interpretation route_dump: dump_task "route_dump_process_message ntop" route_dump_prepare_request
  route_request_payload sequence "\<lambda>_. True" "route_from_nlmsghdr ntop" route_keep RTM_NEWROUTE
  route_learned "\<lambda>evs. route_learned_update (\<lambda>_. evs)"
proof unfold_locales
  show "ub_le (route_dump_process_message ntop b p s) (route_dump_process_message ntop m q s)"
    if "embeds b m d" "q = d + p" for b m d q p s
    using that by (rule route_dump_frame)
  show "\<exists>bytes. route_request_payload (route_dump_prepare_request s) = Some bytes \<and> wf_msg bytes
      \<and> nlmsg_seq bytes 0 = Some (sequence s)" for s
    by (rule route_dump_payload_wf)
qed (auto simp: route_dump_process_message_def route_dump_handle_done_def route_dump_handle_error_def
    route_dump_dispatch_eq bind_eq_Some_conv split: if_splits)

section \<open>A dump of the kernel's routes\<close>

text \<open>
  A route as the kernel reports it: flags and port of the message header, the struct and the
  attributes.
\<close>

type_synonym route_entry = "u16 \<times> u32 \<times> rtmsg \<times> attr list"

definition enc_route_entry :: "u32 \<Rightarrow> route_entry \<Rightarrow> u8 list" where
  "enc_route_entry seq = (\<lambda>(fl, pid, i, as). enc_msg RTM_NEWROUTE fl seq pid (bytes_rtmsg i @ enc_attrs as))"

definition route_of_entry :: "inet_ntop \<Rightarrow> route_entry \<Rightarrow> route_event" where
  "route_of_entry ntop = (\<lambda>(fl, pid, r, as).
     let addr = (\<lambda>ty. last_value ty (addr_text ntop (rtm_family r)) [] as);
         oif = last_value RTA_OIF payload_u32 0 as
     in \<lparr>route_type = NEW_ROUTE, route_family = rtm_family r, route_dst_prefix_len = rtm_dst_len r,
          route_src_prefix_len = rtm_src_len r, route_scope = rtm_scope r,
          route_protocol = rtm_protocol r, route_route_type = rtm_type r, route_flags = rtm_flags r,
          route_table = last_value RTA_TABLE payload_u32 (ucast (rtm_table r)) as,
          route_priority = last_value RTA_PRIORITY payload_u32 0 as, route_oif_index = oif,
          route_dst = addr RTA_DST, route_src = addr RTA_SRC, route_gateway = addr RTA_GATEWAY,
          route_prefsrc = addr RTA_PREFSRC,
          route_oif = (if oif \<noteq> 0 then dec_string (unat oif) else [])\<rparr>)"

definition wf_route_entry :: "route_entry \<Rightarrow> bool" where
  "wf_route_entry = (\<lambda>(fl, pid, i, as). wf_route_attrs (rtm_family i) as)"

lemma route_entry_parse:
  assumes "wf_route_entry e"
  shows "route_from_nlmsghdr ntop (enc_route_entry seq e) 0 = Some (route_of_entry ntop e)"
  using assms route_parse_enc [of RTM_NEWROUTE]
  by (cases e) (simp add: Let_def enc_route_entry_def route_of_entry_def wf_route_entry_def bytes_rtmsg_def enc_rtmsg_def)

lemma route_entry_hdr:
  "nlmsg_type (enc_route_entry seq e) 0 = Some RTM_NEWROUTE" "nlmsg_seq (enc_route_entry seq e) 0 = Some seq"
  by (cases e; simp add: enc_route_entry_def nlmsghdr_enc_msg)+

lemma route_entries_kept:
  assumes "\<And>e. e \<in> set es \<Longrightarrow> wf_route_entry e"
  shows "kept_events (route_from_nlmsghdr ntop) route_keep RTM_NEWROUTE (map (enc_route_entry seq) es)
    = filter route_keep (map (route_of_entry ntop) es)"
  using assms by (induction es) (simp_all add: route_entry_hdr route_entry_parse)

lemma route_dump_init_simps [simp]:
  "sequence (route_dump_init index seq) = seq" "ifindex (route_dump_init index seq) = index"
  "route_learned (route_dump_init index seq) = []"
  "route_request (route_dump_init index seq) = zero_route_request"
  by (simp_all add: route_dump_init_def)

lemma route_entry_dump_entry:
  "wf_route_entry e \<Longrightarrow> dump_entry (route_from_nlmsghdr ntop) RTM_NEWROUTE (enc_route_entry seq e)"
  by (simp add: dump_entry_def route_entry_hdr route_entry_parse)

text \<open>What a dump task gets back from the kernel, when the dump is complete.\<close>

lemma route_dump_answered:
  assumes "wf_answer (length buffer) mss"
    and "filter (\<lambda>b. nlmsg_seq b 0 = Some seq) (concat mss) = map (enc_route_entry seq) es @ d # rest"
    and "\<And>e. e \<in> set es \<Longrightarrow> wf_route_entry e"
    and "nlmsg_type d 0 = Some NLMSG_DONE"
    and "route_request_payload (route_dump_prepare_request (route_dump_init index seq)) = Some bytes"
    and "length bytes \<le> sum_list ns"
  shows "\<exists>t. async_run route_dump_prepare_request route_request_payload (route_dump_process_message ntop)
      buffer (route_dump_init index seq) (map Sent ns) (answers mss)
    = Some (Some (bytes, t, Some (Inr (filter route_keep (map (route_of_entry ntop) es)))))"
proof -
  let ?t = "route_dump_init index seq"
  have f: "filter (\<lambda>b. nlmsg_seq b 0 = Some (sequence ?t)) (concat mss)
      = map (enc_route_entry seq) es @ d # rest"
    using assms(2) by simp
  have e: "dump_entry (route_from_nlmsghdr ntop) RTM_NEWROUTE b" if "b \<in> set (map (enc_route_entry seq) es)" for b
    using that assms(3) route_entry_dump_entry by auto
  show ?thesis
    using route_dump.dump_done [OF TrueI assms(1) f e assms(4-6)]
    by (simp add: route_entries_kept [OF assms(3)])
qed

text \<open>And when the kernel reports an error.\<close>

lemma route_dump_refused:
  assumes "wf_answer (length buffer) mss"
    and "filter (\<lambda>b. nlmsg_seq b 0 = Some seq) (concat mss)
      = map (enc_route_entry seq) es @ enc_error seq pid error payload # rest"
    and "\<And>e. e \<in> set es \<Longrightarrow> wf_route_entry e"
    and "- (2 ^ 31) < error" "error < 0"
    and "route_request_payload (route_dump_prepare_request (route_dump_init index seq)) = Some bytes"
    and "length bytes \<le> sum_list ns"
  shows "\<exists>t. async_run route_dump_prepare_request route_request_payload (route_dump_process_message ntop)
      buffer (route_dump_init index seq) (map Sent ns) (answers mss)
    = Some (Some (bytes, t, Some (Inl (Error_Code Generic_Category (- error)))))"
proof -
  let ?t = "route_dump_init index seq"
  have f: "filter (\<lambda>b. nlmsg_seq b 0 = Some (sequence ?t)) (concat mss)
      = map (enc_route_entry seq) es @ enc_error seq pid error payload # rest"
    using assms(2) by simp
  have e: "dump_entry (route_from_nlmsghdr ntop) RTM_NEWROUTE b" if "b \<in> set (map (enc_route_entry seq) es)" for b
    using that assms(3) route_entry_dump_entry by auto
  have code: "nlmsgerr_code (enc_error seq pid error payload) 0 = Some (Error_Code Generic_Category (- error))"
    using assms(4,5) by (intro nlmsgerr_code_enc) simp_all
  have nonzero: "error_value (Error_Code Generic_Category (- error)) \<noteq> 0"
    using assms(5) by simp
  show ?thesis
    by (rule route_dump.dump_error [OF TrueI assms(1) f e enc_error_hdr(1) code nonzero assms(6,7)])
qed

section \<open>Properties\<close>

text \<open>
  C13. Whatever bytes the route dump receives, in whatever pieces: a route it hands over is a new
  route of the main table with an output interface that fits 16 bits.
\<close>

theorem route_dump_only_main:
  assumes "async_run route_dump_prepare_request route_request_payload (route_dump_process_message ntop)
      buffer (route_dump_init index seq) sends recvs = Some (Some (wire, t, Some (Inr evs)))"
  shows "list_all (\<lambda>ev. route_type ev = NEW_ROUTE \<and> route_table ev = 254
    \<and> 0 < route_oif_index ev \<and> route_oif_index ev \<le> 65535) evs"
  using route_dump.dump_keeps [OF assms] by (simp add: list.pred_set route_keep_def)

lemma route_dump_only_main_witness:
  "\<exists>t evs. let attrs = [(RTA_OIF, le32 12)];
       route = (\<lambda>table. \<lparr>rtm_family = 2, rtm_dst_len = 8, rtm_src_len = 0, rtm_tos = 0, rtm_table = table,
         rtm_protocol = 2, rtm_scope = 0, rtm_type = 1, rtm_flags = 0\<rparr>)
     in async_run route_dump_prepare_request route_request_payload (route_dump_process_message (\<lambda>_ _. None))
        (replicate 200 0) (route_dump_init 0 1) [Sent 28]
        (answers [[enc_route_entry 1 (2, 7, route 254, attrs), enc_route_entry 1 (2, 7, route 255, attrs),
          enc_msg NLMSG_DONE 2 1 7 [0, 0, 0, 0]]])
      = Some (Some (enc_msg RTM_GETROUTE 0x301 1 0 (enc_rtmsg 0 0 0 0 254 0 0 0 0), t, Some (Inr evs)))
      \<and> map route_oif_index evs = [12]
      \<and> list_all (\<lambda>ev. route_type ev = NEW_ROUTE \<and> route_table ev = 254
        \<and> 0 < route_oif_index ev \<and> route_oif_index ev \<le> 65535) evs"
proof -
  let ?m = "\<lambda>table. \<lparr>rtm_family = 2, rtm_dst_len = 8, rtm_src_len = 0, rtm_tos = 0, rtm_table = table,
      rtm_protocol = 2, rtm_scope = 0, rtm_type = 1, rtm_flags = 0\<rparr>"
  let ?es = "[(2, 7, ?m 254, [(RTA_OIF, le32 12)]), (2, 7, ?m 255, [(RTA_OIF, le32 12)])] :: route_entry list"
  let ?d = "enc_msg NLMSG_DONE 2 1 7 [0, 0, 0, 0]" and ?ntop = "\<lambda>_ _. None :: string option"
  have u: "payload_u32 (le32 v) = v" for v using payload_u32_le32 [of v "[]"] by simp
  have wf: "list_all wf_route_entry ?es"
    by (simp add: wf_route_entry_def wf_route_attrs_def wf_attr_def is_route_addr_def enc_attrs_def enc_attr_def pad4_def)
  have answer: "wf_answer (length (replicate 200 (0 :: u8))) [map (enc_route_entry 1) ?es @ [?d]]"
    by (simp add: wf_answer_def wf_msg_enc enc_route_entry_def bytes_rtmsg_def enc_attrs_def enc_attr_def pad4_def)
  have own: "filter (\<lambda>b. nlmsg_seq b 0 = Some 1) (concat [map (enc_route_entry 1) ?es @ [?d]])
      = map (enc_route_entry 1) ?es @ ?d # []"
    by (simp add: route_entry_hdr nlmsghdr_enc_msg)
  have pay: "route_request_payload (route_dump_prepare_request (route_dump_init 0 1))
      = Some (enc_msg RTM_GETROUTE 0x301 1 0 (enc_rtmsg 0 0 0 0 254 0 0 0 0))"
    by (simp add: route_dump_payload)
  obtain t where t: "async_run route_dump_prepare_request route_request_payload (route_dump_process_message ?ntop)
      (replicate 200 0) (route_dump_init 0 1) (map Sent [28]) (answers [map (enc_route_entry 1) ?es @ [?d]])
    = Some (Some (enc_msg RTM_GETROUTE 0x301 1 0 (enc_rtmsg 0 0 0 0 254 0 0 0 0), t,
        Some (Inr (filter route_keep (map (route_of_entry ?ntop) ?es)))))"
    using route_dump_answered [OF answer own _ _ pay, of "[28]" ?ntop] wf by (auto simp: nlmsghdr_enc_msg)
  have kept: "map route_oif_index (filter route_keep (map (route_of_entry ?ntop) ?es)) = [12]"
    by (simp add: route_keep_def route_of_entry_def Let_def u)
  show ?thesis
    using t route_dump_only_main [OF t] kept unfolding Let_def
    by (intro exI [of _ t] exI [of _ "filter route_keep (map (route_of_entry ?ntop) ?es)"])
      (simp only: list.map append.simps simp_thms)
qed

end
