(* ===== verification/Neighbor_Dump_Task.thy ===== *)
theory Neighbor_Dump_Task
  imports Dump_Task
begin

text \<open>
  \<open>NeighborDumpTask\<close> (\<open>include/rtaco/tasks/nl_neighbor_dump_task.hxx\<close>,
  \<open>src/tasks/nl_neighbor_dump_task.cxx\<close>).
\<close>

record neighbor_dump_task = neighbor_task +
  neighbor_learned :: "neighbor_event list"

definition neighbor_dump_init :: "u16 \<Rightarrow> u32 \<Rightarrow> neighbor_dump_task" where
  "neighbor_dump_init index seq = \<lparr>ifindex = index, sequence = seq,
     neighbor_request = zero_neighbor_request, neighbor_learned = []\<rparr>"

definition neighbor_dump_prepare_request :: "neighbor_dump_task \<Rightarrow> neighbor_dump_task" where
  "neighbor_dump_prepare_request t =
     (let t = t\<lparr>neighbor_request := zero_neighbor_request\<rparr>
      in neighbor_build_request RTM_GETNEIGH (NLM_F_REQUEST OR NLM_F_DUMP) 0 0 (nreq_dst (neighbor_request t)) t)"

definition neighbor_dump_handle_done :: "neighbor_dump_task \<Rightarrow> neighbor_dump_task \<times> neighbor_event list expected" where
  "neighbor_dump_handle_done t = (t\<lparr>neighbor_learned := []\<rparr>, Inr (neighbor_learned t))"

definition neighbor_dump_handle_error ::
  "mem \<Rightarrow> ptr \<Rightarrow> neighbor_dump_task \<Rightarrow> (neighbor_dump_task \<times> neighbor_event list expected) ub" where
  "neighbor_dump_handle_error m header t = do {
     error_code \<leftarrow> nlmsgerr_code m header;
     Some (if error_value error_code = 0
           then (t\<lparr>neighbor_learned := []\<rparr>, Inr (neighbor_learned t))
           else (t, Inl error_code)) }"

definition neighbor_dump_dispatch ::
  "inet_ntop \<Rightarrow> mem \<Rightarrow> ptr \<Rightarrow> neighbor_dump_task \<Rightarrow> (neighbor_dump_task \<times> neighbor_event list expected option) ub" where
  "neighbor_dump_dispatch ntop m header t = do {
     event \<leftarrow> neighbor_from_nlmsghdr ntop m header;
     Some (if neighbor_type event \<noteq> NEW_NEIGHBOR then (t, None)
           else if neighbor_index event \<le> 0 then (t, None)
           else if neighbor_index event > 65535 then (t, None)
           else (t\<lparr>neighbor_learned := neighbor_learned t @ [event]\<rparr>, None)) }"

definition neighbor_dump_process_message ::
  "inet_ntop \<Rightarrow> mem \<Rightarrow> ptr \<Rightarrow> neighbor_dump_task \<Rightarrow> (neighbor_dump_task \<times> neighbor_event list expected option) ub" where
  "neighbor_dump_process_message ntop m header t = do {
     seq \<leftarrow> nlmsg_seq m header;
     if seq \<noteq> sequence t then Some (t, None)
     else do {
       ty \<leftarrow> nlmsg_type m header;
       if ty = NLMSG_DONE then Some (map_prod id Some (neighbor_dump_handle_done t))
       else if ty = NLMSG_ERROR then map_option (map_prod id Some) (neighbor_dump_handle_error m header t)
       else if ty = RTM_NEWNEIGH then neighbor_dump_dispatch ntop m header t
       else Some (t, None) } }"

text \<open>The filter of the dispatch.\<close>

definition neighbor_keep :: "neighbor_event \<Rightarrow> bool" where
  "neighbor_keep ev \<longleftrightarrow> neighbor_type ev = NEW_NEIGHBOR \<and> 0 < neighbor_index ev \<and> neighbor_index ev \<le> 65535"

section \<open>The contract of a dump\<close>

lemmas neighbor_dump_defs = neighbor_dump_process_message_def neighbor_dump_handle_done_def
  neighbor_dump_handle_error_def neighbor_dump_dispatch_def

lemma neighbor_dump_frame:
  assumes "embeds b m d" "q = d + p"
  shows "ub_le (neighbor_dump_process_message ntop b p s) (neighbor_dump_process_message ntop m q s)"
  unfolding neighbor_dump_defs
  by (rule frame neighbor_frame assms | assumption | simp add: assms(2))+

lemma neighbor_dump_payload:
  "neighbor_request_payload (neighbor_dump_prepare_request t)
   = Some (enc_msg RTM_GETNEIGH 0x301 (sequence t) 0
       (enc_ndmsg 0 (ucast (ifindex t)) 0 0 0
         @ (if ifindex t = 0 then [] else enc_attrs [(NDA_DST, replicate 16 0)])))"
  by (cases "ifindex t = 0")
    (simp_all add: neighbor_dump_prepare_request_def neighbor_payload neighbor_payload_all
      zero_neighbor_request_def)

lemma neighbor_dump_prepare_simps [simp]:
  "sequence (neighbor_dump_prepare_request t) = sequence t"
  "ifindex (neighbor_dump_prepare_request t) = ifindex t"
  "neighbor_learned (neighbor_dump_prepare_request t) = neighbor_learned t"
  by (simp_all add: neighbor_dump_prepare_request_def neighbor_build_request_def Let_def)

lemma neighbor_dump_dispatch_eq:
  "neighbor_dump_dispatch ntop m header t = map_option
     (\<lambda>ev. (if neighbor_keep ev then t\<lparr>neighbor_learned := neighbor_learned t @ [ev]\<rparr> else t, None))
     (neighbor_from_nlmsghdr ntop m header)"
  by (cases "neighbor_from_nlmsghdr ntop m header")
    (simp_all add: neighbor_dump_dispatch_def neighbor_keep_def not_le [symmetric])

interpretation neighbor_dump: dump_task "neighbor_dump_process_message ntop" neighbor_dump_prepare_request
  neighbor_request_payload sequence "\<lambda>_. True" "neighbor_from_nlmsghdr ntop" neighbor_keep RTM_NEWNEIGH
  neighbor_learned "\<lambda>evs. neighbor_learned_update (\<lambda>_. evs)"
proof unfold_locales
  show "ub_le (neighbor_dump_process_message ntop b p s) (neighbor_dump_process_message ntop m q s)"
    if "embeds b m d" "q = d + p" for b m d q p s
    using that by (rule neighbor_dump_frame)
  show "\<exists>bytes. neighbor_request_payload (neighbor_dump_prepare_request s) = Some bytes \<and> wf_msg bytes
      \<and> nlmsg_seq bytes 0 = Some (sequence s)" for s
    by (simp add: neighbor_dump_payload wf_msg_enc nlmsghdr_enc_msg enc_attr_def pad4_def)
qed (auto simp: neighbor_dump_process_message_def neighbor_dump_handle_done_def
    neighbor_dump_handle_error_def neighbor_dump_dispatch_eq bind_eq_Some_conv split: if_splits)

section \<open>A dump of the kernel's neighbors\<close>

text \<open>
  A neighbor as the kernel reports it: flags and port of the message header, the struct and the
  attributes.
\<close>

type_synonym neighbor_entry = "u16 \<times> u32 \<times> ndmsg \<times> attr list"

definition enc_neighbor_entry :: "u32 \<Rightarrow> neighbor_entry \<Rightarrow> u8 list" where
  "enc_neighbor_entry seq = (\<lambda>(fl, pid, i, as). enc_msg RTM_NEWNEIGH fl seq pid (bytes_ndmsg i @ enc_attrs as))"

definition neighbor_of_entry :: "inet_ntop \<Rightarrow> neighbor_entry \<Rightarrow> neighbor_event" where
  "neighbor_of_entry ntop = (\<lambda>(fl, pid, i, as).
     \<lparr>neighbor_type = NEW_NEIGHBOR, neighbor_index = sint (ndm_ifindex i),
      neighbor_family = ndm_family i, neighbor_state = ndm_state i, neighbor_flags = ndm_flags i,
      neighbor_neighbor_type = ndm_type i,
      neighbor_address = last_value NDA_DST (addr_text ntop (ndm_family i)) [] as,
      neighbor_lladdr = last_value NDA_LLADDR hwaddr_string [] as\<rparr>)"

definition wf_neighbor_entry :: "neighbor_entry \<Rightarrow> bool" where
  "wf_neighbor_entry = (\<lambda>(fl, pid, i, as). wf_neighbor_attrs (ndm_family i) as)"

lemma neighbor_entry_parse:
  assumes "wf_neighbor_entry e"
  shows "neighbor_from_nlmsghdr ntop (enc_neighbor_entry seq e) 0 = Some (neighbor_of_entry ntop e)"
  using assms neighbor_parse_enc [of RTM_NEWNEIGH]
  by (cases e) (simp add: enc_neighbor_entry_def neighbor_of_entry_def wf_neighbor_entry_def bytes_ndmsg_def enc_ndmsg_def)

lemma neighbor_entry_hdr:
  "nlmsg_type (enc_neighbor_entry seq e) 0 = Some RTM_NEWNEIGH" "nlmsg_seq (enc_neighbor_entry seq e) 0 = Some seq"
  by (cases e; simp add: enc_neighbor_entry_def nlmsghdr_enc_msg)+

lemma neighbor_entries_kept:
  assumes "\<And>e. e \<in> set es \<Longrightarrow> wf_neighbor_entry e"
  shows "kept_events (neighbor_from_nlmsghdr ntop) neighbor_keep RTM_NEWNEIGH (map (enc_neighbor_entry seq) es)
    = filter neighbor_keep (map (neighbor_of_entry ntop) es)"
  using assms by (induction es) (simp_all add: neighbor_entry_hdr neighbor_entry_parse)

lemma neighbor_dump_init_simps [simp]:
  "sequence (neighbor_dump_init index seq) = seq" "ifindex (neighbor_dump_init index seq) = index"
  "neighbor_learned (neighbor_dump_init index seq) = []"
  "neighbor_request (neighbor_dump_init index seq) = zero_neighbor_request"
  by (simp_all add: neighbor_dump_init_def)

lemma neighbor_entry_dump_entry:
  "wf_neighbor_entry e \<Longrightarrow> dump_entry (neighbor_from_nlmsghdr ntop) RTM_NEWNEIGH (enc_neighbor_entry seq e)"
  by (simp add: dump_entry_def neighbor_entry_hdr neighbor_entry_parse)

text \<open>What a dump task gets back from the kernel, when the dump is complete.\<close>

lemma neighbor_dump_answered:
  assumes "wf_answer (length buffer) mss"
    and "filter (\<lambda>b. nlmsg_seq b 0 = Some seq) (concat mss) = map (enc_neighbor_entry seq) es @ d # rest"
    and "\<And>e. e \<in> set es \<Longrightarrow> wf_neighbor_entry e"
    and "nlmsg_type d 0 = Some NLMSG_DONE"
    and "neighbor_request_payload (neighbor_dump_prepare_request (neighbor_dump_init index seq)) = Some bytes"
    and "length bytes \<le> sum_list ns"
  shows "\<exists>t. async_run neighbor_dump_prepare_request neighbor_request_payload (neighbor_dump_process_message ntop)
      buffer (neighbor_dump_init index seq) (map Sent ns) (answers mss)
    = Some (Some (bytes, t, Some (Inr (filter neighbor_keep (map (neighbor_of_entry ntop) es)))))"
proof -
  let ?t = "neighbor_dump_init index seq"
  have f: "filter (\<lambda>b. nlmsg_seq b 0 = Some (sequence ?t)) (concat mss)
      = map (enc_neighbor_entry seq) es @ d # rest"
    using assms(2) by simp
  have e: "dump_entry (neighbor_from_nlmsghdr ntop) RTM_NEWNEIGH b" if "b \<in> set (map (enc_neighbor_entry seq) es)" for b
    using that assms(3) neighbor_entry_dump_entry by auto
  show ?thesis
    using neighbor_dump.dump_done [OF TrueI assms(1) f e assms(4-6)]
    by (simp add: neighbor_entries_kept [OF assms(3)])
qed

text \<open>And when the kernel reports an error.\<close>

lemma neighbor_dump_refused:
  assumes "wf_answer (length buffer) mss"
    and "filter (\<lambda>b. nlmsg_seq b 0 = Some seq) (concat mss)
      = map (enc_neighbor_entry seq) es @ enc_error seq pid error payload # rest"
    and "\<And>e. e \<in> set es \<Longrightarrow> wf_neighbor_entry e"
    and "- (2 ^ 31) < error" "error < 0"
    and "neighbor_request_payload (neighbor_dump_prepare_request (neighbor_dump_init index seq)) = Some bytes"
    and "length bytes \<le> sum_list ns"
  shows "\<exists>t. async_run neighbor_dump_prepare_request neighbor_request_payload (neighbor_dump_process_message ntop)
      buffer (neighbor_dump_init index seq) (map Sent ns) (answers mss)
    = Some (Some (bytes, t, Some (Inl (Error_Code Generic_Category (- error)))))"
proof -
  let ?t = "neighbor_dump_init index seq"
  have f: "filter (\<lambda>b. nlmsg_seq b 0 = Some (sequence ?t)) (concat mss)
      = map (enc_neighbor_entry seq) es @ enc_error seq pid error payload # rest"
    using assms(2) by simp
  have e: "dump_entry (neighbor_from_nlmsghdr ntop) RTM_NEWNEIGH b" if "b \<in> set (map (enc_neighbor_entry seq) es)" for b
    using that assms(3) neighbor_entry_dump_entry by auto
  have code: "nlmsgerr_code (enc_error seq pid error payload) 0 = Some (Error_Code Generic_Category (- error))"
    using assms(4,5) by (intro nlmsgerr_code_enc) simp_all
  have nonzero: "error_value (Error_Code Generic_Category (- error)) \<noteq> 0"
    using assms(5) by simp
  show ?thesis
    by (rule neighbor_dump.dump_error [OF TrueI assms(1) f e enc_error_hdr(1) code nonzero assms(6,7)])
qed

end
