(* ===== verification/Neighbor_Tasks.thy ===== *)
theory Neighbor_Tasks
  imports Dump_Task
begin

text \<open>
  The tasks on a single neighbor: \<open>NeighborProbeTask\<close>, \<open>NeighborFlushTask\<close> and
  \<open>NeighborGetTask\<close> (\<open>src/tasks/nl_neighbor_probe_task.cxx\<close>,
  \<open>nl_neighbor_flush_task.cxx\<close>, \<open>nl_neighbor_get_task.cxx\<close> and their headers).
\<close>

section \<open>Tasks that wait for an acknowledgement\<close>

text \<open>
  The contract of the probe and the flush: the kernel's acknowledgement (an error message with
  the code 0) is a success, any other error message is that error, and nothing else is an answer.
\<close>

locale ack_task = request_behavior process prepare_request request_payload seq_of valid
  for process :: "mem \<Rightarrow> ptr \<Rightarrow> 's \<Rightarrow> ('s \<times> unit expected option) ub"
    and prepare_request request_payload seq_of valid +
  assumes process_ack: "nlmsg_seq m h = Some (seq_of s) \<Longrightarrow> nlmsg_type m h = Some NLMSG_ERROR \<Longrightarrow>
      nlmsgerr_code m h = Some ec \<Longrightarrow>
      process m h s = Some (s, Some (if error_value ec = 0 then Inr () else Inl ec))"
    and process_other: "nlmsg_seq m h = Some (seq_of s) \<Longrightarrow> nlmsg_type m h = Some ty \<Longrightarrow>
      ty \<noteq> NLMSG_ERROR \<Longrightarrow> process m h s = Some (s, None)"
begin

lemma run_other:
  assumes "\<And>b. b \<in> set ms \<Longrightarrow> own (seq_of s) b \<and> (\<exists>ty. nlmsg_type b 0 = Some ty \<and> ty \<noteq> NLMSG_ERROR)"
  shows "run_msgs process ms s = Some (s, None)"
  using assms
proof (induction ms)
  case Nil
  then show ?case by simp
next
  case (Cons b bs)
  obtain ty where "nlmsg_type b 0 = Some ty" "ty \<noteq> NLMSG_ERROR" "own (seq_of s) b"
    using Cons.prems [of b] by auto
  then have "process b 0 s = Some (s, None)" by (intro process_other)
  then show ?case using Cons by simp
qed

lemma run_ack:
  assumes "\<And>b. b \<in> set ms \<Longrightarrow> own (seq_of s) b \<and> (\<exists>ty. nlmsg_type b 0 = Some ty \<and> ty \<noteq> NLMSG_ERROR)"
    and "own (seq_of s) d" "nlmsg_type d 0 = Some NLMSG_ERROR" "nlmsgerr_code d 0 = Some ec"
  shows "run_msgs process (ms @ d # rest) s
    = Some (s, Some (if error_value ec = 0 then Inr () else Inl ec))"
  using run_other [OF assms(1)] process_ack [OF assms(2-4)] by (simp add: run_msgs_append)

lemma ack_exchange:
  assumes "valid s" "wf_answer (length buffer) mss"
    and "filter (own (seq_of s)) (concat mss) = ms @ d # rest"
    and "\<And>b. b \<in> set ms \<Longrightarrow> \<exists>ty. nlmsg_type b 0 = Some ty \<and> ty \<noteq> NLMSG_ERROR"
    and "nlmsg_type d 0 = Some NLMSG_ERROR" "nlmsgerr_code d 0 = Some ec"
    and "request_payload (prepare_request s) = Some bytes" "length bytes \<le> sum_list ns"
  shows "async_run prepare_request request_payload process buffer s (map Sent ns) (answers mss)
    = Some (Some (bytes, prepare_request s, Some (if error_value ec = 0 then Inr () else Inl ec)))"
proof -
  have "set (ms @ d # rest) \<subseteq> {b. own (seq_of s) b}"
    unfolding assms(3) [symmetric] by auto
  then have "run_msgs process (filter (own (seq_of s)) (concat mss)) (prepare_request s)
      = Some (prepare_request s, Some (if error_value ec = 0 then Inr () else Inl ec))"
    unfolding assms(3) using assms(4-6) by (intro run_ack) (auto simp: prepare_seq)
  from exchange [OF assms(1) this assms(2)] assms(7,8) show ?thesis by auto
qed

text \<open>As long as no error message with the task's sequence number comes, the task waits.\<close>

lemma ack_waits:
  assumes "valid s" "wf_answer (length buffer) mss"
    and "\<And>b. b \<in> set (concat mss) \<Longrightarrow> own (seq_of s) b \<Longrightarrow>
      \<exists>ty. nlmsg_type b 0 = Some ty \<and> ty \<noteq> NLMSG_ERROR"
    and "request_payload (prepare_request s) = Some bytes" "length bytes \<le> sum_list ns"
  shows "async_run prepare_request request_payload process buffer s (map Sent ns) (answers mss)
    = Some (Some (bytes, prepare_request s, None))"
proof -
  have "run_msgs process (filter (own (seq_of s)) (concat mss)) (prepare_request s)
      = Some (prepare_request s, None)"
  proof (rule run_other)
    fix b assume "b \<in> set (filter (own (seq_of s)) (concat mss))"
    then have "b \<in> set (concat mss)" "own (seq_of s) b" by simp_all
    with assms(3) show "own (seq_of (prepare_request s)) b
        \<and> (\<exists>ty. nlmsg_type b 0 = Some ty \<and> ty \<noteq> NLMSG_ERROR)"
      by (simp only: prepare_seq simp_thms)
  qed
  from exchange [OF assms(1) this assms(2)] assms(4,5) show ?thesis by auto
qed

end

definition valid_neighbor_task :: "('a neighbor_task_scheme \<Rightarrow> u8 list) \<Rightarrow> 'a neighbor_task_scheme \<Rightarrow> bool" where
  "valid_neighbor_task address t \<longleftrightarrow>
     length (address t) = 16 \<and> length (nreq_dst (neighbor_request t)) = 16"

text \<open>The request of a task on one neighbor.\<close>

definition enc_neighbor_query :: "u16 \<Rightarrow> u16 \<Rightarrow> u32 \<Rightarrow> u16 \<Rightarrow> u16 \<Rightarrow> u8 \<Rightarrow> u8 list \<Rightarrow> u8 list" where
  "enc_neighbor_query msg_type msg_flags seq index state flags address =
     enc_msg msg_type msg_flags seq 0
       (if index = 0 then enc_ndmsg 0 0 state flags 0
        else enc_ndmsg 0 (ucast index) state flags 0 @ enc_attrs [(NDA_DST, address)])"

lemma neighbor_query_payload:
  assumes "valid_neighbor_task addr t"
  shows "neighbor_request_payload (neighbor_build_request msg_type msg_flags state flags (addr t) t)
    = Some (enc_neighbor_query msg_type msg_flags (sequence t) (ifindex t) state flags (addr t))"
  using assms
  by (cases "ifindex t = 0")
    (simp_all add: enc_neighbor_query_def neighbor_payload neighbor_payload_all valid_neighbor_task_def)

lemma enc_neighbor_query_wf:
  assumes "length address = 16"
  shows "wf_msg (enc_neighbor_query msg_type msg_flags seq index state flags address)"
    "nlmsg_seq (enc_neighbor_query msg_type msg_flags seq index state flags address) 0 = Some seq"
  using assms by (simp_all add: enc_neighbor_query_def wf_msg_enc nlmsghdr_enc_msg enc_attr_def pad4_def)

lemma neighbor_build_simps [simp]:
  "sequence (neighbor_build_request ty fl st nf a t) = sequence t"
  "ifindex (neighbor_build_request ty fl st nf a t) = ifindex t"
  by (simp_all add: neighbor_build_request_def Let_def)

section \<open>\<open>NeighborProbeTask\<close>\<close>

record neighbor_probe_task = neighbor_task +
  probe_address :: "u8 list"

definition neighbor_probe_init :: "u16 \<Rightarrow> u32 \<Rightarrow> u8 list \<Rightarrow> neighbor_probe_task" where
  "neighbor_probe_init index seq address = \<lparr>ifindex = index, sequence = seq,
     neighbor_request = zero_neighbor_request, probe_address = map ((!) address) [0..<16]\<rparr>"

definition neighbor_probe_prepare_request :: "neighbor_probe_task \<Rightarrow> neighbor_probe_task" where
  "neighbor_probe_prepare_request t =
     neighbor_build_request RTM_NEWNEIGH (NLM_F_REQUEST OR NLM_F_ACK OR NLM_F_CREATE OR NLM_F_REPLACE)
       NUD_PROBE NTF_USE (probe_address t) t"

definition neighbor_probe_handle_error :: "mem \<Rightarrow> ptr \<Rightarrow> unit expected ub" where
  "neighbor_probe_handle_error m header = do {
     error_code \<leftarrow> nlmsgerr_code m header;
     Some (if error_value error_code = 0 then Inr () else Inl error_code) }"

definition neighbor_probe_process_message ::
  "mem \<Rightarrow> ptr \<Rightarrow> neighbor_probe_task \<Rightarrow> (neighbor_probe_task \<times> unit expected option) ub" where
  "neighbor_probe_process_message m header t = do {
     seq \<leftarrow> nlmsg_seq m header;
     if seq \<noteq> sequence t then Some (t, None)
     else do {
       ty \<leftarrow> nlmsg_type m header;
       if ty = NLMSG_ERROR then do {
         r \<leftarrow> neighbor_probe_handle_error m header;
         Some (t, Some r) }
       else Some (t, None) } }"

lemma neighbor_probe_payload:
  "valid_neighbor_task probe_address t \<Longrightarrow>
   neighbor_request_payload (neighbor_probe_prepare_request t)
   = Some (enc_neighbor_query RTM_NEWNEIGH 0x505 (sequence t) (ifindex t) NUD_PROBE NTF_USE (probe_address t))"
  by (simp add: neighbor_probe_prepare_request_def neighbor_query_payload)

lemma neighbor_probe_frame:
  assumes "embeds b m d" "q = d + p"
  shows "ub_le (neighbor_probe_process_message b p s) (neighbor_probe_process_message m q s)"
  unfolding neighbor_probe_process_message_def neighbor_probe_handle_error_def
  by (rule frame assms | assumption | simp add: assms(2))+

interpretation neighbor_probe: ack_task neighbor_probe_process_message neighbor_probe_prepare_request
  neighbor_request_payload sequence "valid_neighbor_task probe_address"
proof unfold_locales
  show "ub_le (neighbor_probe_process_message b p s) (neighbor_probe_process_message m q s)"
    if "embeds b m d" "q = d + p" for b m d q p s
    using that by (rule neighbor_probe_frame)
  show "\<exists>bytes. neighbor_request_payload (neighbor_probe_prepare_request s) = Some bytes
      \<and> wf_msg bytes \<and> nlmsg_seq bytes 0 = Some (sequence s)"
    if "valid_neighbor_task probe_address s" for s
    using that by (simp add: neighbor_probe_payload enc_neighbor_query_wf valid_neighbor_task_def)
qed (auto simp: neighbor_probe_process_message_def neighbor_probe_handle_error_def
    neighbor_probe_prepare_request_def bind_eq_Some_conv split: if_splits)

section \<open>\<open>NeighborFlushTask\<close>\<close>

record neighbor_flush_task = neighbor_task +
  flush_address :: "u8 list"

definition neighbor_flush_init :: "u16 \<Rightarrow> u32 \<Rightarrow> u8 list \<Rightarrow> neighbor_flush_task" where
  "neighbor_flush_init index seq address = \<lparr>ifindex = index, sequence = seq,
     neighbor_request = zero_neighbor_request, flush_address = map ((!) address) [0..<16]\<rparr>"

definition neighbor_flush_prepare_request :: "neighbor_flush_task \<Rightarrow> neighbor_flush_task" where
  "neighbor_flush_prepare_request t =
     neighbor_build_request RTM_DELNEIGH (NLM_F_REQUEST OR NLM_F_ACK) 0 0 (flush_address t) t"

definition neighbor_flush_handle_error :: "mem \<Rightarrow> ptr \<Rightarrow> unit expected ub" where
  "neighbor_flush_handle_error m header = do {
     error_code \<leftarrow> nlmsgerr_code m header;
     Some (if error_value error_code = 0 then Inr () else Inl error_code) }"

definition neighbor_flush_process_message ::
  "mem \<Rightarrow> ptr \<Rightarrow> neighbor_flush_task \<Rightarrow> (neighbor_flush_task \<times> unit expected option) ub" where
  "neighbor_flush_process_message m header t = do {
     seq \<leftarrow> nlmsg_seq m header;
     if seq \<noteq> sequence t then Some (t, None)
     else do {
       ty \<leftarrow> nlmsg_type m header;
       if ty = NLMSG_ERROR then do {
         r \<leftarrow> neighbor_flush_handle_error m header;
         Some (t, Some r) }
       else Some (t, None) } }"

lemma neighbor_flush_payload:
  "valid_neighbor_task flush_address t \<Longrightarrow>
   neighbor_request_payload (neighbor_flush_prepare_request t)
   = Some (enc_neighbor_query RTM_DELNEIGH 0x5 (sequence t) (ifindex t) 0 0 (flush_address t))"
  by (simp add: neighbor_flush_prepare_request_def neighbor_query_payload)

lemma neighbor_flush_frame:
  assumes "embeds b m d" "q = d + p"
  shows "ub_le (neighbor_flush_process_message b p s) (neighbor_flush_process_message m q s)"
  unfolding neighbor_flush_process_message_def neighbor_flush_handle_error_def
  by (rule frame assms | assumption | simp add: assms(2))+

interpretation neighbor_flush: ack_task neighbor_flush_process_message neighbor_flush_prepare_request
  neighbor_request_payload sequence "valid_neighbor_task flush_address"
proof unfold_locales
  show "ub_le (neighbor_flush_process_message b p s) (neighbor_flush_process_message m q s)"
    if "embeds b m d" "q = d + p" for b m d q p s
    using that by (rule neighbor_flush_frame)
  show "\<exists>bytes. neighbor_request_payload (neighbor_flush_prepare_request s) = Some bytes
      \<and> wf_msg bytes \<and> nlmsg_seq bytes 0 = Some (sequence s)"
    if "valid_neighbor_task flush_address s" for s
    using that by (simp add: neighbor_flush_payload enc_neighbor_query_wf valid_neighbor_task_def)
qed (auto simp: neighbor_flush_process_message_def neighbor_flush_handle_error_def
    neighbor_flush_prepare_request_def bind_eq_Some_conv split: if_splits)

section \<open>\<open>NeighborGetTask\<close>\<close>

record neighbor_get_task = neighbor_task +
  get_address :: "u8 list"

definition neighbor_get_init :: "u16 \<Rightarrow> u32 \<Rightarrow> u8 list \<Rightarrow> neighbor_get_task" where
  "neighbor_get_init index seq address = \<lparr>ifindex = index, sequence = seq,
     neighbor_request = zero_neighbor_request, get_address = map ((!) address) [0..<16]\<rparr>"

definition neighbor_get_prepare_request :: "neighbor_get_task \<Rightarrow> neighbor_get_task" where
  "neighbor_get_prepare_request t =
     neighbor_build_request RTM_GETNEIGH NLM_F_REQUEST 0 0 (get_address t) t"

definition neighbor_get_handle_done :: "neighbor_event expected" where
  "neighbor_get_handle_done = Inl (Error_Code Generic_Category ENOENT)"

definition neighbor_get_handle_error :: "mem \<Rightarrow> ptr \<Rightarrow> neighbor_event expected ub" where
  "neighbor_get_handle_error m header = do {
     error_code \<leftarrow> nlmsgerr_code m header;
     Some (Inl (if error_value error_code = 0 then Error_Code Generic_Category ENOENT
                else error_code)) }"

definition neighbor_get_handle_neighbor :: "inet_ntop \<Rightarrow> mem \<Rightarrow> ptr \<Rightarrow> neighbor_event expected option ub" where
  "neighbor_get_handle_neighbor ntop m header = do {
     event \<leftarrow> neighbor_from_nlmsghdr ntop m header;
     Some (if neighbor_type event = NEIGHBOR_UNKNOWN then None
           else if neighbor_lladdr event \<noteq> [] then Some (Inr event)
           else None) }"

definition neighbor_get_process_message ::
  "inet_ntop \<Rightarrow> mem \<Rightarrow> ptr \<Rightarrow> neighbor_get_task \<Rightarrow> (neighbor_get_task \<times> neighbor_event expected option) ub" where
  "neighbor_get_process_message ntop m header t = do {
     seq \<leftarrow> nlmsg_seq m header;
     if seq \<noteq> sequence t then Some (t, None)
     else do {
       ty \<leftarrow> nlmsg_type m header;
       if ty = NLMSG_DONE then Some (t, Some neighbor_get_handle_done)
       else if ty = NLMSG_ERROR then do {
         r \<leftarrow> neighbor_get_handle_error m header;
         Some (t, Some r) }
       else if ty = RTM_NEWNEIGH then do {
         r \<leftarrow> neighbor_get_handle_neighbor ntop m header;
         Some (t, r) }
       else Some (t, None) } }"

lemmas neighbor_get_defs = neighbor_get_process_message_def neighbor_get_handle_done_def
  neighbor_get_handle_error_def neighbor_get_handle_neighbor_def

lemma neighbor_get_payload:
  "valid_neighbor_task get_address t \<Longrightarrow>
   neighbor_request_payload (neighbor_get_prepare_request t)
   = Some (enc_neighbor_query RTM_GETNEIGH 0x1 (sequence t) (ifindex t) 0 0 (get_address t))"
  by (simp add: neighbor_get_prepare_request_def neighbor_query_payload)

lemma neighbor_get_frame:
  assumes "embeds b m d" "q = d + p"
  shows "ub_le (neighbor_get_process_message ntop b p s) (neighbor_get_process_message ntop m q s)"
  unfolding neighbor_get_defs
  by (rule frame neighbor_frame assms | assumption | simp add: assms(2))+

interpretation neighbor_get: request_behavior "neighbor_get_process_message ntop"
  neighbor_get_prepare_request neighbor_request_payload sequence "valid_neighbor_task get_address"
proof unfold_locales
  show "ub_le (neighbor_get_process_message ntop b p s) (neighbor_get_process_message ntop m q s)"
    if "embeds b m d" "q = d + p" for b m d q p s
    using that by (rule neighbor_get_frame)
  show "\<exists>bytes. neighbor_request_payload (neighbor_get_prepare_request s) = Some bytes
      \<and> wf_msg bytes \<and> nlmsg_seq bytes 0 = Some (sequence s)"
    if "valid_neighbor_task get_address s" for s
    using that by (simp add: neighbor_get_payload enc_neighbor_query_wf valid_neighbor_task_def)
qed (auto simp: neighbor_get_defs neighbor_get_prepare_request_def bind_eq_Some_conv split: if_splits)

text \<open>
  What one message says about the neighbor: a resolved entry, that there is none, an error, or
  nothing.
\<close>

definition neighbor_answer :: "inet_ntop \<Rightarrow> u8 list \<Rightarrow> neighbor_event expected option ub" where
  "neighbor_answer ntop b = do {
     ty \<leftarrow> nlmsg_type b 0;
     if ty = NLMSG_DONE then Some (Some (Inl (Error_Code Generic_Category ENOENT)))
     else if ty = NLMSG_ERROR then do {
       ec \<leftarrow> nlmsgerr_code b 0;
       Some (Some (Inl (if error_value ec = 0 then Error_Code Generic_Category ENOENT else ec))) }
     else if ty = RTM_NEWNEIGH then do {
       ev \<leftarrow> neighbor_from_nlmsghdr ntop b 0;
       Some (if neighbor_type ev = NEW_NEIGHBOR \<and> neighbor_lladdr ev \<noteq> [] then Some (Inr ev) else None) }
     else Some None }"

lemma neighbor_get_process_own:
  assumes "nlmsg_seq b 0 = Some (sequence t)"
  shows "neighbor_get_process_message ntop b 0 t = map_option (\<lambda>r. (t, r)) (neighbor_answer ntop b)"
proof -
  have "neighbor_type ev \<noteq> NEIGHBOR_UNKNOWN \<longleftrightarrow> neighbor_type ev = NEW_NEIGHBOR"
    if "neighbor_from_nlmsghdr ntop b 0 = Some ev" "nlmsg_type b 0 = Some RTM_NEWNEIGH" for ev
    using neighbor_parser.parse_new [OF that] by simp
  then show ?thesis
    using assms by (auto simp: neighbor_get_defs neighbor_answer_def intro!: option.expand
        split: Option.bind_splits)
qed

text \<open>The first of the task's own messages that answers decides.\<close>

lemma neighbor_get_run:
  assumes "\<And>b. b \<in> set ms \<Longrightarrow> nlmsg_seq b 0 = Some (sequence t) \<and> neighbor_answer ntop b = Some None"
    and "nlmsg_seq d 0 = Some (sequence t)" "neighbor_answer ntop d = Some (Some r)"
  shows "run_msgs (neighbor_get_process_message ntop) (ms @ d # rest) t = Some (t, Some r)"
  using assms by (induction ms) (simp_all add: neighbor_get_process_own)

lemma neighbor_get_answered:
  assumes "valid_neighbor_task get_address t" "wf_answer (length buffer) mss"
    and "filter (\<lambda>b. nlmsg_seq b 0 = Some (sequence t)) (concat mss) = ms @ d # rest"
    and "\<And>b. b \<in> set ms \<Longrightarrow> neighbor_answer ntop b = Some None"
    and "neighbor_answer ntop d = Some (Some r)"
    and "neighbor_request_payload (neighbor_get_prepare_request t) = Some bytes" "length bytes \<le> sum_list ns"
  shows "async_run neighbor_get_prepare_request neighbor_request_payload (neighbor_get_process_message ntop)
      buffer t (map Sent ns) (answers mss)
    = Some (Some (bytes, neighbor_get_prepare_request t, Some r))"
proof -
  have "set (ms @ d # rest) \<subseteq> {b. nlmsg_seq b 0 = Some (sequence t)}"
    unfolding assms(3) [symmetric] by auto
  then have "run_msgs (neighbor_get_process_message ntop)
      (filter (\<lambda>b. nlmsg_seq b 0 = Some (sequence t)) (concat mss)) (neighbor_get_prepare_request t)
      = Some (neighbor_get_prepare_request t, Some r)"
    unfolding assms(3) using assms(4,5)
    by (intro neighbor_get_run) (auto simp: neighbor_get.prepare_seq)
  from neighbor_get.exchange [OF assms(1) this assms(2)] assms(6,7) show ?thesis by auto
qed

end
