(* ===== verification/Nl_Control.thy ===== *)
theory Nl_Control
  imports Nl_Socket Link_Dump_Task Address_Dump_Task Route_Dump_Task Neighbor_Dump_Task Neighbor_Tasks
begin

text \<open>
  \<open>Control\<close> (\<open>include/rtaco/core/nl_control.hxx\<close>, \<open>src/core/nl_control.cxx\<close>): the
  gate every operation passes first, and the operations behind it.

  The gate is a timer. Setting its expiry cancels the waits on it, as Boost.Asio documents, and a
  cancelled wait completes with \<open>operation_aborted\<close>. Time is in nanoseconds, signed, 64 bits.

  An operation is its whole coroutine, given what the clock reads, what the wait at the gate
  completes with and what the sockets answer: \<open>None\<close> where it does not return, then undefined
  behaviour, then an exception or the bytes it has sent and its result, if it has one yet. The
  receive buffer of a task starts with indeterminate contents and is a parameter. The public
  functions spawn these coroutines on the strand and wait for them.
\<close>

section \<open>The gate\<close>

definition s64_plus :: "int \<Rightarrow> int \<Rightarrow> int ub" where
  "s64_plus a b = (let r = a + b in if - (2 ^ 63) \<le> r \<and> r < 2 ^ 63 then Some r else None)"

record gate =
  gate_expiry :: int
  gate_waiters :: "nat list"
  gate_admitted :: "nat list"

definition gate_init :: gate where
  "gate_init = \<lparr>gate_expiry = - (2 ^ 63), gate_waiters = [], gate_admitted = []\<rparr>"

text \<open>The wait ends well when it expires and when it is cancelled.\<close>

definition gate_passed :: "error_code option \<Rightarrow> unit outcome" where
  "gate_passed ec = (case ec of
     None \<Rightarrow> Return ()
   | Some e \<Rightarrow> if e \<noteq> Error_Code System_Category 125 then Throw ''gate wait failed: '' e else Return ())"

lemma gate_passed_None: "gate_passed None = Return ()"
  by (simp add: gate_passed_def)

text \<open>The expiry a request of a token sets.\<close>

definition next_expiry :: "int \<Rightarrow> int \<Rightarrow> int ub" where
  "next_expiry now expiry = do {
     next \<leftarrow> s64_plus expiry 1;
     if next \<le> now then s64_plus now 1 else Some next }"

definition acquire_socket_token :: "nat \<Rightarrow> int \<Rightarrow> gate \<Rightarrow> gate ub" where
  "acquire_socket_token op now g = do {
     next \<leftarrow> next_expiry now (gate_expiry g);
     Some (g\<lparr>gate_expiry := next,
       gate_admitted := gate_admitted g @
         (if gate_passed (Some (Error_Code System_Category 125)) = Return () then gate_waiters g else []),
       gate_waiters := [op]\<rparr>) }"

datatype gate_action = Acquire nat int | Expire int | Finish nat

definition gate_act :: "gate_action \<Rightarrow> gate \<Rightarrow> gate option" where
  "gate_act a g = (case a of
     Acquire op now \<Rightarrow> acquire_socket_token op now g
   | Expire now \<Rightarrow>
       (if gate_expiry g \<le> now \<and> gate_waiters g \<noteq> [] \<and> gate_passed None = Return ()
        then Some (g\<lparr>gate_admitted := gate_admitted g @ gate_waiters g, gate_waiters := []\<rparr>)
        else None)
   | Finish op \<Rightarrow>
       (if op \<in> set (gate_admitted g)
        then Some (g\<lparr>gate_admitted := remove1 op (gate_admitted g)\<rparr>) else None))"

inductive gate_reachable :: "gate \<Rightarrow> bool" where
  gate_start: "gate_reachable gate_init"
| gate_step: "gate_reachable g \<Longrightarrow> gate_act a g = Some g' \<Longrightarrow> gate_reachable g'"

lemma acquire_Some:
  assumes "acquire_socket_token op now g = Some g'"
  shows "gate_expiry g < gate_expiry g' \<and> now < gate_expiry g' \<and> gate_waiters g' = [op]
    \<and> gate_admitted g' = gate_admitted g @ gate_waiters g"
  using assms by (auto simp: acquire_socket_token_def next_expiry_def s64_plus_def gate_passed_def bind_eq_Some_conv
      Let_def split: if_splits)

lemma gate_one_waiter: "gate_reachable g \<Longrightarrow> length (gate_waiters g) \<le> 1"
proof (induction rule: gate_reachable.induct)
  case gate_start
  then show ?case by (simp add: gate_init_def)
next
  case (gate_step g a g')
  then show ?case
    by (cases a) (auto simp: gate_act_def dest: acquire_Some split: if_splits)
qed

text \<open>An operation that waits is admitted by the next thing that happens at the gate but a finish.\<close>

lemma gate_admits:
  assumes "op \<in> set (gate_waiters g)" "gate_act a g = Some g'" "\<And>op. a \<noteq> Finish op"
  shows "op \<in> set (gate_admitted g')"
  using assms by (cases a) (auto simp: gate_act_def dest: acquire_Some split: if_splits)

text \<open>Runs at the gate, and many requests in a row.\<close>

fun gate_acts :: "gate_action list \<Rightarrow> gate \<Rightarrow> gate option" where
  "gate_acts [] g = Some g"
| "gate_acts (a # as) g = (case gate_act a g of None \<Rightarrow> None | Some g' \<Rightarrow> gate_acts as g')"

lemma gate_acts_append:
  "gate_acts (as @ bs) g = (case gate_acts as g of None \<Rightarrow> None | Some g' \<Rightarrow> gate_acts bs g')"
  by (induction as arbitrary: g) (simp_all split: option.split)

lemma gate_requests:
  assumes "int n < 2 ^ 62"
  shows "gate_acts (map (\<lambda>i. Acquire i 0) [0..<Suc n]) gate_init
    = Some \<lparr>gate_expiry = int n + 1, gate_waiters = [n], gate_admitted = [0..<n]\<rparr>"
  using assms
proof (induction n)
  case 0
  then show ?case
    by (simp add: gate_act_def acquire_socket_token_def next_expiry_def gate_init_def s64_plus_def gate_passed_def Let_def)
next
  case (Suc n)
  have "gate_acts (map (\<lambda>i. Acquire i 0) [0..<Suc n] @ [Acquire (Suc n) 0]) gate_init
      = Some \<lparr>gate_expiry = int (Suc n) + 1, gate_waiters = [Suc n], gate_admitted = [0..<Suc n]\<rparr>"
    using Suc
    by (subst gate_acts_append)
      (simp add: gate_act_def acquire_socket_token_def next_expiry_def s64_plus_def gate_passed_def Let_def)
  then show ?case by simp
qed

section \<open>The operations\<close>

record control =
  c_guard :: socket_guard
  c_sequence :: u32
  c_expiry :: int

definition control_init :: control where
  "control_init = \<lparr>c_guard = socket_guard_init ''nl-control'', c_sequence = 1, c_expiry = - (2 ^ 63)\<rparr>"

text \<open>\<open>sequence_.fetch_add(1)\<close>\<close>

definition fetch_add :: "control \<Rightarrow> control \<times> u32" where
  "fetch_add c = (c\<lparr>c_sequence := c_sequence c + 1\<rparr>, c_sequence c)"

definition control_stop :: "os \<Rightarrow> control \<Rightarrow> control" where
  "control_stop os c = c\<lparr>c_guard := guard_stop os (c_guard c)\<rparr>"

type_synonym 'r run_result = "(u8 list \<times> 'r expected option) outcome ub option"

definition task_result :: "(u8 list \<times> 's \<times> 'r expected option) ub option \<Rightarrow> 'r run_result" where
  "task_result = map_option (map_option (\<lambda>(wire, s, r). Return (wire, r)))"

text \<open>
  Each operation first requests a token: it sets the expiry of the timer and waits. The reading of
  the clock and what the wait completes with, \<open>None\<close> when the timer expires, are the environment's;
  what the request does to the operations that wait already is the machine above.
\<close>

record gate_pass =
  gp_now :: int
  gp_wait :: "error_code option"

definition past_gate ::
  "gate_pass \<Rightarrow> (control \<Rightarrow> control \<times> 'r run_result) \<Rightarrow> control \<Rightarrow> control \<times> 'r run_result" where
  "past_gate wait body c = (case next_expiry (gp_now wait) (c_expiry c) of
     None \<Rightarrow> (c, Some None)
   | Some next \<Rightarrow>
       (let c = c\<lparr>c_expiry := next\<rparr>
        in case gate_passed (gp_wait wait) of
             Throw text ec \<Rightarrow> (c, Some (Some (Throw text ec)))
           | Return _ \<Rightarrow> body c))"

text \<open>The state with which an operation is let through, if it is.\<close>

definition enter_gate :: "gate_pass \<Rightarrow> control \<Rightarrow> control option" where
  "enter_gate wait c = do {
     next \<leftarrow> next_expiry (gp_now wait) (c_expiry c);
     if gate_passed (gp_wait wait) = Return () then Some (c\<lparr>c_expiry := next\<rparr>) else None }"

lemma past_gate_enter: "enter_gate wait c = Some c1 \<Longrightarrow> past_gate wait body c = body c1"
  by (auto simp: enter_gate_def past_gate_def bind_eq_Some_conv split: if_splits)

lemma enter_gate_simps:
  "enter_gate wait c = Some c1 \<Longrightarrow> c_sequence c1 = c_sequence c"
  "enter_gate wait c = Some c1 \<Longrightarrow> c_guard c1 = c_guard c"
  by (auto simp: enter_gate_def bind_eq_Some_conv split: if_splits)

definition async_dump_routes_impl ::
  "inet_ntop \<Rightarrow> gate_pass \<Rightarrow> os \<Rightarrow> mem \<Rightarrow> send_outcome list \<Rightarrow> recv_outcome list \<Rightarrow> control \<Rightarrow> control \<times> route_event list run_result" where
  "async_dump_routes_impl ntop wait os buffer sends recvs c = past_gate wait (\<lambda>c.
      case ensure_open os (socket_guard_init ''nl-control-route'') of
        (guard, Throw text ec) \<Rightarrow> (c, Some (Some (Throw text ec)))
      | (guard, Return (Inl ec)) \<Rightarrow> (c, Some (Some (Return ([], Some (Inl ec)))))
      | (guard, Return (Inr _)) \<Rightarrow>
          (let (c, sequence) = fetch_add c
           in (c, task_result (async_run route_dump_prepare_request route_request_payload
                (route_dump_process_message ntop) buffer (route_dump_init 0 sequence) sends recvs)))) c"

definition async_dump_addresses_impl ::
  "inet_ntop \<Rightarrow> gate_pass \<Rightarrow> os \<Rightarrow> mem \<Rightarrow> send_outcome list \<Rightarrow> recv_outcome list \<Rightarrow> control \<Rightarrow> control \<times> address_event list run_result" where
  "async_dump_addresses_impl ntop wait os buffer sends recvs c = past_gate wait (\<lambda>c.
      case ensure_open os (socket_guard_init ''nl-control-address'') of
        (guard, Throw text ec) \<Rightarrow> (c, Some (Some (Throw text ec)))
      | (guard, Return (Inl ec)) \<Rightarrow> (c, Some (Some (Return ([], Some (Inl ec)))))
      | (guard, Return (Inr _)) \<Rightarrow>
          (let (c, sequence) = fetch_add c
           in (c, task_result (async_run address_dump_prepare_request address_request_payload
                (address_dump_process_message ntop) buffer (address_dump_init 0 sequence) sends recvs)))) c"

definition async_dump_neighbors_impl ::
  "inet_ntop \<Rightarrow> gate_pass \<Rightarrow> os \<Rightarrow> mem \<Rightarrow> send_outcome list \<Rightarrow> recv_outcome list \<Rightarrow> control \<Rightarrow> control \<times> neighbor_event list run_result" where
  "async_dump_neighbors_impl ntop wait os buffer sends recvs c = past_gate wait (\<lambda>c.
      case ensure_open os (socket_guard_init ''nl-control-neighbor'') of
        (guard, Throw text ec) \<Rightarrow> (c, Some (Some (Throw text ec)))
      | (guard, Return (Inl ec)) \<Rightarrow> (c, Some (Some (Return ([], Some (Inl ec)))))
      | (guard, Return (Inr _)) \<Rightarrow>
          (let (c, sequence) = fetch_add c
           in (c, task_result (async_run neighbor_dump_prepare_request neighbor_request_payload
                (neighbor_dump_process_message ntop) buffer (neighbor_dump_init 0 sequence) sends recvs)))) c"

definition async_dump_links_impl ::
  "gate_pass \<Rightarrow> os \<Rightarrow> mem \<Rightarrow> send_outcome list \<Rightarrow> recv_outcome list \<Rightarrow> control \<Rightarrow> control \<times> link_event list run_result" where
  "async_dump_links_impl wait os buffer sends recvs c = past_gate wait (\<lambda>c.
      case ensure_open os (socket_guard_init ''nl-control-link'') of
        (guard, Throw text ec) \<Rightarrow> (c, Some (Some (Throw text ec)))
      | (guard, Return (Inl ec)) \<Rightarrow> (c, Some (Some (Return ([], Some (Inl ec)))))
      | (guard, Return (Inr _)) \<Rightarrow>
          (let (c, sequence) = fetch_add c
           in (c, task_result (async_run link_dump_prepare_request link_request_payload
                link_dump_process_message buffer (link_dump_init 0 sequence) sends recvs)))) c"

definition async_probe_neighbor_impl ::
  "u16 \<Rightarrow> u8 list \<Rightarrow> gate_pass \<Rightarrow> os \<Rightarrow> mem \<Rightarrow> send_outcome list \<Rightarrow> recv_outcome list \<Rightarrow> control \<Rightarrow> control \<times> unit run_result" where
  "async_probe_neighbor_impl index address wait os buffer sends recvs c = past_gate wait (\<lambda>c.
      case ensure_open os (c_guard c) of
        (guard, Throw text ec) \<Rightarrow> (c\<lparr>c_guard := guard\<rparr>, Some (Some (Throw text ec)))
      | (guard, Return (Inl ec)) \<Rightarrow> (c\<lparr>c_guard := guard\<rparr>, Some (Some (Return ([], Some (Inl ec)))))
      | (guard, Return (Inr _)) \<Rightarrow>
          (let (c, sequence) = fetch_add (c\<lparr>c_guard := guard\<rparr>)
           in (c, task_result (async_run neighbor_probe_prepare_request neighbor_request_payload
                neighbor_probe_process_message buffer (neighbor_probe_init index sequence address) sends recvs)))) c"

definition async_flush_neighbor_impl ::
  "u16 \<Rightarrow> u8 list \<Rightarrow> gate_pass \<Rightarrow> os \<Rightarrow> mem \<Rightarrow> send_outcome list \<Rightarrow> recv_outcome list \<Rightarrow> control \<Rightarrow> control \<times> unit run_result" where
  "async_flush_neighbor_impl index address wait os buffer sends recvs c = past_gate wait (\<lambda>c.
      case ensure_open os (c_guard c) of
        (guard, Throw text ec) \<Rightarrow> (c\<lparr>c_guard := guard\<rparr>, Some (Some (Throw text ec)))
      | (guard, Return (Inl ec)) \<Rightarrow> (c\<lparr>c_guard := guard\<rparr>, Some (Some (Return ([], Some (Inl ec)))))
      | (guard, Return (Inr _)) \<Rightarrow>
          (let (c, sequence) = fetch_add (c\<lparr>c_guard := guard\<rparr>)
           in (c, task_result (async_run neighbor_flush_prepare_request neighbor_request_payload
                neighbor_flush_process_message buffer (neighbor_flush_init index sequence address) sends recvs)))) c"

definition async_get_neighbor_impl ::
  "inet_ntop \<Rightarrow> u16 \<Rightarrow> u8 list \<Rightarrow> gate_pass \<Rightarrow> os \<Rightarrow> mem \<Rightarrow> send_outcome list \<Rightarrow> recv_outcome list \<Rightarrow> control
    \<Rightarrow> control \<times> neighbor_event run_result" where
  "async_get_neighbor_impl ntop index address wait os buffer sends recvs c = past_gate wait (\<lambda>c.
      case ensure_open os (c_guard c) of
        (guard, Throw text ec) \<Rightarrow> (c\<lparr>c_guard := guard\<rparr>, Some (Some (Throw text ec)))
      | (guard, Return (Inl ec)) \<Rightarrow> (c\<lparr>c_guard := guard\<rparr>, Some (Some (Return ([], Some (Inl ec)))))
      | (guard, Return (Inr _)) \<Rightarrow>
          (let (c, sequence) = fetch_add (c\<lparr>c_guard := guard\<rparr>)
           in (c, task_result (async_run neighbor_get_prepare_request neighbor_request_payload
                (neighbor_get_process_message ntop) buffer (neighbor_get_init index sequence address) sends recvs)))) c"

section \<open>The public functions\<close>

text \<open>
  What the caller of a public function gets: the result, the exception of the coroutine
  rethrown, or nothing as long as the coroutine has not ended. The synchronous functions block
  the calling thread in \<open>future.get()\<close> until another thread has run the coroutine to its end, the
  asynchronous ones suspend the calling coroutine.
\<close>

datatype 'r returned = Returned "'r expected" | Rethrown string error_code | Still_Waiting

definition future_get :: "control \<times> 'r run_result \<Rightarrow> control \<times> 'r returned ub" where
  "future_get r = (case r of
     (c, None) \<Rightarrow> (c, Some Still_Waiting)
   | (c, Some None) \<Rightarrow> (c, None)
   | (c, Some (Some (Throw text ec))) \<Rightarrow> (c, Some (Rethrown text ec))
   | (c, Some (Some (Return (wire, None)))) \<Rightarrow> (c, Some Still_Waiting)
   | (c, Some (Some (Return (wire, Some r)))) \<Rightarrow> (c, Some (Returned r)))"

definition co_await_spawned :: "control \<times> 'r run_result \<Rightarrow> control \<times> 'r returned ub" where
  "co_await_spawned r = (case r of
     (c, None) \<Rightarrow> (c, Some Still_Waiting)
   | (c, Some None) \<Rightarrow> (c, None)
   | (c, Some (Some (Throw text ec))) \<Rightarrow> (c, Some (Rethrown text ec))
   | (c, Some (Some (Return (wire, None)))) \<Rightarrow> (c, Some Still_Waiting)
   | (c, Some (Some (Return (wire, Some r)))) \<Rightarrow> (c, Some (Returned r)))"

definition dump_routes ::
  "inet_ntop \<Rightarrow> gate_pass \<Rightarrow> os \<Rightarrow> mem \<Rightarrow> send_outcome list \<Rightarrow> recv_outcome list
    \<Rightarrow> control \<Rightarrow> control \<times> (route_event list) returned ub" where
  "dump_routes ntop wait os buffer sends recvs c =
     future_get (async_dump_routes_impl ntop wait os buffer sends recvs c)"

definition async_dump_routes ::
  "inet_ntop \<Rightarrow> gate_pass \<Rightarrow> os \<Rightarrow> mem \<Rightarrow> send_outcome list \<Rightarrow> recv_outcome list
    \<Rightarrow> control \<Rightarrow> control \<times> (route_event list) returned ub" where
  "async_dump_routes ntop wait os buffer sends recvs c =
     co_await_spawned (async_dump_routes_impl ntop wait os buffer sends recvs c)"

definition dump_addresses ::
  "inet_ntop \<Rightarrow> gate_pass \<Rightarrow> os \<Rightarrow> mem \<Rightarrow> send_outcome list \<Rightarrow> recv_outcome list
    \<Rightarrow> control \<Rightarrow> control \<times> (address_event list) returned ub" where
  "dump_addresses ntop wait os buffer sends recvs c =
     future_get (async_dump_addresses_impl ntop wait os buffer sends recvs c)"

definition async_dump_addresses ::
  "inet_ntop \<Rightarrow> gate_pass \<Rightarrow> os \<Rightarrow> mem \<Rightarrow> send_outcome list \<Rightarrow> recv_outcome list
    \<Rightarrow> control \<Rightarrow> control \<times> (address_event list) returned ub" where
  "async_dump_addresses ntop wait os buffer sends recvs c =
     co_await_spawned (async_dump_addresses_impl ntop wait os buffer sends recvs c)"

definition dump_neighbors ::
  "inet_ntop \<Rightarrow> gate_pass \<Rightarrow> os \<Rightarrow> mem \<Rightarrow> send_outcome list \<Rightarrow> recv_outcome list
    \<Rightarrow> control \<Rightarrow> control \<times> (neighbor_event list) returned ub" where
  "dump_neighbors ntop wait os buffer sends recvs c =
     future_get (async_dump_neighbors_impl ntop wait os buffer sends recvs c)"

definition async_dump_neighbors ::
  "inet_ntop \<Rightarrow> gate_pass \<Rightarrow> os \<Rightarrow> mem \<Rightarrow> send_outcome list \<Rightarrow> recv_outcome list
    \<Rightarrow> control \<Rightarrow> control \<times> (neighbor_event list) returned ub" where
  "async_dump_neighbors ntop wait os buffer sends recvs c =
     co_await_spawned (async_dump_neighbors_impl ntop wait os buffer sends recvs c)"

definition dump_links ::
  "gate_pass \<Rightarrow> os \<Rightarrow> mem \<Rightarrow> send_outcome list \<Rightarrow> recv_outcome list
    \<Rightarrow> control \<Rightarrow> control \<times> (link_event list) returned ub" where
  "dump_links wait os buffer sends recvs c =
     future_get (async_dump_links_impl wait os buffer sends recvs c)"

definition async_dump_links ::
  "gate_pass \<Rightarrow> os \<Rightarrow> mem \<Rightarrow> send_outcome list \<Rightarrow> recv_outcome list
    \<Rightarrow> control \<Rightarrow> control \<times> (link_event list) returned ub" where
  "async_dump_links wait os buffer sends recvs c =
     co_await_spawned (async_dump_links_impl wait os buffer sends recvs c)"

definition probe_neighbor ::
  "u16 \<Rightarrow> u8 list \<Rightarrow> gate_pass \<Rightarrow> os \<Rightarrow> mem \<Rightarrow> send_outcome list \<Rightarrow> recv_outcome list
    \<Rightarrow> control \<Rightarrow> control \<times> unit returned ub" where
  "probe_neighbor index address wait os buffer sends recvs c =
     future_get (async_probe_neighbor_impl index address wait os buffer sends recvs c)"

definition async_probe_neighbor ::
  "u16 \<Rightarrow> u8 list \<Rightarrow> gate_pass \<Rightarrow> os \<Rightarrow> mem \<Rightarrow> send_outcome list \<Rightarrow> recv_outcome list
    \<Rightarrow> control \<Rightarrow> control \<times> unit returned ub" where
  "async_probe_neighbor index address wait os buffer sends recvs c =
     co_await_spawned (async_probe_neighbor_impl index address wait os buffer sends recvs c)"

definition flush_neighbor ::
  "u16 \<Rightarrow> u8 list \<Rightarrow> gate_pass \<Rightarrow> os \<Rightarrow> mem \<Rightarrow> send_outcome list \<Rightarrow> recv_outcome list
    \<Rightarrow> control \<Rightarrow> control \<times> unit returned ub" where
  "flush_neighbor index address wait os buffer sends recvs c =
     future_get (async_flush_neighbor_impl index address wait os buffer sends recvs c)"

definition async_flush_neighbor ::
  "u16 \<Rightarrow> u8 list \<Rightarrow> gate_pass \<Rightarrow> os \<Rightarrow> mem \<Rightarrow> send_outcome list \<Rightarrow> recv_outcome list
    \<Rightarrow> control \<Rightarrow> control \<times> unit returned ub" where
  "async_flush_neighbor index address wait os buffer sends recvs c =
     co_await_spawned (async_flush_neighbor_impl index address wait os buffer sends recvs c)"

definition get_neighbor ::
  "inet_ntop \<Rightarrow> u16 \<Rightarrow> u8 list \<Rightarrow> gate_pass \<Rightarrow> os \<Rightarrow> mem \<Rightarrow> send_outcome list \<Rightarrow> recv_outcome list
    \<Rightarrow> control \<Rightarrow> control \<times> neighbor_event returned ub" where
  "get_neighbor ntop index address wait os buffer sends recvs c =
     future_get (async_get_neighbor_impl ntop index address wait os buffer sends recvs c)"

definition async_get_neighbor ::
  "inet_ntop \<Rightarrow> u16 \<Rightarrow> u8 list \<Rightarrow> gate_pass \<Rightarrow> os \<Rightarrow> mem \<Rightarrow> send_outcome list \<Rightarrow> recv_outcome list
    \<Rightarrow> control \<Rightarrow> control \<times> neighbor_event returned ub" where
  "async_get_neighbor ntop index address wait os buffer sends recvs c =
     co_await_spawned (async_get_neighbor_impl ntop index address wait os buffer sends recvs c)"

section \<open>Operations on one neighbor\<close>

lemma enc_neighbor_query_length:
  "length address = 16 \<Longrightarrow> length (enc_neighbor_query ty fl seq index st nf address) \<le> 48"
  by (simp add: enc_neighbor_query_def enc_attr_def pad4_def)

lemma copied_address: "length address = 16 \<Longrightarrow> map ((!) address) [0..<16] = address"
  using map_nth [of address] by simp

text \<open>The tasks as the operations construct them.\<close>

lemma neighbor_get_init_simps [simp]:
  "sequence (neighbor_get_init index seq address) = seq" "ifindex (neighbor_get_init index seq address) = index"
  "length address = 16 \<Longrightarrow> get_address (neighbor_get_init index seq address) = address"
  "length address = 16 \<Longrightarrow> valid_neighbor_task get_address (neighbor_get_init index seq address)"
  by (simp_all add: neighbor_get_init_def valid_neighbor_task_def zero_neighbor_request_def copied_address)

lemma neighbor_probe_init_simps [simp]:
  "sequence (neighbor_probe_init index seq address) = seq" "ifindex (neighbor_probe_init index seq address) = index"
  "length address = 16 \<Longrightarrow> probe_address (neighbor_probe_init index seq address) = address"
  "length address = 16 \<Longrightarrow> valid_neighbor_task probe_address (neighbor_probe_init index seq address)"
  by (simp_all add: neighbor_probe_init_def valid_neighbor_task_def zero_neighbor_request_def copied_address)

lemma neighbor_flush_init_simps [simp]:
  "sequence (neighbor_flush_init index seq address) = seq" "ifindex (neighbor_flush_init index seq address) = index"
  "length address = 16 \<Longrightarrow> flush_address (neighbor_flush_init index seq address) = address"
  "length address = 16 \<Longrightarrow> valid_neighbor_task flush_address (neighbor_flush_init index seq address)"
  by (simp_all add: neighbor_flush_init_def valid_neighbor_task_def zero_neighbor_request_def copied_address)

lemma get_neighbor_run:
  assumes "enter_gate wait c = Some c1" "snd (ensure_open os (c_guard c)) = Return (Inr ())" "length address = 16"
    and "wf_answer (length buffer) mss" "48 \<le> sum_list ns"
    and "filter (\<lambda>b. nlmsg_seq b 0 = Some (c_sequence c)) (concat mss) = ms @ d # rest"
    and "\<And>b. b \<in> set ms \<Longrightarrow> neighbor_answer ntop b = Some None"
    and "neighbor_answer ntop d = Some (Some r)"
  shows "async_get_neighbor_impl ntop index address wait os buffer (map Sent ns) (answers mss) c
    = (c1\<lparr>c_guard := fst (ensure_open os (c_guard c)), c_sequence := c_sequence c + 1\<rparr>,
       Some (Some (Return (enc_neighbor_query RTM_GETNEIGH NLM_F_REQUEST (c_sequence c) index 0 0 address, Some r))))"
proof -
  let ?t = "neighbor_get_init index (c_sequence c) address"
  let ?q = "enc_neighbor_query RTM_GETNEIGH NLM_F_REQUEST (c_sequence c) index 0 0 address"
  have t: "valid_neighbor_task get_address ?t" using assms(3) by simp
  have p: "neighbor_request_payload (neighbor_get_prepare_request ?t) = Some ?q"
    using neighbor_get_payload [OF t] assms(3) by simp
  have n: "length ?q \<le> sum_list ns"
    using enc_neighbor_query_length [OF assms(3)] assms(5) order_trans by blast
  have f: "filter (\<lambda>b. nlmsg_seq b 0 = Some (sequence ?t)) (concat mss) = ms @ d # rest"
    using assms(6) by simp
  obtain g where "ensure_open os (c_guard c) = (g, Return (Inr ()))"
    using assms(2) by (cases "ensure_open os (c_guard c)") simp
  then show ?thesis
    using neighbor_get_answered [OF t assms(4) f assms(7,8) p n]
    by (simp add: async_get_neighbor_impl_def past_gate_enter [OF assms(1)] enter_gate_simps [OF assms(1)] fetch_add_def task_result_def)
qed

lemma probe_neighbor_run:
  assumes "enter_gate wait c = Some c1" "snd (ensure_open os (c_guard c)) = Return (Inr ())" "length address = 16"
    and "wf_answer (length buffer) mss" "48 \<le> sum_list ns"
    and "filter (\<lambda>b. nlmsg_seq b 0 = Some (c_sequence c)) (concat mss) = ms @ d # rest"
    and "\<And>b. b \<in> set ms \<Longrightarrow> \<exists>ty. nlmsg_type b 0 = Some ty \<and> ty \<noteq> NLMSG_ERROR"
    and "nlmsg_type d 0 = Some NLMSG_ERROR" "nlmsgerr_code d 0 = Some ec"
  shows "async_probe_neighbor_impl index address wait os buffer (map Sent ns) (answers mss) c
    = (c1\<lparr>c_guard := fst (ensure_open os (c_guard c)), c_sequence := c_sequence c + 1\<rparr>,
       Some (Some (Return (enc_neighbor_query RTM_NEWNEIGH 0x505 (c_sequence c) index NUD_PROBE NTF_USE address,
         Some (if error_value ec = 0 then Inr () else Inl ec)))))"
proof -
  let ?t = "neighbor_probe_init index (c_sequence c) address"
  let ?q = "enc_neighbor_query RTM_NEWNEIGH 0x505 (c_sequence c) index NUD_PROBE NTF_USE address"
  have t: "valid_neighbor_task probe_address ?t" using assms(3) by simp
  have p: "neighbor_request_payload (neighbor_probe_prepare_request ?t) = Some ?q"
    using neighbor_probe_payload [OF t] assms(3) by simp
  have n: "length ?q \<le> sum_list ns"
    using enc_neighbor_query_length [OF assms(3)] assms(5) order_trans by blast
  have f: "filter (\<lambda>b. nlmsg_seq b 0 = Some (sequence ?t)) (concat mss) = ms @ d # rest"
    using assms(6) by simp
  obtain g where "ensure_open os (c_guard c) = (g, Return (Inr ()))"
    using assms(2) by (cases "ensure_open os (c_guard c)") simp
  then show ?thesis
    using neighbor_probe.ack_exchange [OF t assms(4) f assms(7-9) p n]
    by (simp add: async_probe_neighbor_impl_def past_gate_enter [OF assms(1)] enter_gate_simps [OF assms(1)] fetch_add_def task_result_def)
qed

lemma flush_neighbor_run:
  assumes "enter_gate wait c = Some c1" "snd (ensure_open os (c_guard c)) = Return (Inr ())" "length address = 16"
    and "wf_answer (length buffer) mss" "48 \<le> sum_list ns"
    and "filter (\<lambda>b. nlmsg_seq b 0 = Some (c_sequence c)) (concat mss) = ms @ d # rest"
    and "\<And>b. b \<in> set ms \<Longrightarrow> \<exists>ty. nlmsg_type b 0 = Some ty \<and> ty \<noteq> NLMSG_ERROR"
    and "nlmsg_type d 0 = Some NLMSG_ERROR" "nlmsgerr_code d 0 = Some ec"
  shows "async_flush_neighbor_impl index address wait os buffer (map Sent ns) (answers mss) c
    = (c1\<lparr>c_guard := fst (ensure_open os (c_guard c)), c_sequence := c_sequence c + 1\<rparr>,
       Some (Some (Return (enc_neighbor_query RTM_DELNEIGH 0x5 (c_sequence c) index 0 0 address,
         Some (if error_value ec = 0 then Inr () else Inl ec)))))"
proof -
  let ?t = "neighbor_flush_init index (c_sequence c) address"
  let ?q = "enc_neighbor_query RTM_DELNEIGH 0x5 (c_sequence c) index 0 0 address"
  have t: "valid_neighbor_task flush_address ?t" using assms(3) by simp
  have p: "neighbor_request_payload (neighbor_flush_prepare_request ?t) = Some ?q"
    using neighbor_flush_payload [OF t] assms(3) by simp
  have n: "length ?q \<le> sum_list ns"
    using enc_neighbor_query_length [OF assms(3)] assms(5) order_trans by blast
  have f: "filter (\<lambda>b. nlmsg_seq b 0 = Some (sequence ?t)) (concat mss) = ms @ d # rest"
    using assms(6) by simp
  obtain g where "ensure_open os (c_guard c) = (g, Return (Inr ()))"
    using assms(2) by (cases "ensure_open os (c_guard c)") simp
  then show ?thesis
    using neighbor_flush.ack_exchange [OF t assms(4) f assms(7-9) p n]
    by (simp add: async_flush_neighbor_impl_def past_gate_enter [OF assms(1)] enter_gate_simps [OF assms(1)] fetch_add_def task_result_def)
qed

section \<open>Properties\<close>

text \<open>
  C25. The gate does not serialize the operations: every request of a token lets the operation that
  was waiting before it pass, so after requests in a row all operations but the last one are past
  the gate at the same time, though none of them has finished.
\<close>

theorem gate_admits_all:
  assumes "int n < 2 ^ 62"
  shows "\<exists>g. gate_acts (map (\<lambda>i. Acquire i 0) [0..<Suc n]) gate_init = Some g
    \<and> gate_admitted g = [0..<n] \<and> gate_waiters g = [n]"
  using gate_requests [OF assms] by simp

lemma gate_admits_all_witness:
  "\<exists>g. gate_acts (map (\<lambda>i. Acquire i 0) [0..<Suc 3]) gate_init = Some g
    \<and> gate_admitted g = [0..<3] \<and> gate_waiters g = [3]"
  by (rule gate_admits_all) simp

end
