(* ===== verification/Memory_Safety.thy ===== *)
theory Memory_Safety
  imports Listener_States Nl_Control
begin

text \<open>
  What holds of arbitrary bytes. As long as the number of received bytes is a multiple of 4 and 16
  bytes of the buffer are left behind them, the loops over messages and attributes return and read
  inside of the buffer: for the listener, whose buffer ends in NUL, whatever the bytes; for the tasks,
  whose buffers hold anything at first, when the strings they are sent end in NUL, up to the one
  error number that cannot be negated. The 16 bytes and the NUL are needed because addresses and
  strings are read without regard to the length of their attribute.
\<close>

section \<open>Attributes\<close>

text \<open>
  What is asked of the bytes that are received: what looks like an attribute with a string, an
  \<open>IFLA_IFNAME\<close> or \<open>IFA_LABEL\<close> (both are 3) at a multiple of 4, has a NUL in it.
\<close>

definition string_ends :: "u8 list \<Rightarrow> ptr \<Rightarrow> bool" where
  "string_ends data a \<longleftrightarrow> (case (rta_len data a, rta_type data a) of
     (Some len, Some ty) \<Rightarrow>
       ty = IFLA_IFNAME \<and> 4 < unat len \<and> a + unat len \<le> length data \<longrightarrow> 0 \<in> set (take (unat len - 4) (drop (a + 4) data))
   | _ \<Rightarrow> True)"

definition strings_end :: "u8 list \<Rightarrow> bool" where
  "strings_end data \<longleftrightarrow> list_all (\<lambda>a. 4 dvd a \<longrightarrow> string_ends data a) [0..<length data]"

text \<open>\<open>roomy m e\<close>: what lies before \<open>e\<close> may be read past, as far as the helpers do.\<close>

definition roomy :: "mem \<Rightarrow> ptr \<Rightarrow> bool" where
  "roomy m e \<longleftrightarrow> e + 16 \<le> length m \<and> length m < 2 ^ 31 \<and> (last m = 0 \<or> strings_end (take e m))"

lemma c_string_defined:
  assumes "p \<le> q" "q < length m" "m ! q = 0"
  shows "\<exists>s. c_string m p = Some s"
  using assms(1)
proof (induction "q - p" arbitrary: p)
  case 0
  then have "p = q" by simp
  then show ?case using assms(2,3) by (subst c_string.simps) simp
next
  case (Suc n)
  then have "\<exists>s. c_string m (p + 1) = Some s" by (intro Suc.hyps) simp_all
  then show ?case using Suc.hyps(2) assms(2) by (subst c_string.simps) auto
qed

text \<open>What the helpers read of an attribute with a string.\<close>

lemma string_attr_defined:
  assumes "roomy m e" "4 dvd a" "rta_len m a = Some len" "rta_type m a = Some IFLA_IFNAME"
    and "4 < unat len" "a + unat len \<le> e"
  shows "\<exists>s. c_string m (a + 4) = Some s"
proof (cases "last m = 0")
  case True
  have "e + 16 \<le> length m" using assms(1) by (simp add: roomy_def)
  then have "a + 4 \<le> length m - 1" "length m - 1 < length m" using assms(5,6) by linarith+
  moreover have "m ! (length m - 1) = 0"
    using True assms(1) last_conv_nth [of m] by (cases "m = []") (simp_all add: roomy_def)
  ultimately show ?thesis by (rule c_string_defined)
next
  case False
  then have ends: "strings_end (take e m)" and e: "e \<le> length m" using assms(1) by (simp_all add: roomy_def)
  have emb: "embeds (take e m) m 0" by (rule embedsI [of _ "[]" _ "drop e m"]) simp_all
  have "\<exists>v. rta_len (take e m) a = Some v" "\<exists>v. rta_type (take e m) a = Some v"
    using assms(5,6) e rd16_defined_iff [of "take e m" a] rd16_defined_iff [of "take e m" "a + 2"]
    by (simp_all add: rta_len_def rta_type_def)
  then have hdr: "rta_len (take e m) a = Some len" "rta_type (take e m) a = Some IFLA_IFNAME"
    using rtattr_frame [OF emb, of a a] assms(3,4) by (auto simp: ub_le_def)
  have "a < length (take e m)" using assms(5,6) e by simp
  then have "string_ends (take e m) a" using ends assms(2) by (simp add: strings_end_def list_all_iff)
  then have "0 \<in> set (take (unat len - 4) (drop (a + 4) (take e m)))"
    using assms(5,6) e by (simp add: string_ends_def hdr)
  then obtain i where "i < unat len - 4" "m ! (a + 4 + i) = 0"
    using assms(6) e by (auto simp: in_set_conv_nth)
  then show ?thesis using assms(5,6) e by (intro c_string_defined [of _ "a + 4 + i"]) simp_all
qed

text \<open>A 32-bit length as a natural number and as an integer.\<close>

lemma len_number: "\<exists>k. unat (len :: u32) = k \<and> uint len = int k"
  using uint_nat [of len] by blast

lemma attr_loop_defined:
  assumes "4 \<le> n \<Longrightarrow> a + nat n \<le> e" "e \<le> length m" "4 dvd a"
    and "\<And>a s len. 4 dvd a \<Longrightarrow> rta_len m a = Some len \<Longrightarrow> 4 \<le> unat len \<Longrightarrow> a + unat len \<le> e \<Longrightarrow>
      \<exists>s'. fn a s = Some s'"
  shows "\<exists>s'. attr_loop fn m a n s = Some s'"
  using assms(1,3)
proof (induction "nat n" arbitrary: a n s rule: less_induct)
  case less
  show ?case
  proof (cases "n < 4")
    case True
    then show ?thesis by (subst attr_loop.simps) (simp add: RTA_OK_def)
  next
    case False
    then have fits: "a + nat n \<le> e" using less.prems(1) by simp
    then have "a + 2 \<le> length m" using False assms(2) by linarith
    then obtain len where len: "rta_len m a = Some len"
      using rd16_defined_iff [of m a] unfolding rta_len_def by blast
    show ?thesis
    proof (cases "4 \<le> len \<and> uint len \<le> n")
      case bad: False
      then have "RTA_OK m a n = Some False" using False by (auto simp: RTA_OK_def len)
      then show ?thesis by (subst attr_loop.simps) simp
    next
      case True
      then have ok: "RTA_OK m a n = Some True" using False by (simp add: RTA_OK_def len)
      have "int (unat len) \<le> n" using True by (simp only: uint_nat [symmetric] conj_absorb)
      then have "nat (int (unat len)) \<le> nat n" by (rule nat_mono)
      moreover have "4 \<le> unat len" using True by (simp add: word_le_nat_alt)
      ultimately have bounds: "4 \<le> unat len" "unat len \<le> nat n" unfolding nat_int by blast+
      obtain s' where s': "fn a s = Some s'"
        using assms(4) [OF less.prems(2) len bounds(1)] bounds(2) fits by force
      obtain k where k: "unat (RTA_ALIGN (ucast len)) = k" "uint (RTA_ALIGN (ucast len)) = int k"
        using len_number by blast
      have "4 \<le> k"
        unfolding k(1) [symmetric] unat_RTA_ALIGN_u16 using bounds(1) align4_ge [of "unat len"] by (rule order_trans)
      moreover have "4 dvd a + k" using less.prems(2) unfolding k(1) [symmetric] unat_RTA_ALIGN_u16 by simp
      ultimately have "\<exists>s''. attr_loop fn m (a + k) (n - int k) s' = Some s''"
        using False fits by (intro less.hyps; linarith)
      then show ?thesis by (subst attr_loop.simps) (simp add: ok s' len k)
    qed
  qed
qed

text \<open>The attribute helpers on an attribute that lies before \<open>e\<close>.\<close>

lemma rta_type_defined:
  assumes "4 \<le> unat (len :: u16)" "a + unat len \<le> e" "roomy m e"
  shows "\<exists>ty. rta_type m a = Some ty"
  using assms rd16_defined_iff [of m "a + 2"] by (simp add: rta_type_def roomy_def)

lemma attribute_helpers_defined:
  assumes "rta_len m a = Some len" "4 \<le> unat len" "a + unat len \<le> e" "roomy m e"
  shows "4 dvd a \<Longrightarrow> rta_type m a = Some IFLA_IFNAME \<Longrightarrow> \<exists>s. attribute_string m a = Some s"
    "\<exists>s. attribute_address ntop m a family = Some s"
    "\<exists>v. attribute_uint32 m a = Some v" "\<exists>s. attribute_hwaddr m a = Some s"
proof -
  have pay: "unat (RTA_PAYLOAD len) = unat len - 4" using assms(2) by (rule RTA_PAYLOAD_eq)
  have room: "a + 20 \<le> length m" "a + unat len \<le> length m"
    using assms(2-4) by (simp_all add: roomy_def)
  show "\<exists>s. attribute_string m a = Some s" if "4 dvd a" "rta_type m a = Some IFLA_IFNAME"
  proof (cases "RTA_PAYLOAD len = 0")
    case True
    then show ?thesis by (simp add: attribute_string_def assms(1))
  next
    case False
    then have "unat (RTA_PAYLOAD len) \<noteq> 0" by (simp only: unat_eq_zero not_False_eq_True)
    then have "4 < unat len" using pay by simp
    then show ?thesis
      using string_attr_defined [OF assms(4) that(1) assms(1) that(2) _ assms(3)] assms(1)
      by (auto simp: attribute_string_def RTA_DATA_def)
  qed
  show "\<exists>s. attribute_address ntop m a family = Some s"
    using room by (auto simp: attribute_address_def RTA_DATA_def rd_bytes_eq)
  show "\<exists>v. attribute_uint32 m a = Some v"
    using room assms(1) rd32_defined_iff [of m "a + 4"] by (auto simp: attribute_uint32_def RTA_DATA_def)
  show "\<exists>s. attribute_hwaddr m a = Some s"
    using room assms(1,2) by (auto simp: attribute_hwaddr_def RTA_DATA_def rd_bytes_eq pay)
qed

lemma attr_callbacks_defined:
  assumes "4 dvd a" "rta_len m a = Some len" "4 \<le> unat len" "a + unat len \<le> e" "roomy m e"
  shows "\<exists>s'. neighbor_attr ntop m a s = Some s'" "\<exists>s'. route_attr ntop m a s2 = Some s'"
    "\<exists>s'. address_attr ntop m family a s3 = Some s'"
proof -
  obtain ty where ty: "rta_type m a = Some ty" using rta_type_defined [OF assms(3-5)] by blast
  note h = attribute_helpers_defined [OF assms(2-5)]
  show "\<exists>s'. neighbor_attr ntop m a s = Some s'"
    using h(2) [of ntop "neighbor_family s"] h(4) by (auto simp: neighbor_attr_def ty)
  show "\<exists>s'. route_attr ntop m a s2 = Some s'"
    using h(2) [of ntop "route_family s2"] h(3) by (auto simp: route_attr_def ty)
  show "\<exists>s'. address_attr ntop m family a s3 = Some s'"
    using h(1) [OF assms(1)] h(2) [of ntop family] by (cases s3) (auto simp: address_attr_def ty)
qed

section \<open>Messages\<close>

text \<open>A message that lies before \<open>e\<close>.\<close>

definition message_in :: "mem \<Rightarrow> ptr \<Rightarrow> ptr \<Rightarrow> u32 \<Rightarrow> bool" where
  "message_in m h e len \<longleftrightarrow> 4 dvd h \<and> nlmsg_len m h = Some len \<and> 16 \<le> unat len \<and> h + unat len \<le> e \<and> roomy m e"

lemma message_reads:
  assumes "message_in m h e len" "p + 16 \<le> h + unat len + 16"
  shows "p < h + unat len + 16 \<Longrightarrow> \<exists>v. rd8 m p = Some v" "p + 2 \<le> h + unat len + 16 \<Longrightarrow> \<exists>v. rd16 m p = Some v"
    "p + 4 \<le> h + unat len + 16 \<Longrightarrow> \<exists>v. rd32 m p = Some v"
  using assms rd16_defined_iff [of m p] rd32_defined_iff [of m p]
  by (simp_all add: message_in_def roomy_def rd8_def)

lemma message_in_type: "message_in m h e len \<Longrightarrow> \<exists>ty. nlmsg_type m h = Some ty"
  using message_reads(2) [of m h e len "h + 4"] by (simp add: nlmsg_type_def message_in_def)

lemma message_in_seq: "message_in m h e len \<Longrightarrow> \<exists>q. nlmsg_seq m h = Some q"
  using message_reads(3) [of m h e len "h + 8"] by (simp add: nlmsg_seq_def message_in_def)

lemma message_attr_length:
  assumes "message_in m h e len" "NLMSG_LENGTH sz \<le> unat len" "sz \<le> 16"
  shows "s32_minus (sint len) (int (NLMSG_LENGTH sz)) = Some (uint len - int (16 + sz))"
proof -
  obtain k where k: "unat len = k" "uint len = int k" using len_number by blast
  have "k < 2 ^ 31" using assms(1) k by (simp add: message_in_def roomy_def)
  moreover have "sint len = int k"
    using msg_len_small [OF \<open>k < 2 ^ 31\<close>] by (simp add: k(1) [symmetric])
  ultimately show ?thesis
    using assms(2,3) k by (simp add: s32_minus_def NLMSG_LENGTH_def)
qed

lemma for_each_attr_defined:
  assumes "message_in m h e len" "NLMSG_LENGTH sz \<le> unat len" "sz \<le> 16" "4 dvd sz"
    and "\<And>a s l. 4 dvd a \<Longrightarrow> rta_len m a = Some l \<Longrightarrow> 4 \<le> unat l \<Longrightarrow> a + unat l \<le> e \<Longrightarrow> \<exists>s'. fn a s = Some s'"
  shows "\<exists>s'. for_each_attr sz m h (Some (NLMSG_DATA h)) fn s = Some s'"
proof -
  obtain k where k: "unat len = k" "uint len = int k" using len_number by blast
  have len: "nlmsg_len m h = Some len" "h + k \<le> e" "e \<le> length m" "16 + sz \<le> k"
    using assms(1,2) k by (simp_all add: message_in_def roomy_def NLMSG_LENGTH_def)
  have al: "unat (NLMSG_ALIGN (of_nat sz)) = sz"
    using assms(3,4) msg_len_small [of sz] by (subst unat_NLMSG_ALIGN) auto
  have "\<exists>s'. attr_loop fn m (h + 16 + sz) (int k - int (16 + sz)) s = Some s'"
    using len assms(1,4) by (intro attr_loop_defined [OF _ _ _ assms(5)]) (auto simp: message_in_def)
  then show ?thesis
    using message_attr_length [OF assms(1-3)] by (auto simp: for_each_attr_def len NLMSG_DATA_def al k)
qed

lemma ifname_loop_defined:
  assumes "4 \<le> n \<Longrightarrow> a + nat n \<le> e" "4 dvd a" "roomy m e"
  shows "\<exists>s. ifname_loop m a n = Some s"
  using assms(1,2)
proof (induction "nat n" arbitrary: a n rule: less_induct)
  case less
  show ?case
  proof (cases "n < 4")
    case True
    then show ?thesis by (subst ifname_loop.simps) (simp add: RTA_OK_def)
  next
    case False
    then have fits: "a + nat n \<le> e" using less.prems(1) by simp
    then have room: "a + 20 \<le> length m" using False assms(3) unfolding roomy_def by linarith
    obtain len where len: "rta_len m a = Some len"
      using rd16_defined_iff [of m a] room unfolding rta_len_def by auto
    obtain ty where ty: "rta_type m a = Some ty"
      using rd16_defined_iff [of m "a + 2"] room unfolding rta_type_def by auto
    show ?thesis
    proof (cases "4 \<le> len \<and> uint len \<le> n")
      case bad: False
      then have "RTA_OK m a n = Some False" using False by (auto simp: RTA_OK_def len)
      then show ?thesis by (subst ifname_loop.simps) simp
    next
      case True
      then have ok: "RTA_OK m a n = Some True" using False by (simp add: RTA_OK_def len)
      have four: "4 \<le> unat len" using True by (simp add: word_le_nat_alt)
      have "int (unat len) \<le> n" using True by (simp only: uint_nat [symmetric] conj_absorb)
      then have in_e: "a + unat len \<le> e" using fits by linarith
      obtain k where k: "unat (RTA_ALIGN (ucast len)) = k" "uint (RTA_ALIGN (ucast len)) = int k"
        using len_number by blast
      have "4 \<le> k"
        unfolding k(1) [symmetric] unat_RTA_ALIGN_u16 using four align4_ge [of "unat len"] by (rule order_trans)
      moreover have "4 dvd a + k" using less.prems(2) unfolding k(1) [symmetric] unat_RTA_ALIGN_u16 by simp
      ultimately have rest: "\<exists>s. ifname_loop m (a + k) (n - int k) = Some s"
        using False fits by (intro less.hyps; linarith)
      show ?thesis
      proof (cases "ty \<noteq> IFLA_IFNAME \<or> RTA_PAYLOAD len = 0")
        case True
        then show ?thesis using rest by (subst ifname_loop.simps) (auto simp: ok len ty k)
      next
        case False
        then have "unat (RTA_PAYLOAD len) \<noteq> 0" by (simp only: unat_eq_zero) simp
        then have "4 < unat len" using RTA_PAYLOAD_eq [OF four] by simp
        then have "\<exists>s. c_string m (a + 4) = Some s"
          using string_attr_defined [OF assms(3) less.prems(2) len _ _ in_e] ty False by simp
        then show ?thesis using False by (subst ifname_loop.simps) (auto simp: ok len ty RTA_DATA_def)
      qed
    qed
  qed
qed

lemma extract_ifname_defined:
  assumes "message_in m h e len"
  shows "\<exists>s. extract_ifname m h = Some s"
proof -
  obtain k where k: "unat len = k" "uint len = int k" using len_number by blast
  have len: "nlmsg_len m h = Some len" "h + k \<le> e" "roomy m e"
    using assms k by (simp_all add: message_in_def)
  show ?thesis
  proof (cases "unat len < NLMSG_LENGTH 16")
    case True
    then show ?thesis by (simp add: extract_ifname_def len)
  next
    case False
    have al: "unat (NLMSG_ALIGN 16) = 16" by (simp add: NLMSG_ALIGN_def)
    have "\<exists>s. ifname_loop m (h + 16 + 16) (int k - 32) = Some s"
      using len False k assms by (intro ifname_loop_defined) (auto simp: NLMSG_LENGTH_def message_in_def)
    then show ?thesis
      using message_attr_length [OF assms, of 16] False
      by (auto simp: extract_ifname_def len NLMSG_DATA_def al k)
  qed
qed

text \<open>The fields of a message struct of at most 16 bytes.\<close>

lemma struct_reads:
  assumes "message_in m h e len"
  shows "p < 16 \<Longrightarrow> \<exists>v. rd8 m (h + 16 + p) = Some v" "p \<le> 14 \<Longrightarrow> \<exists>v. rd16 m (h + 16 + p) = Some v"
    "p \<le> 12 \<Longrightarrow> \<exists>v. rd32 m (h + 16 + p) = Some v"
  using assms rd16_defined_iff [of m "h + 16 + p"] rd32_defined_iff [of m "h + 16 + p"]
  by (simp_all add: message_in_def roomy_def rd8_def)

lemma link_parse_defined:
  assumes "message_in m h e len"
  shows "\<exists>ev. link_from_nlmsghdr m h = Some ev"
proof -
  have len: "nlmsg_len m h = Some len" using assms by (simp add: message_in_def)
  show ?thesis
    using message_in_type [OF assms] struct_reads(3) [OF assms, of 4] struct_reads(3) [OF assms, of 8]
      struct_reads(3) [OF assms, of 12] extract_ifname_defined [OF assms]
    by (auto simp: link_from_nlmsghdr_def get_msg_payload_def len NLMSG_DATA_def Let_def)
qed

lemma neighbor_parse_defined:
  assumes "message_in m h e len"
  shows "\<exists>ev. neighbor_from_nlmsghdr ntop m h = Some ev"
proof -
  have len: "nlmsg_len m h = Some len" and roomy: "roomy m e" using assms by (simp_all add: message_in_def)
  have loop: "\<exists>s'. for_each_attr 12 m h (Some (h + 16)) (neighbor_attr ntop m) s = Some s'"
    if "\<not> unat len < NLMSG_LENGTH 12" for s
    using that for_each_attr_defined [OF assms, of 12 "neighbor_attr ntop m" s]
      attr_callbacks_defined(1) [OF _ _ _ _ roomy] by (simp add: NLMSG_DATA_def not_less)
  show ?thesis
    using message_in_type [OF assms] struct_reads(1) [OF assms, of 0] struct_reads(3) [OF assms, of 4]
      struct_reads(2) [OF assms, of 8] struct_reads(1) [OF assms, of 10] struct_reads(1) [OF assms, of 11] loop
    by (auto simp: neighbor_from_nlmsghdr_def get_msg_payload_def len NLMSG_DATA_def Let_def)
qed

lemma address_parse_defined:
  assumes "message_in m h e len"
  shows "\<exists>ev. address_from_nlmsghdr ntop m h = Some ev"
proof -
  have len: "nlmsg_len m h = Some len" and roomy: "roomy m e" using assms by (simp_all add: message_in_def)
  have loop: "\<exists>s'. for_each_attr 8 m h (Some (h + 16)) (address_attr ntop m f) s = Some s'"
    if "\<not> unat len < NLMSG_LENGTH 8" for s f
    using that for_each_attr_defined [OF assms, of 8 "address_attr ntop m f" s]
      attr_callbacks_defined(3) [OF _ _ _ _ roomy] by (simp add: NLMSG_DATA_def not_less)
  obtain ty where ty: "nlmsg_type m h = Some ty" using message_in_type [OF assms] by blast
  obtain f0 f1 f2 f3 f4 where f: "rd8 m (h + 16) = Some f0" "rd8 m (h + 16 + 1) = Some f1"
    "rd8 m (h + 16 + 2) = Some f2" "rd8 m (h + 16 + 3) = Some f3" "rd32 m (h + 16 + 4) = Some f4"
    using struct_reads(1) [OF assms, of 0] struct_reads(1) [OF assms, of 1] struct_reads(1) [OF assms, of 2]
      struct_reads(1) [OF assms, of 3] struct_reads(3) [OF assms, of 4] by auto
  show ?thesis
  proof (cases "unat len < NLMSG_LENGTH 8 \<or> address_type_of ty = ADDRESS_UNKNOWN")
    case True
    then show ?thesis
      unfolding address_from_nlmsghdr_def get_msg_payload_def len ty Let_def Option.bind.simps by auto
  next
    case False
    then have known: "address_type (address_event_init\<lparr>address_type := address_type_of ty\<rparr>) \<noteq> ADDRESS_UNKNOWN"
      and long: "\<not> unat len < NLMSG_LENGTH 8" by auto
    obtain l p b where "for_each_attr 8 m h (Some (h + 16)) (address_attr ntop m f0) ([], [], []) = Some (l, p, b)"
      using loop [OF long, of f0 "([], [], [])"] by (auto simp: prod_eq_iff)
    then show ?thesis
      unfolding address_from_nlmsghdr_def get_msg_payload_def len ty Let_def Option.bind.simps
        if_not_P [OF known] if_not_P [OF long] option.case NLMSG_DATA_def f
      by simp
  qed
qed

lemma route_parse_defined:
  assumes "message_in m h e len"
  shows "\<exists>ev. route_from_nlmsghdr ntop m h = Some ev"
proof -
  have len: "nlmsg_len m h = Some len" and roomy: "roomy m e" using assms by (simp_all add: message_in_def)
  obtain ty where ty: "nlmsg_type m h = Some ty" using message_in_type [OF assms] by blast
  have loop: "\<exists>s'. for_each_attr 12 m h (Some (h + 16)) (route_attr ntop m) s = Some s'"
    if "\<not> unat len < NLMSG_LENGTH 12" for s
    using that for_each_attr_defined [OF assms, of 12 "route_attr ntop m" s]
      attr_callbacks_defined(2) [OF _ _ _ _ roomy] by (simp add: NLMSG_DATA_def not_less)
  obtain f0 f1 f2 f4 f5 f6 f7 f8 where f: "rd8 m (h + 16) = Some f0" "rd8 m (h + 16 + 1) = Some f1"
    "rd8 m (h + 16 + 2) = Some f2" "rd8 m (h + 16 + 4) = Some f4" "rd8 m (h + 16 + 5) = Some f5"
    "rd8 m (h + 16 + 6) = Some f6" "rd8 m (h + 16 + 7) = Some f7" "rd32 m (h + 16 + 8) = Some f8"
    using struct_reads(1) [OF assms, of 0] struct_reads(1) [OF assms, of 1] struct_reads(1) [OF assms, of 2]
      struct_reads(1) [OF assms, of 4] struct_reads(1) [OF assms, of 5] struct_reads(1) [OF assms, of 6]
      struct_reads(1) [OF assms, of 7] struct_reads(3) [OF assms, of 8] by auto
  show ?thesis
  proof (cases "unat len < NLMSG_LENGTH 12 \<or> route_type_of ty = ROUTE_UNKNOWN")
    case True
    then show ?thesis
      unfolding route_from_nlmsghdr_def get_msg_payload_def len ty Let_def Option.bind.simps by auto
  next
    case False
    then have known: "route_type (route_event_init\<lparr>route_type := route_type_of ty\<rparr>) \<noteq> ROUTE_UNKNOWN"
      and long: "\<not> unat len < NLMSG_LENGTH 12" by auto
    show ?thesis
      unfolding route_from_nlmsghdr_def get_msg_payload_def len ty Let_def Option.bind.simps
        if_not_P [OF known] if_not_P [OF long] option.case NLMSG_DATA_def f
      using loop [OF long] by (metis Option.bind.simps(2))
  qed
qed

section \<open>The listener\<close>

lemma rd_nlmsghdr_defined: "p + 16 \<le> length m \<Longrightarrow> \<exists>v. rd_nlmsghdr m p = Some v"
  using rd32_defined_iff [of m p] rd16_defined_iff [of m "p + 4"] rd16_defined_iff [of m "p + 6"]
    rd32_defined_iff [of m "p + 8"] rd32_defined_iff [of m "p + 12"]
  by (auto simp: rd_nlmsghdr_def nlmsghdr_defs)

lemma rd_nlmsgerr_defined: "p + 20 \<le> length m \<Longrightarrow> \<exists>v. rd_nlmsgerr m p = Some v"
  using rd32_defined_iff [of m p] rd_nlmsghdr_defined [of "p + 4" m]
  by (auto simp: rd_nlmsgerr_def)

lemma notification_defined:
  assumes "message_in m h e len"
  shows "\<exists>n. notification_of ntop m h = Some n"
proof -
  obtain ty where ty: "nlmsg_type m h = Some ty" using message_in_type [OF assms] by blast
  have len: "nlmsg_len m h = Some len" and room: "h + unat len \<le> length m" "16 \<le> unat len"
    using assms by (simp_all add: message_in_def roomy_def)
  note p = link_parse_defined [OF assms] address_parse_defined [OF assms, of ntop]
    route_parse_defined [OF assms, of ntop] neighbor_parse_defined [OF assms, of ntop]
  have hdr: "\<exists>v. rd_nlmsghdr m h = Some v" using room by (intro rd_nlmsghdr_defined) simp
  have err: "36 \<le> unat len \<Longrightarrow> \<exists>v. rd_nlmsgerr m (h + 16) = Some v"
    using room by (intro rd_nlmsgerr_defined) simp
  show ?thesis
    unfolding notification_of_def ty len Option.bind.simps using p hdr err by fastforce
qed

lemma handle_message_defined:
  assumes "message_in m h e len"
  shows "\<exists>st' r. handle_message ntop sigs m h st = Some (st', r)"
proof -
  have "nlmsg_len m h \<noteq> None" using assms by (simp add: message_in_def)
  moreover obtain n where "notification_of ntop m h = Some n"
    using notification_defined [OF assms] by blast
  ultimately have "\<exists>x. handle_message ntop sigs m h st = Some x"
    using handle_message_spec [of m h ntop sigs st] by simp
  then show ?thesis by (metis surj_pair)
qed

lemma loop_defined:
  assumes "4 dvd n" "roomy m n"
    and "\<And>h s len. message_in m h n len \<Longrightarrow> \<exists>s' r. process h s = Some (s', r)"
  shows "\<exists>s' r left. nlmsg_loop process m 0 (of_nat n) s = Some (Some (s', r, left))"
proof -
  have n: "unat (of_nat n :: u32) = n"
    using assms(2) msg_len_small [of n] by (simp add: roomy_def)
  have "\<exists>s' r left. nlmsg_loop process m 0 (of_nat n) s = Some (Some (s', r, left)) \<and> True \<and> left \<le> of_nat n"
  proof (rule nlmsg_loop_safe)
    show "4 dvd unat (of_nat n :: u32)" using assms(1) n by simp
    show "0 + unat (of_nat n :: u32) \<le> length m" using assms(2) n by (simp add: roomy_def)
    show "\<exists>s' r. process h s = Some (s', r) \<and> True"
      if "nlmsg_len m h = Some len" "16 \<le> unat len" "4 dvd h - 0" "h + unat len \<le> 0 + unat (of_nat n :: u32)" for h s len
      using assms(3) [of h len s] that assms(2) n by (simp add: message_in_def)
  qed simp
  then show ?thesis by blast
qed

lemma loop_returns:
  assumes "4 dvd n" "roomy m n"
    and "\<And>h s len. message_in m h n len \<Longrightarrow> \<exists>s' r. process h s = Some (s', r)"
  shows "\<exists>x. nlmsg_loop process m 0 (of_nat n) s = Some (Some x)"
  using loop_defined [OF assms(1,2), of process s] assms(3) by blast

section \<open>The tasks\<close>

text \<open>
  What looks like an error message has an error number, other than the one that cannot be negated.
\<close>

definition error_fine :: "u8 list \<Rightarrow> ptr \<Rightarrow> bool" where
  "error_fine data h \<longleftrightarrow> (case (nlmsg_len data h, nlmsg_type data h) of
     (Some len, Some ty) \<Rightarrow> 16 \<le> unat len \<and> h + unat len \<le> length data \<and> ty = NLMSG_ERROR \<longrightarrow>
       h + 20 \<le> length data \<and> nlmsgerr_error data h \<noteq> Some (- (2 ^ 31))
   | _ \<Rightarrow> True)"

definition errors_fine :: "u8 list \<Rightarrow> bool" where
  "errors_fine data \<longleftrightarrow> list_all (\<lambda>h. 4 dvd h \<longrightarrow> error_fine data h) [0..<length data]"

lemma nlmsgerr_code_defined:
  assumes "message_in m h e len" "errors_fine (take e m)" "nlmsg_type m h = Some NLMSG_ERROR"
  shows "\<exists>ec. nlmsgerr_code m h = Some ec"
proof -
  obtain v where v: "rd32 m (h + 16) = Some v"
    using struct_reads(3) [OF assms(1), of 0] by auto
  have e: "h + 16 \<le> e" "e \<le> length m" "4 dvd h" "nlmsg_len m h = Some len" "16 \<le> unat len" "h + unat len \<le> e"
    using assms(1) by (simp_all add: message_in_def roomy_def)
  have emb: "embeds (take e m) m 0" by (rule embedsI [of _ "[]" _ "drop e m"]) simp_all
  have "\<exists>len. nlmsg_len (take e m) h = Some len" "\<exists>ty. nlmsg_type (take e m) h = Some ty"
    using e rd32_defined_iff [of "take e m" h] rd16_defined_iff [of "take e m" "h + 4"]
    by (simp_all add: nlmsg_len_def nlmsg_type_def)
  then have hdr: "nlmsg_len (take e m) h = Some len" "nlmsg_type (take e m) h = Some NLMSG_ERROR"
    using nlmsghdr_frame(1,2) [OF emb, of h h] assms(3) e(4) by (auto simp: ub_le_def)
  have "error_fine (take e m) h" using assms(2) e by (simp add: errors_fine_def list_all_iff)
  then have fine: "h + 20 \<le> e" "nlmsgerr_error (take e m) h \<noteq> Some (- (2 ^ 31))"
    using e(2,5,6) by (simp_all add: error_fine_def hdr)
  have "\<exists>w. rd32 (take e m) (h + 16) = Some w" using fine(1) e(2) rd32_defined_iff [of "take e m" "h + 16"] by simp
  then have "rd32 (take e m) (h + 16) = Some v"
    using rd32_frame [OF emb, of "h + 16" "h + 16"] v by (auto simp: ub_le_def)
  then have "sint v \<noteq> - (2 ^ 31)" using fine(2) by (simp add: nlmsgerr_error_def NLMSG_DATA_def)
  moreover have "- (2 ^ 31) \<le> sint v" "sint v < 2 ^ 31"
    using sint_greater_eq [of v] sint_less [of v] by simp_all
  ultimately show ?thesis
    by (auto simp: nlmsgerr_code_def nlmsgerr_error_def NLMSG_DATA_def v s32_uminus_def s32_minus_def)
qed

lemma process_defined:
  assumes "message_in m h e len" "errors_fine (take e m)"
  shows "\<exists>t' r. link_dump_process_message m h t1 = Some (t', r)"
    "\<exists>t' r. address_dump_process_message ntop m h t2 = Some (t', r)"
    "\<exists>t' r. neighbor_dump_process_message ntop m h t3 = Some (t', r)"
    "\<exists>t' r. route_dump_process_message ntop m h t4 = Some (t', r)"
    "\<exists>t' r. neighbor_probe_process_message m h t5 = Some (t', r)"
    "\<exists>t' r. neighbor_flush_process_message m h t6 = Some (t', r)"
    "\<exists>t' r. neighbor_get_process_message ntop m h t7 = Some (t', r)"
proof -
  obtain ty seq where ty: "nlmsg_type m h = Some ty" and seq: "nlmsg_seq m h = Some seq"
    using message_in_type [OF assms(1)] message_in_seq [OF assms(1)] by blast
  obtain ec where ec: "ty = NLMSG_ERROR \<Longrightarrow> nlmsgerr_code m h = Some ec"
    using nlmsgerr_code_defined [OF assms] ty by blast
  obtain l a r n where l: "link_from_nlmsghdr m h = Some l" and a: "address_from_nlmsghdr ntop m h = Some a"
    and r: "route_from_nlmsghdr ntop m h = Some r" and n: "neighbor_from_nlmsghdr ntop m h = Some n"
    using link_parse_defined [OF assms(1)] address_parse_defined [OF assms(1)]
      route_parse_defined [OF assms(1)] neighbor_parse_defined [OF assms(1)] by metis
  show "\<exists>t' r. link_dump_process_message m h t1 = Some (t', r)"
    by (simp add: link_dump_process_message_def link_dump_handle_done_def link_dump_handle_error_def
        link_dump_dispatch_eq ty seq ec l)
  show "\<exists>t' r. address_dump_process_message ntop m h t2 = Some (t', r)"
    by (simp add: address_dump_process_message_def address_dump_handle_done_def address_dump_handle_error_def
        address_dump_dispatch_eq ty seq ec a)
  show "\<exists>t' r. neighbor_dump_process_message ntop m h t3 = Some (t', r)"
    by (simp add: neighbor_dump_process_message_def neighbor_dump_handle_done_def neighbor_dump_handle_error_def
        neighbor_dump_dispatch_eq ty seq ec n)
  show "\<exists>t' r. route_dump_process_message ntop m h t4 = Some (t', r)"
    by (simp add: route_dump_process_message_def route_dump_handle_done_def route_dump_handle_error_def
        route_dump_dispatch_eq ty seq ec r)
  show "\<exists>t' r. neighbor_probe_process_message m h t5 = Some (t', r)"
    by (simp add: neighbor_probe_process_message_def neighbor_probe_handle_error_def ty seq ec)
  show "\<exists>t' r. neighbor_flush_process_message m h t6 = Some (t', r)"
    by (simp add: neighbor_flush_process_message_def neighbor_flush_handle_error_def ty seq ec)
  show "\<exists>t' r. neighbor_get_process_message ntop m h t7 = Some (t', r)"
    by (simp add: neighbor_get_defs ty seq ec n)
qed

section \<open>A listener from its construction on\<close>

text \<open>Datagrams of an aligned length, which leave 16 bytes of the buffer; nothing is asked of their bytes.\<close>

fun leaves_room :: "'w action \<Rightarrow> bool" where
  "leaves_room (Receive data) \<longleftrightarrow> 4 dvd length data \<and> length data + 16 \<le> BUFFER_SIZE"
| "leaves_room _ \<longleftrightarrow> True"

definition in_room :: "'w listener \<Rightarrow> bool" where
  "in_room l \<longleftrightarrow> length (l_buffer l) = BUFFER_SIZE \<and> last (l_buffer l) = 0
     \<and> (\<forall>(ec, bytes) \<in> set (l_ready l). 4 dvd bytes \<and> bytes + 16 \<le> BUFFER_SIZE)"

lemma in_room_init: "in_room (listener_init w)"
  by (simp add: in_room_def listener_init_def BUFFER_SIZE_def)

lemma in_room_roomy:
  "in_room l \<Longrightarrow> (ec, bytes) \<in> set (l_ready l) \<Longrightarrow> 4 dvd bytes \<and> roomy (l_buffer l) bytes"
  by (auto simp: in_room_def roomy_def BUFFER_SIZE_def)

lemma request_read_room: "in_room l \<Longrightarrow> in_room (request_read l)"
  by (auto simp: request_read_def in_room_def BUFFER_SIZE_def)

lemma start_room:
  assumes "in_room l"
  shows "in_room (fst (listener_start os l))"
proof -
  have "in_room (l\<lparr>l_guard := g\<rparr>)" "in_room (l\<lparr>l_guard := g, l_running := b\<rparr>)" for g b
    using assms by (simp_all add: in_room_def)
  then show ?thesis
    using assms request_read_room
    by (auto simp: listener_start_def open_socket_def split: prod.split outcome.split sum.split)
qed

lemma handle_read_room:
  assumes "handle_read ntop ec bytes l = Some (Some (l', e))" "in_room l"
  shows "in_room l'"
proof -
  have "in_room (l\<lparr>l_app := app\<rparr>)" for app using assms(2) by (simp add: in_room_def)
  then show ?thesis
    using assms request_read_room
    by (auto simp: handle_read_def process_messages_def split: if_splits option.splits prod.splits)
qed

lemma act_room:
  assumes "act a l = Some l'" "in_room l" "leaves_room a"
  shows "in_room l'"
proof (cases a)
  case (Start os)
  then show ?thesis using assms start_room by (auto simp: act_def)
next
  case (Receive data)
  have "last (receive_into (l_buffer l) data) = 0"
    using assms(2,3) Receive by (simp add: receive_into_def in_room_def)
  then show ?thesis using assms Receive by (auto simp: act_def in_room_def split: if_splits)
next
  case (Run_Handler ntop)
  then obtain ec bytes rest e where ready: "l_ready l = (ec, bytes) # rest"
    and h: "handle_read ntop ec bytes (l\<lparr>l_ready := rest\<rparr>) = Some (Some (l', e))"
    using assms(1) by (auto simp: act_def split: list.splits option.splits)
  have "in_room (l\<lparr>l_ready := rest\<rparr>)" using assms(2) ready by (simp add: in_room_def)
  then show ?thesis by (rule handle_read_room [OF h])
qed (use assms in \<open>auto simp: act_def in_room_def listener_stop_def BUFFER_SIZE_def split: if_splits\<close>)

lemma acts_room: "acts as l = Some l' \<Longrightarrow> in_room l \<Longrightarrow> list_all leaves_room as \<Longrightarrow> in_room l'"
  by (induction as arbitrary: l) (auto split: option.splits dest: act_room)

lemma process_messages_defined:
  assumes "4 dvd bytes" "roomy (l_buffer l) bytes"
  shows "\<exists>l' e. process_messages ntop bytes l = Some (Some (l', e))"
proof -
  obtain st r left where "nlmsg_loop (handle_message ntop (l_signals l) (l_buffer l)) (l_buffer l) 0
      (of_nat bytes) (l_app l) = Some (Some (st, r, left))"
    using loop_defined [OF assms, of "handle_message ntop (l_signals l) (l_buffer l)" "l_app l"]
      handle_message_defined by blast
  then show ?thesis by (cases r) (auto simp: process_messages_def)
qed

section \<open>Properties\<close>

text \<open>
  C11. From the construction of a listener on, whatever the application does, whatever slots it connects
  that leave the listener itself alone, and whatever bytes arrive: as long as every datagram has a
  length that is a multiple of 4 and leaves 16 bytes of the buffer, each handler of a completed read
  comes back, out of the loops over the messages and over the attributes, and has read no byte outside
  of the buffer.
\<close>

theorem listener_reads_in_bounds:
  assumes "acts as (listener_init w) = Some l" "list_all leaves_room as" "l_ready l \<noteq> []"
  shows "\<exists>l'. act (Run_Handler ntop) l = Some l'"
proof -
  obtain ec bytes rest where ready: "l_ready l = (ec, bytes) # rest" using assms(3) by (cases "l_ready l") auto
  have room: "4 dvd bytes \<and> roomy (l_buffer l) bytes"
    by (rule in_room_roomy [OF acts_room [OF assms(1) in_room_init assms(2)], of ec]) (simp add: ready)
  then have "\<exists>l' e. handle_read ntop ec bytes (l\<lparr>l_ready := rest\<rparr>) = Some (Some (l', e))"
    using process_messages_defined [of bytes "l\<lparr>l_ready := rest\<rparr>" ntop] by (auto simp: handle_read_def)
  then show ?thesis by (auto simp: act_def ready)
qed

text \<open>A datagram that fills all but 16 bytes of the buffer with ones.\<close>

lemma listener_reads_in_bounds_witness:
  "\<exists>l l'. acts [Connect (To_Link_Event keep_index Sync), Start working, Receive (replicate 32752 0xFF)] (listener_init []) = Some l
    \<and> act (Run_Handler (\<lambda>_ _. None)) l = Some l'"
proof -
  let ?as = "[Connect (To_Link_Event keep_index Sync), Start working, Receive (replicate 32752 0xFF)]"
  obtain g where g: "act (Start working) one_slot = Some (one_slot\<lparr>l_guard := g, l_running := True, l_waiting := Suc 0\<rparr>)"
    using one_slot_started by blast
  let ?k = "one_slot\<lparr>l_guard := g, l_running := True, l_waiting := Suc 0\<rparr>"
  obtain l where rcv: "act (Receive (replicate 32752 0xFF)) ?k = Some l" and ready: "l_ready l \<noteq> []"
    by (simp add: act_def)
  have run: "acts ?as (listener_init []) = Some l" by (simp only: acts.simps one_slot_connected(1) g rcv option.case)
  have room: "list_all leaves_room ?as" by (simp add: BUFFER_SIZE_def)
  from listener_reads_in_bounds [OF run room ready] run show ?thesis by blast
qed

text \<open>
  C20. Without the alignment this fails: a datagram of 17 bytes, an ignored message, makes the count
  of the remaining bytes wrap; when the bytes left in the buffer behind it look like a header of
  almost \<open>2\<^sup>32\<close> bytes, the listener's loop never returns.
\<close>

theorem unaligned_datagram_hangs:
  assumes "l_buffer l = enc_nlmsghdr 17 NLMSG_NOOP 0 0 0 @ [b, p, q, r] @ enc_nlmsghdr 0xFFFFFFFD NLMSG_NOOP 0 0 0 @ rest"
  shows "process_messages ntop 17 l = None"
proof -
  let ?m = "l_buffer l" and ?p = "handle_message ntop (l_signals l) (l_buffer l)"
  have e: "embeds (enc_nlmsghdr 17 NLMSG_NOOP 0 0 0 @ []) ?m 0"
    "embeds (enc_nlmsghdr 0xFFFFFFFD NLMSG_NOOP 0 0 0 @ []) ?m 20"
    by (rule embedsI [of _ "[]" _ "[b, p, q, r] @ enc_nlmsghdr 0xFFFFFFFD NLMSG_NOOP 0 0 0 @ rest"]; simp add: assms)
      (rule embedsI [of _ "enc_nlmsghdr 17 NLMSG_NOOP 0 0 0 @ [b, p, q, r]" _ rest]; simp add: assms)
  have h: "nlmsg_len ?m 0 = Some 17" "nlmsg_type ?m 0 = Some NLMSG_NOOP"
    "nlmsg_len ?m 20 = Some 0xFFFFFFFD" "nlmsg_type ?m 20 = Some NLMSG_NOOP"
    by (rule ub_leD [OF nlmsghdr_frame(1) [OF e(1)]] ub_leD [OF nlmsghdr_frame(2) [OF e(1)]]
        ub_leD [OF nlmsghdr_frame(1) [OF e(2)]] ub_leD [OF nlmsghdr_frame(2) [OF e(2)]],
        simp, rule nlmsghdr_enc)+
  have skip: "?p h st = Some (st, None)" if "nlmsg_type ?m h = Some NLMSG_NOOP" for h st
    using that by (simp add: handle_message_def handlers_lookup)
  have "nlmsg_loop ?p ?m 0 17 (l_app l) = nlmsg_loop ?p ?m 20 (- 3) (l_app l)"
    using nlmsg_loop_wraps [where process = ?p and m = ?m and header = 0 and len = 17 and s = "l_app l" and s' = "l_app l"]
      h(1) skip [OF h(2)] by simp
  also have "\<dots> = None"
  proof (rule nlmsg_loop_diverges)
    show "NLMSG_OK ?m 20 (- 3) = Some True" by (simp add: NLMSG_OK_def h)
    show "nlmsg_len ?m 20 = Some 0xFFFFFFFD" by (rule h)
    show "NLMSG_ALIGN 0xFFFFFFFD = 0" by (simp add: NLMSG_ALIGN_def)
    show "\<exists>s'. ?p 20 s = Some (s', None)" for s using skip [OF h(4)] by blast
  qed
  finally show ?thesis by (simp add: process_messages_def)
qed

lemma unaligned_datagram_hangs_witness:
  "process_messages (\<lambda>_ _. None) 17 ((listener_init (0 :: nat))\<lparr>l_buffer :=
     enc_nlmsghdr 17 NLMSG_NOOP 0 0 0 @ [0, 0, 0, 0] @ enc_nlmsghdr 0xFFFFFFFD NLMSG_NOOP 0 0 0 @ replicate 32732 0\<rparr>) = None"
  by (rule unaligned_datagram_hangs) simp

end
