(* ===== verification/Control_Runs.thy ===== *)
theory Control_Runs
  imports Nl_Control
begin

text \<open>
  Many operations of one \<open>Control\<close>, one after the other: each gets what the gate, the system and
  the sockets answer it as an environment of its own, and leaves the counter of the sequence
  numbers to the next.
\<close>

datatype operation =
    Dump_Routes
  | Dump_Addresses
  | Dump_Neighbors
  | Dump_Links
  | Probe_Neighbor u16 "u8 list"
  | Flush_Neighbor u16 "u8 list"
  | Get_Neighbor u16 "u8 list"

record environment =
  env_wait :: gate_pass
  env_os :: os
  env_buffer :: mem
  env_sends :: "send_outcome list"
  env_recvs :: "recv_outcome list"

text \<open>What an operation has sent when it has returned, or is waiting for more to receive.\<close>

definition wire_of :: "'r run_result \<Rightarrow> u8 list" where
  "wire_of r = (case r of Some (Some (Return (wire, _))) \<Rightarrow> wire | _ \<Rightarrow> [])"

fun run_operation :: "inet_ntop \<Rightarrow> operation \<Rightarrow> environment \<Rightarrow> control \<Rightarrow> control \<times> u8 list" where
  "run_operation ntop Dump_Routes e c =
     map_prod id wire_of (async_dump_routes_impl ntop (env_wait e) (env_os e) (env_buffer e) (env_sends e) (env_recvs e) c)"
| "run_operation ntop Dump_Addresses e c =
     map_prod id wire_of (async_dump_addresses_impl ntop (env_wait e) (env_os e) (env_buffer e) (env_sends e) (env_recvs e) c)"
| "run_operation ntop Dump_Neighbors e c =
     map_prod id wire_of (async_dump_neighbors_impl ntop (env_wait e) (env_os e) (env_buffer e) (env_sends e) (env_recvs e) c)"
| "run_operation ntop Dump_Links e c =
     map_prod id wire_of (async_dump_links_impl (env_wait e) (env_os e) (env_buffer e) (env_sends e) (env_recvs e) c)"
| "run_operation ntop (Probe_Neighbor index address) e c =
     map_prod id wire_of (async_probe_neighbor_impl index address (env_wait e) (env_os e) (env_buffer e) (env_sends e) (env_recvs e) c)"
| "run_operation ntop (Flush_Neighbor index address) e c =
     map_prod id wire_of (async_flush_neighbor_impl index address (env_wait e) (env_os e) (env_buffer e) (env_sends e) (env_recvs e) c)"
| "run_operation ntop (Get_Neighbor index address) e c =
     map_prod id wire_of (async_get_neighbor_impl ntop index address (env_wait e) (env_os e) (env_buffer e) (env_sends e) (env_recvs e) c)"

fun run_operations :: "inet_ntop \<Rightarrow> (operation \<times> environment) list \<Rightarrow> control \<Rightarrow> u8 list list" where
  "run_operations ntop [] c = []"
| "run_operations ntop ((op, e) # ops) c =
     (case run_operation ntop op e c of (c', wire) \<Rightarrow> wire # run_operations ntop ops c')"

text \<open>An address is a \<open>std::span<uint8_t, 16>\<close>.\<close>

fun wf_operation :: "operation \<Rightarrow> bool" where
  "wf_operation (Probe_Neighbor index address) \<longleftrightarrow> length address = 16"
| "wf_operation (Flush_Neighbor index address) \<longleftrightarrow> length address = 16"
| "wf_operation (Get_Neighbor index address) \<longleftrightarrow> length address = 16"
| "wf_operation _ \<longleftrightarrow> True"

definition request_numbers :: "u8 list list \<Rightarrow> u32 list" where
  "request_numbers wires = concat (map (\<lambda>w. case nlmsg_seq w 0 of None \<Rightarrow> [] | Some seq \<Rightarrow> [seq]) wires)"

section \<open>One operation\<close>

lemma nlmsg_seq_Nil [simp]: "nlmsg_seq [] p = None"
  by (simp add: nlmsghdr_defs rd32_def rd16_def rd8_def)

lemma nlmsg_seq_take:
  assumes "nlmsg_seq bytes 0 = Some q"
  shows "nlmsg_seq (take n bytes) 0 = None \<or> nlmsg_seq (take n bytes) 0 = Some q"
proof (cases "nlmsg_seq (take n bytes) 0")
  case (Some r)
  have "embeds (take n bytes) bytes 0" by (rule embedsI [of _ "[]" _ "drop n bytes"]) simp_all
  then have "nlmsg_seq bytes 0 = Some r"
    using ub_leD [OF nlmsghdr_frame(4) [of "take n bytes" bytes 0 0 0]] Some by simp
  then show ?thesis using assms Some by simp
qed simp

lemma task_wire:
  assumes "request_payload (prepare_request s) = Some bytes" "nlmsg_seq bytes 0 = Some q"
  shows "nlmsg_seq (wire_of (task_result (async_run prepare_request request_payload process buffer s sends recvs))) 0
    \<in> {None, Some q}"
proof -
  obtain w r where snd: "send_request bytes 0 sends [] = (w, r)"
    by (cases "send_request bytes 0 sends []")
  obtain n where "w = take n bytes" using send_request_prefix [OF snd] by auto
  then have w: "nlmsg_seq w 0 \<in> {None, Some q}" using nlmsg_seq_take [OF assms(2), of n] by auto
  show ?thesis
    using assms(1) snd w
    by (auto simp: async_run_def task_result_def wire_of_def Let_def split: option.split sum.split prod.split)
qed

lemma payload_numbers:
  "\<exists>bytes. link_request_payload (link_dump_prepare_request (link_dump_init i seq)) = Some bytes \<and> nlmsg_seq bytes 0 = Some seq"
  "\<exists>bytes. address_request_payload (address_dump_prepare_request (address_dump_init i seq)) = Some bytes \<and> nlmsg_seq bytes 0 = Some seq"
  "\<exists>bytes. neighbor_request_payload (neighbor_dump_prepare_request (neighbor_dump_init i seq)) = Some bytes \<and> nlmsg_seq bytes 0 = Some seq"
  "\<exists>bytes. route_request_payload (route_dump_prepare_request (route_dump_init i seq)) = Some bytes \<and> nlmsg_seq bytes 0 = Some seq"
  "length a = 16 \<Longrightarrow> \<exists>bytes. neighbor_request_payload (neighbor_probe_prepare_request (neighbor_probe_init i seq a)) = Some bytes \<and> nlmsg_seq bytes 0 = Some seq"
  "length a = 16 \<Longrightarrow> \<exists>bytes. neighbor_request_payload (neighbor_flush_prepare_request (neighbor_flush_init i seq a)) = Some bytes \<and> nlmsg_seq bytes 0 = Some seq"
  "length a = 16 \<Longrightarrow> \<exists>bytes. neighbor_request_payload (neighbor_get_prepare_request (neighbor_get_init i seq a)) = Some bytes \<and> nlmsg_seq bytes 0 = Some seq"
  using route_dump_payload_wf [of "route_dump_init i seq"]
  by (auto simp: link_dump_payload address_dump_payload neighbor_dump_payload neighbor_probe_payload
      neighbor_flush_payload neighbor_get_payload enc_neighbor_query_def nlmsghdr_enc_msg)

text \<open>What an operation does to the counter, and the number its request carries.\<close>

definition number_step :: "control \<Rightarrow> control \<times> u8 list \<Rightarrow> bool" where
  "number_step c r \<longleftrightarrow> c_sequence (fst r) = c_sequence c \<and> nlmsg_seq (snd r) 0 = None
     \<or> c_sequence (fst r) = c_sequence c + 1 \<and> nlmsg_seq (snd r) 0 \<in> {None, Some (c_sequence c)}"

lemma past_gate_step:
  assumes "\<And>next. number_step (c\<lparr>c_expiry := next\<rparr>) (map_prod id wire_of (body (c\<lparr>c_expiry := next\<rparr>)))"
  shows "number_step c (map_prod id wire_of (past_gate wait body c))"
proof (cases "next_expiry (gp_now wait) (c_expiry c)")
  case None
  then show ?thesis by (simp add: past_gate_def number_step_def wire_of_def)
next
  case (Some e)
  have "number_step c (map_prod id wire_of (body (c\<lparr>c_expiry := e\<rparr>)))"
    using assms [of e] by (simp add: number_step_def)
  then show ?thesis
    using Some by (cases "gate_passed (gp_wait wait)") (simp_all add: past_gate_def number_step_def wire_of_def)
qed

lemma dump_step:
  assumes "\<exists>bytes. request_payload (prepare_request (init (c_sequence c))) = Some bytes \<and> nlmsg_seq bytes 0 = Some (c_sequence c)"
  shows "number_step c (map_prod id wire_of (case ensure_open os g of
      (guard, Throw text ec) \<Rightarrow> (c, Some (Some (Throw text ec)))
    | (guard, Return (Inl ec)) \<Rightarrow> (c, Some (Some (Return ([], Some (Inl ec)))))
    | (guard, Return (Inr _)) \<Rightarrow>
        (let (c, sequence) = fetch_add c
         in (c, task_result (async_run prepare_request request_payload process buffer (init sequence) sends recvs)))))"
proof -
  obtain bytes where b: "request_payload (prepare_request (init (c_sequence c))) = Some bytes" "nlmsg_seq bytes 0 = Some (c_sequence c)"
    using assms by blast
  show ?thesis
    using task_wire [where request_payload = request_payload and prepare_request = prepare_request, OF b, of process buffer sends recvs]
    by (auto simp: number_step_def fetch_add_def wire_of_def [of "Some (Some x)" for x] split: outcome.split prod.split sum.split)
qed

lemma neighbor_step:
  assumes "\<exists>bytes. request_payload (prepare_request (init (c_sequence c))) = Some bytes \<and> nlmsg_seq bytes 0 = Some (c_sequence c)"
  shows "number_step c (map_prod id wire_of (case ensure_open os (c_guard c) of
      (guard, Throw text ec) \<Rightarrow> (c\<lparr>c_guard := guard\<rparr>, Some (Some (Throw text ec)))
    | (guard, Return (Inl ec)) \<Rightarrow> (c\<lparr>c_guard := guard\<rparr>, Some (Some (Return ([], Some (Inl ec)))))
    | (guard, Return (Inr _)) \<Rightarrow>
        (let (c, sequence) = fetch_add (c\<lparr>c_guard := guard\<rparr>)
         in (c, task_result (async_run prepare_request request_payload process buffer (init sequence) sends recvs)))))"
proof -
  obtain bytes where b: "request_payload (prepare_request (init (c_sequence c))) = Some bytes" "nlmsg_seq bytes 0 = Some (c_sequence c)"
    using assms by blast
  show ?thesis
    using task_wire [where request_payload = request_payload and prepare_request = prepare_request, OF b, of process buffer sends recvs]
    by (auto simp: number_step_def fetch_add_def wire_of_def [of "Some (Some x)" for x] split: outcome.split prod.split sum.split)
qed

lemma operation_step:
  assumes "wf_operation op"
  shows "number_step c (run_operation ntop op e c)"
proof (cases op)
  case Dump_Routes
  show ?thesis
    unfolding Dump_Routes run_operation.simps async_dump_routes_impl_def
    by (intro past_gate_step dump_step [where init = "route_dump_init 0"] payload_numbers)
next
  case Dump_Addresses
  show ?thesis
    unfolding Dump_Addresses run_operation.simps async_dump_addresses_impl_def
    by (intro past_gate_step dump_step [where init = "address_dump_init 0"] payload_numbers)
next
  case Dump_Neighbors
  show ?thesis
    unfolding Dump_Neighbors run_operation.simps async_dump_neighbors_impl_def
    by (intro past_gate_step dump_step [where init = "neighbor_dump_init 0"] payload_numbers)
next
  case Dump_Links
  show ?thesis
    unfolding Dump_Links run_operation.simps async_dump_links_impl_def
    by (intro past_gate_step dump_step [where init = "link_dump_init 0"] payload_numbers)
next
  case (Probe_Neighbor index address)
  show ?thesis
    unfolding Probe_Neighbor run_operation.simps async_probe_neighbor_impl_def
    using assms Probe_Neighbor by (intro past_gate_step neighbor_step [where init = "\<lambda>seq. neighbor_probe_init index seq address"] payload_numbers) simp
next
  case (Flush_Neighbor index address)
  show ?thesis
    unfolding Flush_Neighbor run_operation.simps async_flush_neighbor_impl_def
    using assms Flush_Neighbor by (intro past_gate_step neighbor_step [where init = "\<lambda>seq. neighbor_flush_init index seq address"] payload_numbers) simp
next
  case (Get_Neighbor index address)
  show ?thesis
    unfolding Get_Neighbor run_operation.simps async_get_neighbor_impl_def
    using assms Get_Neighbor by (intro past_gate_step neighbor_step [where init = "\<lambda>seq. neighbor_get_init index seq address"] payload_numbers) simp
qed

section \<open>Many operations\<close>

text \<open>The numbers are drawn in order: the request of the \<open>i\<close>-th draw carries the start plus \<open>i\<close>.\<close>

lemma request_numbers_drawn:
  assumes "list_all (wf_operation \<circ> fst) ops"
  shows "\<exists>is. sorted_wrt (<) is \<and> set is \<subseteq> {..<length ops}
    \<and> request_numbers (run_operations ntop ops c) = map (\<lambda>i. c_sequence c + of_nat i) is"
  using assms
proof (induction ops arbitrary: c)
  case Nil
  then show ?case by (simp add: request_numbers_def)
next
  case (Cons p ops)
  obtain op e where p: "p = (op, e)" by (cases p)
  obtain c' w where r: "run_operation ntop op e c = (c', w)" by (cases "run_operation ntop op e c")
  obtain js where js: "sorted_wrt (<) js" "set js \<subseteq> {..<length ops}"
    "request_numbers (run_operations ntop ops c') = map (\<lambda>i. c_sequence c' + of_nat i) js"
    using Cons.IH [of c'] Cons.prems by auto
  have runs: "request_numbers (run_operations ntop (p # ops) c)
      = (case nlmsg_seq w 0 of None \<Rightarrow> [] | Some seq \<Rightarrow> [seq]) @ request_numbers (run_operations ntop ops c')"
    by (simp add: request_numbers_def p r)
  have "number_step c (c', w)" using operation_step [of op c ntop e] Cons.prems by (simp add: p r)
  then consider "c_sequence c' = c_sequence c" "nlmsg_seq w 0 = None"
    | "c_sequence c' = c_sequence c + 1" "nlmsg_seq w 0 = None"
    | "c_sequence c' = c_sequence c + 1" "nlmsg_seq w 0 = Some (c_sequence c)"
    by (auto simp: number_step_def)
  then show ?case
  proof cases
    case 1
    then show ?thesis using js runs by (intro exI [of _ js]) auto
  next
    case 2
    then show ?thesis using js runs
      by (intro exI [of _ "map Suc js"]) (auto simp: sorted_wrt_map add.assoc)
  next
    case 3
    then show ?thesis using js runs
      by (intro exI [of _ "0 # map Suc js"]) (auto simp: sorted_wrt_map add.assoc)
  qed
qed

section \<open>Properties\<close>

text \<open>
  C28. However many operations a \<open>Control\<close> runs, up to \<open>2\<^sup>32\<close>, whichever they are and however each
  of them fares, no two requests that go out carry the same sequence number: also where the counter
  wraps around.
\<close>

theorem requests_carry_distinct_numbers:
  assumes "list_all (wf_operation \<circ> fst) ops" "length ops \<le> 2 ^ 32"
  shows "distinct (request_numbers (run_operations ntop ops c))"
proof -
  obtain js where js: "sorted_wrt (<) js" "set js \<subseteq> {..<length ops}"
    "request_numbers (run_operations ntop ops c) = map (\<lambda>i. c_sequence c + of_nat i) js"
    using request_numbers_drawn [OF assms(1)] by blast
  have "distinct js" using js(1) strict_sorted_iff by blast
  moreover have "inj_on (\<lambda>i. c_sequence c + of_nat i) (set js)"
    using js(2) assms(2) by (intro inj_onI of_nat_u32_inj) auto
  ultimately show ?thesis by (simp add: js(3) distinct_map)
qed

lemma requests_carry_distinct_numbers_witness:
  "let e = \<lparr>env_wait = \<lparr>gp_now = 0, gp_wait = None\<rparr>, env_os = (\<lambda>_. None), env_buffer = [], env_sends = [Sent 100], env_recvs = []\<rparr>;
       c = control_init\<lparr>c_sequence := 0xFFFFFFFF\<rparr>
   in distinct (request_numbers (run_operations (\<lambda>_ _. None) [(Dump_Links, e), (Dump_Addresses, e)] c))
      \<and> request_numbers (run_operations (\<lambda>_ _. None) [(Dump_Links, e), (Dump_Addresses, e)] c) = [0xFFFFFFFF, 0]"
proof -
  let ?e = "\<lparr>env_wait = \<lparr>gp_now = 0, gp_wait = None\<rparr>, env_os = (\<lambda>_. None), env_buffer = [], env_sends = [Sent 100], env_recvs = []\<rparr>"
  have o: "\<exists>g. ensure_open (\<lambda>_. None) (socket_guard_init label) = (g, Return (Inr ()))" for label
    by (simp add: ensure_open_def socket_defs socket_guard_init_def socket_guard_with_mask_def socket_init_def)
  obtain g1 g2 where g: "ensure_open (\<lambda>_. None) (socket_guard_init ''nl-control-link'') = (g1, Return (Inr ()))"
    "ensure_open (\<lambda>_. None) (socket_guard_init ''nl-control-address'') = (g2, Return (Inr ()))"
    using o by meson
  have "request_numbers (run_operations (\<lambda>_ _. None) [(Dump_Links, ?e), (Dump_Addresses, ?e)]
      (control_init\<lparr>c_sequence := 0xFFFFFFFF\<rparr>)) = [0xFFFFFFFF, 0]"
    by (simp add: request_numbers_def async_dump_links_impl_def async_dump_addresses_impl_def past_gate_def
        gate_passed_None next_expiry_def s64_plus_def control_init_def g fetch_add_def async_run_def link_dump_payload address_dump_payload
        send_request.simps task_result_def wire_of_def nlmsghdr_enc_msg)
  then show ?thesis
    unfolding Let_def using requests_carry_distinct_numbers [of "[(Dump_Links, ?e), (Dump_Addresses, ?e)]"
        "\<lambda>_ _. None" "control_init\<lparr>c_sequence := 0xFFFFFFFF\<rparr>"] by simp
qed

end
