(* ===== verification/Operations_Defined.thy ===== *)
theory Operations_Defined
  imports Memory_Safety Control_Runs
begin

text \<open>
  Whole operations on arbitrary bytes: what Memory_Safety shows of one datagram, carried over all
  datagrams an operation reads, and through the gate, the socket and the sending in front of them.
\<close>












section \<open>Properties\<close>






end
