(* ===== verification/Shared_Socket.thy ===== *)
theory Shared_Socket
  imports Nl_Control
begin

text \<open>
  Operations on neighbors at the same time. They are all past the gate at once, and they share the
  socket of the \<open>Control\<close>: their reads queue on it, each datagram completes the read that has
  waited longest, and an operation that found no answer in its datagram reads again, behind the
  others. The sockets subscribe to all groups, so notifications arrive among the answers.
\<close>

datatype neighbor_op =
    Probing neighbor_probe_task
  | Flushing neighbor_flush_task
  | Getting neighbor_get_task

datatype op_result = Acked "unit expected" | Found "neighbor_event expected"

text \<open>One datagram in the read loop of an operation; no result means that it reads again.\<close>

fun op_receive :: "inet_ntop \<Rightarrow> neighbor_op \<Rightarrow> mem \<Rightarrow> u8 list \<Rightarrow> (neighbor_op \<times> mem \<times> op_result option) ub option" where
  "op_receive ntop (Probing t) buffer data =
     map_option (map_option (\<lambda>(t, buffer, r). (Probing t, buffer, map_option Acked r)))
       (read_loop neighbor_probe_process_message buffer t [Received data])"
| "op_receive ntop (Flushing t) buffer data =
     map_option (map_option (\<lambda>(t, buffer, r). (Flushing t, buffer, map_option Acked r)))
       (read_loop neighbor_flush_process_message buffer t [Received data])"
| "op_receive ntop (Getting t) buffer data =
     map_option (map_option (\<lambda>(t, buffer, r). (Getting t, buffer, map_option Found r)))
       (read_loop (neighbor_get_process_message ntop) buffer t [Received data])"

type_synonym reader = "nat \<times> neighbor_op \<times> mem"

fun serve :: "inet_ntop \<Rightarrow> u8 list list \<Rightarrow> reader list \<Rightarrow> (nat \<times> op_result) list
  \<Rightarrow> (reader list \<times> (nat \<times> op_result) list) ub option" where
  "serve ntop [] readers results = Some (Some (readers, results))"
| "serve ntop (data # datagrams) [] results = Some (Some ([], results))"
| "serve ntop (data # datagrams) ((i, op, buffer) # readers) results =
     (case op_receive ntop op buffer data of
        None \<Rightarrow> None
      | Some None \<Rightarrow> Some None
      | Some (Some (op', buffer', None)) \<Rightarrow> serve ntop datagrams (readers @ [(i, op', buffer')]) results
      | Some (Some (op', buffer', Some r)) \<Rightarrow> serve ntop datagrams readers (results @ [(i, r)]))"

section \<open>One operation and one datagram\<close>

lemma read_loop_length:
  "read_loop process buffer s recvs = Some (Some (s', buffer', r)) \<Longrightarrow> length buffer' = length buffer"
  by (induction process buffer s recvs rule: read_loop.induct)
    (auto simp: Let_def split: option.splits prod.splits)

lemma probe_receive:
  assumes "run_msgs neighbor_probe_process_message ms t = Some (t', r)" "wf_answer (length buffer) [ms]"
  shows "\<exists>buffer'. op_receive ntop (Probing t) buffer (enc_datagram ms) = Some (Some (Probing t', buffer', map_option Acked r))
    \<and> length buffer' = length buffer"
proof -
  have "run_msgs neighbor_probe_process_message (concat [ms]) t = Some (t', r)" using assms(1) by simp
  from read_loop_datagrams [OF neighbor_probe.message_handler_axioms this assms(2)]
  obtain buffer' where
    "read_loop neighbor_probe_process_message buffer t [Received (enc_datagram ms)] = Some (Some (t', buffer', r))"
    by auto
  then show ?thesis using read_loop_length by fastforce
qed

text \<open>An operation drops what carries another number, and ends with its own acknowledgement.\<close>

lemma probe_drops:
  assumes "nlmsg_seq b 0 = Some q" "q \<noteq> sequence t" "wf_answer (length buffer) [[b]]"
  shows "\<exists>buffer'. op_receive ntop (Probing t) buffer (enc_datagram [b]) = Some (Some (Probing t, buffer', None))
    \<and> length buffer' = length buffer"
proof -
  have "run_msgs neighbor_probe_process_message [b] t = Some (t, None)"
    using neighbor_probe.process_foreign [OF assms(1,2)] by simp
  from probe_receive [OF this assms(3), of ntop] show ?thesis by simp
qed

lemma probe_acked:
  assumes "wf_answer (length buffer) [[enc_error (sequence t) pid 0 payload]]"
  shows "\<exists>buffer'. op_receive ntop (Probing t) buffer (enc_datagram [enc_error (sequence t) pid 0 payload])
    = Some (Some (Probing t, buffer', Some (Acked (Inr ()))))"
proof -
  have "run_msgs neighbor_probe_process_message [enc_error (sequence t) pid 0 payload] t = Some (t, Some (Inr ()))"
    using neighbor_probe.run_ack [of "[]" t "enc_error (sequence t) pid 0 payload" "Error_Code Generic_Category 0" "[]"]
      nlmsgerr_code_enc [of 0] by (simp add: enc_error_hdr)
  from probe_receive [OF this assms, of ntop] show ?thesis by auto
qed

section \<open>Any operations and any datagrams\<close>





text \<open>The datagrams an operation gets when \<open>owners\<close> are the operations whose reads they complete.\<close>

definition share :: "nat list \<Rightarrow> u8 list list \<Rightarrow> nat \<Rightarrow> u8 list list" where
  "share owners datagrams i = map snd (filter (\<lambda>(j, data). j = i) (zip owners datagrams))"

lemma share_simps [simp]:
  "share [] datagrams i = []"
  "share (j # owners) (data # datagrams) i = (if j = i then [data] else []) @ share owners datagrams i"
  by (simp_all add: share_def)







section \<open>Properties\<close>

text \<open>
  C26. Two probes at the same time: the kernel answers both. When nothing else arrives, both
  succeed. When one notification arrives before the answers, each reads the other's answer and
  drops it: both wait for ever.
\<close>

theorem shared_socket_loses_answers:
  assumes "sequence t1 \<noteq> sequence t2" "length m1 = MAX_RESPONSE_BYTES" "length m2 = MAX_RESPONSE_BYTES"
    and "wf_msg b" "length (enc_datagram [b]) \<le> MAX_RESPONSE_BYTES"
    and "nlmsg_seq b 0 = Some q" "q \<noteq> sequence t1"
    and "a1 = enc_datagram [enc_error (sequence t1) pid 0 []]" "a2 = enc_datagram [enc_error (sequence t2) pid 0 []]"
  shows "serve ntop [a1, a2] [(1, Probing t1, m1), (2, Probing t2, m2)] []
      = Some (Some ([], [(1, Acked (Inr ())), (2, Acked (Inr ()))]))
    \<and> (\<exists>m1' m2'. serve ntop [enc_datagram [b], a1, a2] [(1, Probing t1, m1), (2, Probing t2, m2)] []
      = Some (Some ([(2, Probing t2, m2'), (1, Probing t1, m1')], [])))"
proof -
  have ack: "wf_answer MAX_RESPONSE_BYTES [[enc_error seq pid 0 []]]" for seq
    by (simp add: wf_answer_def enc_error_def wf_msg_enc pad4_def MAX_RESPONSE_BYTES_def)
  have other: "wf_answer MAX_RESPONSE_BYTES [[b]]"
    using assms(4,5) by (simp add: wf_answer_def MAX_RESPONSE_BYTES_def)
  obtain m m' where "op_receive ntop (Probing t1) m1 a1 = Some (Some (Probing t1, m, Some (Acked (Inr ()))))"
    "op_receive ntop (Probing t2) m2 a2 = Some (Some (Probing t2, m', Some (Acked (Inr ()))))"
    using probe_acked [of m1 t1 pid "[]" ntop] probe_acked [of m2 t2 pid "[]" ntop] ack
    unfolding assms(2,3,8,9) by blast
  then have both: "serve ntop [a1, a2] [(1, Probing t1, m1), (2, Probing t2, m2)] []
      = Some (Some ([], [(1, Acked (Inr ())), (2, Acked (Inr ()))]))"
    by simp
  obtain n1 where n1: "op_receive ntop (Probing t1) m1 (enc_datagram [b]) = Some (Some (Probing t1, n1, None))"
    "length n1 = MAX_RESPONSE_BYTES"
    using probe_drops [OF assms(6,7), of m1 ntop] other unfolding assms(2) by blast
  obtain n2 where n2: "op_receive ntop (Probing t2) m2 a1 = Some (Some (Probing t2, n2, None))"
    using probe_drops [OF enc_error_hdr(2) assms(1), of m2 pid 0 "[]" ntop] ack unfolding assms(3,8) by blast
  obtain k1 where "op_receive ntop (Probing t1) n1 a2 = Some (Some (Probing t1, k1, None))"
    using probe_drops [OF enc_error_hdr(2) assms(1) [symmetric], of n1 pid 0 "[]" ntop] ack
    unfolding n1(2) assms(9) by blast
  then show ?thesis using both n1(1) n2 by simp
qed

lemma shared_socket_loses_answers_witness:
  "let t1 = neighbor_probe_init 3 1 (replicate 16 1); t2 = neighbor_probe_init 4 2 (replicate 16 2);
       m = replicate 65536 0; b = enc_msg RTM_NEWLINK 0 0 0 (replicate 16 0)
   in \<exists>m1 m2. serve (\<lambda>_ _. None) [enc_datagram [b], enc_datagram [enc_error 1 7 0 []], enc_datagram [enc_error 2 7 0 []]]
        [(1, Probing t1, m), (2, Probing t2, m)] [] = Some (Some ([(2, Probing t2, m2), (1, Probing t1, m1)], []))"
proof -
  let ?t1 = "neighbor_probe_init 3 1 (replicate 16 1)" and ?t2 = "neighbor_probe_init 4 2 (replicate 16 2)"
  let ?b = "enc_msg RTM_NEWLINK 0 0 0 (replicate 16 0)" and ?m = "replicate 65536 0 :: u8 list"
  have seq: "sequence ?t1 = 1" "sequence ?t2 = 2" by simp_all
  have "length (enc_datagram [?b]) \<le> MAX_RESPONSE_BYTES" "wf_msg ?b" "nlmsg_seq ?b 0 = Some 0"
    "length ?m = MAX_RESPONSE_BYTES"
    by (simp_all add: pad4_def MAX_RESPONSE_BYTES_def wf_msg_enc nlmsghdr_enc_msg)
  then show ?thesis
    unfolding Let_def
    using shared_socket_loses_answers [of ?t1 ?t2 ?m ?m ?b 0 "enc_datagram [enc_error 1 7 0 []]" 7
        "enc_datagram [enc_error 2 7 0 []]" "\<lambda>_ _. None"]
    by (simp add: seq)
qed



end
