(* ===== verification/Socket_IO.thy ===== *)
theory Socket_IO
  imports Nl_Socket Request_Task
begin

text \<open>
  The rest of \<open>Socket\<close> (\<open>include/rtaco/socket/nl_socket.hxx\<close>, \<open>src/socket/nl_socket.cxx\<close>): the templates
  that send and receive, the move operations, and the line that \<open>open()\<close> prints. What the system
  does with the bytes is a parameter.
\<close>

section \<open>Sending and receiving\<close>

text \<open>As Boost.Asio documents, a transfer on a closed socket moves nothing and fails.\<close>

type_synonym transfer = "nat \<times> error_code option"

definition asio_transfer :: "('b \<Rightarrow> transfer) \<Rightarrow> 'b \<Rightarrow> socket \<Rightarrow> transfer" where
  "asio_transfer system buffers s = (if sock_open s then system buffers else (0, Some bad_descriptor))"

definition socket_receive :: "('b \<Rightarrow> transfer) \<Rightarrow> 'b \<Rightarrow> socket \<Rightarrow> transfer" where
  "socket_receive system buffers s = asio_transfer system buffers s"

definition socket_send :: "('b \<Rightarrow> transfer) \<Rightarrow> 'b \<Rightarrow> socket \<Rightarrow> transfer" where
  "socket_send system buffers s = asio_transfer system buffers s"

text \<open>The asynchronous ones hand the completion to their token.\<close>

definition socket_async_receive :: "('b \<Rightarrow> transfer) \<Rightarrow> 'b \<Rightarrow> (transfer \<Rightarrow> 'x) \<Rightarrow> socket \<Rightarrow> 'x" where
  "socket_async_receive system buffers token s = token (asio_transfer system buffers s)"

definition socket_async_send :: "('b \<Rightarrow> transfer) \<Rightarrow> 'b \<Rightarrow> (transfer \<Rightarrow> 'x) \<Rightarrow> socket \<Rightarrow> 'x" where
  "socket_async_send system buffers token s = token (asio_transfer system buffers s)"

text \<open>The completions as \<open>RequestTask\<close> takes them: of the error only the number is kept.\<close>

fun sent_of :: "transfer \<Rightarrow> send_outcome" where
  "sent_of (n, None) = Sent n"
| "sent_of (n, Some ec) = Send_Error (error_value ec)"

fun received_of :: "u8 list \<Rightarrow> transfer \<Rightarrow> recv_outcome" where
  "received_of data (n, None) = Received (take n data)"
| "received_of data (n, Some ec) = Recv_Error (error_value ec)"

text \<open>On a guard that has been stopped, a task ends with the error of its next operation.\<close>

lemma closed_transfer:
  assumes "\<not> is_open s"
  shows "socket_async_send system buffers sent_of s = Send_Error 9"
    "socket_async_receive system buffers (received_of data) s = Recv_Error 9"
  using assms by (simp_all add: socket_async_send_def socket_async_receive_def asio_transfer_def is_open_def bad_descriptor_def)

lemma stopped_task_ends:
  assumes "request_payload (prepare_request s) = Some payload" "payload \<noteq> []"
  shows "async_run prepare_request request_payload process buffer s
      (socket_async_send system bytes sent_of (guard_socket (guard_stop os g)) # sends) recvs
    = Some (Some ([], prepare_request s, Some (Inl (Error_Code Generic_Category 9))))"
proof -
  have "socket_async_send system bytes sent_of (guard_socket (guard_stop os g)) = Send_Error 9"
    by (rule closed_transfer(1) [OF guard_stop_closed])
  then show ?thesis
    using assms by (simp add: async_run_def send_request.simps)
qed

section \<open>Moving\<close>

text \<open>
  The socket that is moved from is closed; its label is left with unspecified contents. The target
  of an assignment gives up what it had open.
\<close>

definition socket_move :: "string \<Rightarrow> socket \<Rightarrow> socket \<times> socket" where
  "socket_move left_label source = (source, socket_init left_label)"

definition socket_move_assign :: "os \<Rightarrow> string \<Rightarrow> socket \<Rightarrow> socket \<Rightarrow> socket \<times> socket" where
  "socket_move_assign os left_label target source =
     (let target = fst (asio_close os target)
      in (target\<lparr>sock_label := sock_label source, sock_open := sock_open source, sock_proto := sock_proto source,
            sock_options := sock_options source, sock_bound := sock_bound source, sock_peer := sock_peer source\<rparr>,
          socket_init left_label))"

text \<open>Either way there is one owner afterwards, and destroying the source closes nothing.\<close>

lemma socket_move_owner:
  "fst (socket_move l s) = s" "\<not> is_open (snd (socket_move l s))"
  "fst (socket_move_assign os l t s) = s" "\<not> is_open (snd (socket_move_assign os l t s))"
  "socket_destroy os (snd (socket_move l s)) = snd (socket_move l s)"
  by (simp_all add: socket_move_def socket_move_assign_def socket_init_def is_open_def Let_def socket_destroy_def)

section \<open>What \<open>open()\<close> prints\<close>

text \<open>What \<open>getsockname\<close> answers: the port and the groups, or the text of its error.\<close>

type_synonym sock_name = "string + u32 \<times> u32"

definition open_report :: "string \<Rightarrow> sock_name \<Rightarrow> string" where
  "open_report label name = (case name of
     Inr (pid, groups) \<Rightarrow> label @ '': bound nl_pid='' @ dec_string (unat pid) @ '' nl_groups=0x''
       @ hex_string (unat groups) @ [CHR 0x0A]
   | Inl error \<Rightarrow> label @ '': getsockname failed: '' @ error @ [CHR 0x0A])"

definition socket_open_printing ::
  "os \<Rightarrow> sock_name \<Rightarrow> int \<Rightarrow> u32 \<Rightarrow> socket \<Rightarrow> (socket \<times> unit expected outcome) \<times> string" where
  "socket_open_printing os name p groups s = (case socket_open os p groups s of
     (s', Return (Inr _)) \<Rightarrow> ((s', Return (Inr ())), open_report (sock_label s') name)
   | failed \<Rightarrow> (failed, []))"

text \<open>The line is printed when the socket has been opened, configured and bound, and only then.\<close>

lemma socket_open_printing_iff:
  "fst (socket_open_printing os name p groups s) = socket_open os p groups s"
  "snd (socket_open_printing os name p groups s) \<noteq> [] \<longleftrightarrow> snd (socket_open os p groups s) = Return (Inr ())"
  by (auto simp: socket_open_printing_def open_report_def split: prod.split outcome.split sum.split)

lemma open_report_example:
  "open_report ''nl-control'' (Inr (4242, DEFAULT_GROUP_MASK)) = ''nl-control: bound nl_pid=4242 nl_groups=0x555'' @ [CHR 0x0A]"
  by (simp add: open_report_def DEFAULT_GROUP_MASK_def dec_string.simps hex_string.simps char_of_def bit_Suc_0_iff)

end
