(* ===== verification/Signal_Executor.thy ===== *)
theory Signal_Executor
  imports Nl_Signal
begin

text \<open>
  Emitting a signal with results while another thread runs the executor: \<open>future.get()\<close> then comes
  back when the job of the slot has been run. With nothing else posted, only one of the two threads
  has something to do at any time, so there is one way the emission can go.
\<close>

section \<open>What the executor does with a queue\<close>

text \<open>The jobs that are due at once run first; the spawned ones post themselves behind them.\<close>

fun due :: "'w job list \<Rightarrow> ('w \<Rightarrow> 'w) list" where
  "due [] = []"
| "due (Posted f # jobs) = f # due jobs"
| "due (Spawned f # jobs) = due jobs"

fun spawned :: "'w job list \<Rightarrow> ('w \<Rightarrow> 'w) list" where
  "spawned [] = []"
| "spawned (Posted f # jobs) = spawned jobs"
| "spawned (Spawned f # jobs) = f # spawned jobs"

lemma due_append [simp]: "due (as @ bs) = due as @ due bs"
  by (induction as rule: due.induct) simp_all

lemma spawned_append [simp]: "spawned (as @ bs) = spawned as @ spawned bs"
  by (induction as rule: spawned.induct) simp_all

lemma run_all_order: "run_all (w, jobs) = fold (\<lambda>f. f) (due jobs @ spawned jobs) w"
proof (induction "turns jobs" arbitrary: w jobs rule: less_induct)
  case less
  show ?case
  proof (cases jobs rule: due.cases)
    case 1
    then show ?thesis by simp
  next
    case (2 f rest)
    have "run_all (w, jobs) = run_all (f w, rest)"
      by (subst run_all.simps) (simp add: 2)
    then show ?thesis using less [of rest "f w"] by (simp add: 2)
  next
    case (3 f rest)
    have "run_all (w, jobs) = run_all (w, rest @ [Posted f])"
      by (subst run_all.simps) (simp add: 3)
    then show ?thesis using less [of "rest @ [Posted f]" w] by (simp add: 3)
  qed
qed

section \<open>Waiting for a future\<close>

text \<open>
  \<open>get()\<close> while another thread runs the executor: it runs the jobs until there are none left, and the
  promise then has what its job has put into it, if that was among them.
\<close>

fun get_served :: "'r future \<Rightarrow> ('w \<times> 'r promises) \<times> ('w \<times> 'r promises) job list
    \<Rightarrow> (('w \<times> 'r promises) \<times> ('w \<times> 'r promises) job list) \<times> 'r call option" where
  "get_served (Ready r) st = (st, Some (Value r))"
| "get_served (Promise p) st = (case run_all st of (w, promises) \<Rightarrow> (((w, promises), []), promises ! p))"

definition emit_served ::
  "('a, 'r, 'w) signal \<Rightarrow> 'a \<Rightarrow> ('w \<times> 'r promises) \<times> ('w \<times> 'r promises) job list
    \<Rightarrow> (('w \<times> 'r promises) \<times> ('w \<times> 'r promises) job list) \<times> 'r list emitted" where
  "emit_served sig args st = wait_all slot_call get_served (connections sig) args [] st"

definition synchronous :: "('a, 'r, 'w) signal \<Rightarrow> ('a, 'r, 'w) signal" where
  "synchronous sig = sig\<lparr>connections := map (\<lambda>(i, policy, slot_fn). (i, Sync, slot_fn)) (connections sig)\<rparr>"

lemma slot_call_sync:
  "slot_call Sync f args ((w, ps), jobs) = (case f args w of
     (w', Value x) \<Rightarrow> (((w', ps), jobs), Value (Ready x)) | (w', Raised e) \<Rightarrow> (((w', ps), jobs), Raised e))"
  by (simp add: slot_call_def split: prod.split call.split)

text \<open>The job of an asynchronous slot, run by an executor that has nothing else to do.\<close>

lemma get_served_async:
  "slot_call Async f args ((w, ps), []) = (((w, ps @ [None]), [Spawned (fulfill f args (length ps))]), Value (Promise (length ps)))"
  "get_served (Promise (length ps)) ((w, ps @ [None]), [Spawned (fulfill f args (length ps))])
    = (((fst (f args w), ps @ [Some (snd (f args w))]), []), Some (snd (f args w)))"
  by (simp_all add: slot_call_def run_all_order fulfill_def split: prod.split)

lemma wait_all_served:
  assumes "wait_all slot_call get_served cs args results ((w, ps), []) = (((w', ps'), jobs), r)"
  shows "wait_all slot_call get_alone (map (\<lambda>(i, policy, slot_fn). (i, Sync, slot_fn)) cs) args results ((w, qs), [])
      = (((w', qs), []), r) \<and> jobs = []"
  using assms
proof (induction cs arbitrary: results w ps)
  case Nil
  then show ?case by simp
next
  case (Cons c cs)
  obtain i p f where c: "c = (i, p, f)" by (cases c)
  obtain w1 x where f: "f args w = (w1, x)" by (cases "f args w")
  show ?case
  proof (cases p)
    case Sync
    then show ?thesis
      using Cons.prems Cons.IH [of _ w1 ps] f by (cases x) (simp_all add: c slot_call_sync)
  next
    case Async
    then show ?thesis
      using Cons.prems Cons.IH [of _ w1 "ps @ [Some x]"] f
      by (cases x) (simp_all add: c get_served_async slot_call_sync del: get_served.simps(2))
  qed
qed

section \<open>Properties\<close>

text \<open>
  C36. A signal whose slots have results needs a thread that runs the executor. When there is one,
  and it has nothing else to do, an emission gives the results and has the effects, or ends with the
  exception, that it would if every slot had been connected to run in place: the jobs that are posted
  for the asynchronous slots call them, once and in turn. Emitted by the thread that runs the
  executor, and when the slots before the first asynchronous one raise nothing, it blocks for ever at
  that slot, with those before it called, its job still to be run, and those after it not called.
\<close>

theorem emit_needs_executor:
  "(emit_served sig args ((w, ps), []) = (((w', ps'), jobs'), r)
      \<longrightarrow> emit (synchronous sig) args ((w, ps), []) = (((w', ps), []), r) \<and> jobs' = [])
   \<and> (connections sig = as @ (i, Async, f) # cs \<and> list_all (\<lambda>c. fst (snd c) = Sync) as \<and> never_raises as
      \<longrightarrow> emit sig args ((w, ps), jobs)
        = (((fold (\<lambda>f. f) (effects Sync as args) w, ps @ [None]), jobs @ [Spawned (fulfill f args (length ps))]), Blocked))"
  using wait_all_served [of "connections sig" args "[]" w ps w' ps' jobs' r ps] emit_blocks_on_async [of sig as i f cs args w ps jobs]
  by (simp add: emit_served_def emit_def synchronous_def)

lemma emit_needs_executor_witness:
  "let sig = fst (connect (\<lambda>(a, b) w. (w @ [1 :: int], Value (a * b))) Async
       (fst (connect (\<lambda>(a, b) w. (w @ [0], Value (a + b))) Sync signal_init)))
   in emit_served sig (3 :: int, 4) (([], []), []) = ((([0, 1], [Some (Value 12)]), []), Combined [7, 12])
      \<and> emit (synchronous sig) (3, 4) (([], []), []) = ((([0, 1], []), []), Combined [7, 12])
      \<and> snd (emit sig (3, 4) (([], []), [])) = Blocked"
proof -
  let ?add = "\<lambda>(a, b) w. (w @ [0 :: int], Value (a + b :: int))" and ?mult = "\<lambda>(a, b) w. (w @ [1], Value (a * b))"
  let ?sig = "fst (connect ?mult Async (fst (connect ?add Sync signal_init)))"
  have c: "connections ?sig = [(0, Sync, ?add)] @ (1, Async, ?mult) # []"
    by (simp add: connect_def signal_init_def)
  have quiet: "list_all (\<lambda>c. fst (snd c) = Sync) [(0, Sync, ?add)]" "never_raises [(0, Sync, ?add)]"
    by (simp_all add: never_raises_def split: prod.split)
  have served: "emit_served ?sig (3, 4) (([], []), []) = ((([0, 1], [Some (Value 12)]), []), Combined [7, 12])"
    unfolding emit_served_def c by (simp add: slot_call_def run_all_order fulfill_def)
  show ?thesis
    unfolding Let_def
    using served c quiet emit_needs_executor [of ?sig "(3, 4)" "[]" "[]" "[0, 1]" "[Some (Value 12)]" "[]" "Combined [7, 12]"
        "[(0, Sync, ?add)]" 1 ?mult "[]" "[]"] by simp
qed

end
