(* ===== verification/Reentrant_Listener.thy ===== *)
theory Reentrant_Listener
  imports Listener_States
begin

text \<open>
  Slots that call back into the listener: \<open>stop()\<close> and \<open>start()\<close> from inside of a handler. Such a slot
  acts on the life cycle of the listener beside the state of the application. The handlers, the
  signals and the loop are those of Nl_Listener, at a state of the application that has the life
  cycle as a part.
\<close>

section \<open>The life cycle as a state of its own\<close>

record life_cycle =
  lc_guard :: socket_guard
  lc_running :: bool
  lc_waiting :: nat
  lc_ready :: "(error_code option \<times> nat) list"

definition life_cycle_of :: "'w listener \<Rightarrow> life_cycle" where
  "life_cycle_of l = \<lparr>lc_guard = l_guard l, lc_running = l_running l, lc_waiting = l_waiting l, lc_ready = l_ready l\<rparr>"

definition with_life_cycle :: "life_cycle \<Rightarrow> 'w listener \<Rightarrow> 'w listener" where
  "with_life_cycle k l = l\<lparr>l_guard := lc_guard k, l_running := lc_running k, l_waiting := lc_waiting k, l_ready := lc_ready k\<rparr>"

text \<open>A function of the listener, called by a slot.\<close>

definition from_slot :: "(unit listener \<Rightarrow> unit listener) \<Rightarrow> life_cycle \<Rightarrow> life_cycle" where
  "from_slot f k = life_cycle_of (f (with_life_cycle k (listener_init ())))"

definition slot_stop :: "os \<Rightarrow> life_cycle \<Rightarrow> life_cycle" where
  "slot_stop os = from_slot (listener_stop os)"

definition slot_start :: "os \<Rightarrow> life_cycle \<Rightarrow> life_cycle" where
  "slot_start os = from_slot (\<lambda>l. fst (listener_start os l))"

text \<open>They do to the life cycle what they do to a listener with that life cycle.\<close>

lemma life_cycle_with [simp]: "life_cycle_of (with_life_cycle k l) = k"
  by (simp add: life_cycle_of_def with_life_cycle_def)

lemma slot_stop_of: "slot_stop os (life_cycle_of l) = life_cycle_of (listener_stop os l)"
  by (simp add: slot_stop_def from_slot_def listener_stop_def life_cycle_of_def with_life_cycle_def)

lemma slot_start_of: "slot_start os (life_cycle_of l) = life_cycle_of (fst (listener_start os l))"
  by (auto simp: slot_start_def from_slot_def listener_start_def open_socket_def request_read_def
      life_cycle_of_def with_life_cycle_def split: prod.split outcome.split sum.split)

section \<open>Handling a datagram\<close>

text \<open>Around the loop the life cycle moves into the state the slots see, and back.\<close>

definition lend :: "('v \<times> life_cycle) listener \<Rightarrow> ('v \<times> life_cycle) app" where
  "lend l = (case l_app l of ((v, _), jobs) \<Rightarrow> ((v, life_cycle_of l), jobs))"

definition give_back :: "('v \<times> life_cycle) app \<Rightarrow> ('v \<times> life_cycle) listener \<Rightarrow> ('v \<times> life_cycle) listener" where
  "give_back app l = with_life_cycle (snd (fst app)) (l\<lparr>l_app := app\<rparr>)"

definition reentrant_process_messages ::
  "inet_ntop \<Rightarrow> nat \<Rightarrow> ('v \<times> life_cycle) listener \<Rightarrow> (('v \<times> life_cycle) listener \<times> nat option) ub option" where
  "reentrant_process_messages ntop bytes l =
     (case nlmsg_loop (handle_message ntop (l_signals l) (l_buffer l)) (l_buffer l) 0 (of_nat bytes) (lend l) of
        None \<Rightarrow> None
      | Some None \<Rightarrow> Some None
      | Some (Some (app, Some e, remaining)) \<Rightarrow> Some (Some (give_back app l, Some e))
      | Some (Some (app, None, remaining)) \<Rightarrow> Some (Some (request_read (give_back app l), None)))"

definition reentrant_handle_read ::
  "inet_ntop \<Rightarrow> error_code option \<Rightarrow> nat \<Rightarrow> ('v \<times> life_cycle) listener
    \<Rightarrow> (('v \<times> life_cycle) listener \<times> nat option) ub option" where
  "reentrant_handle_read ntop ec bytes l =
     (if \<not> l_running l then Some (Some (l, None))
      else if ec = Some operation_aborted then Some (Some (l, None))
      else if ec \<noteq> None then Some (Some (request_read l, None))
      else reentrant_process_messages ntop bytes l)"

lemma give_back_simps [simp]:
  "l_running (give_back app l) = lc_running (snd (fst app))" "l_waiting (give_back app l) = lc_waiting (snd (fst app))"
  "l_ready (give_back app l) = lc_ready (snd (fst app))" "l_guard (give_back app l) = lc_guard (snd (fst app))"
  "l_app (give_back app l) = app" "l_signals (give_back app l) = l_signals l"
  by (simp_all add: give_back_def with_life_cycle_def)

text \<open>
  The loop does not look at the life cycle: whatever the slots do to it, all messages of the
  datagram are handed over, and then the listener reads on if it is running.
\<close>

lemma reentrant_datagram:
  assumes "l_running l" "quiet (l_signals l)"
    and "list_all (\<lambda>b. wf_msg b \<and> notification_of ntop b 0 \<noteq> None) msgs"
    and "embeds (enc_datagram msgs) (l_buffer l) 0" "length (enc_datagram msgs) < 2 ^ 31"
  shows "reentrant_handle_read ntop None (length (enc_datagram msgs)) l
    = Some (Some (request_read (give_back (deliver (l_signals l) (notifications ntop msgs) (lend l)) l), None))"
proof -
  have msgs: "wf_msg b \<and> notification_of ntop b 0 \<noteq> None" if "b \<in> set msgs" for b
    using assms(3) that by (simp add: list.pred_set)
  then have wf: "wf_msg b" if "b \<in> set msgs" for b using that by blast
  from dispatch.loop_datagram [OF run_handle_messages [OF assms(2) msgs] wf assms(4,5)]
  show ?thesis using assms(1) by (auto simp: reentrant_handle_read_def reentrant_process_messages_def)
qed

section \<open>Slots that stop or restart\<close>

text \<open>The slot keeps the event, and then does something to the listener.\<close>

definition keep_and :: "(life_cycle \<Rightarrow> life_cycle) \<Rightarrow> ('e, unit, 'e list \<times> life_cycle) slot" where
  "keep_and f = (\<lambda>event (seen, k). ((seen @ [event], f k), Value ()))"

lemma deliver_links:
  assumes "connections (on_link_event sigs) = [(i, Sync, keep_and f)]"
  shows "deliver sigs (map N_Link events) ((seen, k), jobs) = ((seen @ events, (f ^^ length events) k), jobs)"
proof (induction events arbitrary: seen k)
  case Nil
  then show ?case by simp
next
  case (Cons e es)
  have "fst (notify sigs (N_Link e) ((seen, k), jobs)) = ((seen @ [e], f k), jobs)"
    by (simp add: emit_void_def assms slot_call_void_def keep_and_def emission_def)
  then show ?case
    using Cons.IH [of "seen @ [e]" "f k"] by (simp add: deliver_def funpow_swap1)
qed

lemma quiet_keep:
  assumes "connections (on_link_event sigs) = [(i, Sync, keep_and f)]" "connections (on_address_event sigs) = []"
    and "connections (on_route_event sigs) = []" "connections (on_neighbor_event sigs) = []"
    and "connections (on_nlmsgerr_event sigs) = []"
  shows "quiet sigs"
  using assms by (simp add: quiet_def never_raises_def keep_and_def split: prod.split)

text \<open>Stopping twice is stopping once; and a restart leaves one read waiting.\<close>

lemma slot_stop_stops:
  "\<not> lc_running (slot_stop os k)" "lc_running k \<Longrightarrow> lc_waiting (slot_stop os k) = 0"
  "lc_running k \<Longrightarrow> lc_ready (slot_stop os k) = lc_ready k @ replicate (lc_waiting k) (Some operation_aborted, 0)"
  "\<not> lc_running k \<Longrightarrow> slot_stop os k = k"
  by (simp_all add: slot_stop_def from_slot_def listener_stop_def life_cycle_of_def with_life_cycle_def)

lemma slot_stop_again: "0 < n \<Longrightarrow> (slot_stop os ^^ n) k = slot_stop os k"
proof (induction n)
  case 0
  then show ?case by simp
next
  case (Suc n)
  then show ?case by (cases n) (simp_all add: slot_stop_stops)
qed

lemma slot_restart:
  assumes "lc_running k"
  shows "lc_running (slot_start working (slot_stop os k))" "lc_waiting (slot_start working (slot_stop os k)) = 1"
    "is_open (guard_socket (lc_guard (slot_start working (slot_stop os k))))"
proof -
  let ?l = "with_life_cycle (slot_stop os k) (listener_init ())"
  have l: "\<not> l_running ?l" "\<not> is_open (guard_socket (l_guard ?l))" "l_waiting ?l = 0"
    using assms guard_stop_closed [of os "lc_guard k"]
    by (simp_all add: with_life_cycle_def slot_stop_def from_slot_def listener_stop_def life_cycle_of_def)
  obtain g where "listener_start working ?l = (?l\<lparr>l_guard := g, l_running := True, l_waiting := Suc (l_waiting ?l)\<rparr>, Return ())"
    and "is_open (guard_socket g)"
    using start_working [OF l(1,2)] by (elim exE conjE) (rule that)
  then show "lc_running (slot_start working (slot_stop os k))" "lc_waiting (slot_start working (slot_stop os k)) = 1"
    "is_open (guard_socket (lc_guard (slot_start working (slot_stop os k))))"
    using l(3) by (simp_all add: slot_start_def from_slot_def life_cycle_of_def)
qed

lemma slot_restart_again:
  assumes "lc_running k" "0 < n"
  shows "let k' = ((\<lambda>k. slot_start working (slot_stop os k)) ^^ n) k
    in lc_running k' \<and> lc_waiting k' = 1 \<and> is_open (guard_socket (lc_guard k'))"
  using assms(2)
proof (induction n)
  case 0
  then show ?case by simp
next
  case (Suc n)
  show ?case
  proof (cases n)
    case 0
    then show ?thesis using slot_restart [OF assms(1)] by (simp add: Let_def)
  next
    case (Suc m)
    then have "lc_running (((\<lambda>k. slot_start working (slot_stop os k)) ^^ n) k)"
      using Suc.IH by (simp add: Let_def)
    from slot_restart [OF this] show ?thesis by (simp add: Let_def)
  qed
qed

text \<open>A running listener that has just received two messages, with one slot.\<close>

definition lo_listener :: "(life_cycle \<Rightarrow> life_cycle) \<Rightarrow> (link_event list \<times> life_cycle) listener" where
  "lo_listener f = (let l = fst (connect_to_link_event (keep_and f) Sync (listener_init ([], life_cycle_of (listener_init ()))))
     in l\<lparr>l_running := True, l_buffer := receive_into (l_buffer l) (enc_datagram [lo_message, lo_message])\<rparr>)"

lemma lo_listener:
  "l_running (lo_listener f)" "l_waiting (lo_listener f) = 0" "l_ready (lo_listener f) = []"
  "connections (on_link_event (l_signals (lo_listener f))) = [(0, Sync, keep_and f)]" "quiet (l_signals (lo_listener f))"
  "embeds (enc_datagram [lo_message, lo_message]) (l_buffer (lo_listener f)) 0"
  "l_app (lo_listener f) = (([], life_cycle_of (listener_init ())), [])"
proof -
  let ?d = "enc_datagram [lo_message, lo_message]"
  have sigs: "connections (on_link_event (l_signals (lo_listener f))) = [(0, Sync, keep_and f)]"
    "connections (on_address_event (l_signals (lo_listener f))) = []"
    "connections (on_route_event (l_signals (lo_listener f))) = []"
    "connections (on_neighbor_event (l_signals (lo_listener f))) = []"
    "connections (on_nlmsgerr_event (l_signals (lo_listener f))) = []"
    by (simp_all add: lo_listener_def connect_to_link_event_def connect_def listener_init_def signal_init_def)
  show "connections (on_link_event (l_signals (lo_listener f))) = [(0, Sync, keep_and f)]"
    "quiet (l_signals (lo_listener f))"
    using sigs quiet_keep [OF sigs] by simp_all
  have "length ?d \<le> length (replicate BUFFER_SIZE 0 :: mem)" by (simp only: lo_message(3)) (simp add: BUFFER_SIZE_def)
  from receive_into_embeds [OF this]
  show "embeds ?d (l_buffer (lo_listener f)) 0"
    by (simp add: lo_listener_def connect_to_link_event_def connect_def listener_init_def del: enc_datagram_simps)
  show "l_running (lo_listener f)" "l_waiting (lo_listener f) = 0" "l_ready (lo_listener f) = []"
    "l_app (lo_listener f) = (([], life_cycle_of (listener_init ())), [])"
    by (simp_all add: lo_listener_def connect_to_link_event_def connect_def listener_init_def)
qed

lemma lo_datagram:
  "list_all (\<lambda>b. wf_msg b \<and> notification_of ntop b 0 \<noteq> None) [lo_message, lo_message]"
  "notifications ntop [lo_message, lo_message] = map N_Link [lo_event, lo_event]"
  by (simp_all add: lo_message notifications_def)

section \<open>Properties\<close>

text \<open>
  C37. A slot that stops the listener: the rest of the datagram is handed over all the same, each
  message to a slot of a listener that has been stopped; then nothing is read any more, and the
  socket is closed.
\<close>

theorem stop_in_slot:
  assumes "l_running l" "l_waiting l = 0" "l_ready l = []" "quiet (l_signals l)"
    and "connections (on_link_event (l_signals l)) = [(i, Sync, keep_and (slot_stop os))]"
    and "list_all (\<lambda>b. wf_msg b \<and> notification_of ntop b 0 \<noteq> None) msgs"
    and "notifications ntop msgs = map N_Link events" "events \<noteq> []"
    and "embeds (enc_datagram msgs) (l_buffer l) 0" "length (enc_datagram msgs) \<le> BUFFER_SIZE"
    and "l_app l = ((seen, k), jobs)"
  shows "\<exists>l'. reentrant_handle_read ntop None (length (enc_datagram msgs)) l = Some (Some (l', None))
    \<and> fst (fst (l_app l')) = seen @ events
    \<and> \<not> l_running l' \<and> outstanding l' = 0 \<and> \<not> is_open (guard_socket (l_guard l'))"
proof -
  let ?k = "slot_stop os (life_cycle_of l)"
  have "deliver (l_signals l) (notifications ntop msgs) (lend l) = ((seen @ events, ?k), jobs)"
    using deliver_links [OF assms(5)] assms(8) by (simp add: assms(7,11) lend_def slot_stop_again)
  moreover have "\<not> lc_running ?k" "lc_waiting ?k = 0" "lc_ready ?k = []" "\<not> is_open (guard_socket (lc_guard ?k))"
    unfolding slot_stop_of using assms(1-3) guard_stop_closed [of os "l_guard l"]
    by (simp_all add: listener_stop_def life_cycle_of_def)
  moreover have "length (enc_datagram msgs) < 2 ^ 31" using assms(10) by (simp add: BUFFER_SIZE_def)
  ultimately show ?thesis
    using reentrant_datagram [OF assms(1,4,6,9)] by (simp add: outstanding_def request_read_def)
qed

lemma stop_in_slot_witness:
  "\<exists>l'. reentrant_handle_read (\<lambda>_ _. None) None (length (enc_datagram [lo_message, lo_message])) (lo_listener (slot_stop working))
      = Some (Some (l', None))
    \<and> fst (fst (l_app l')) = [lo_event, lo_event] \<and> \<not> l_running l' \<and> outstanding l' = 0"
proof -
  have len: "length (enc_datagram [lo_message, lo_message]) \<le> BUFFER_SIZE"
    by (simp only: lo_message(3)) (simp add: BUFFER_SIZE_def)
  from stop_in_slot [OF lo_listener(1-3,5,4) lo_datagram _ lo_listener(6) len lo_listener(7)]
  show ?thesis by auto
qed

text \<open>
  C31. A slot that restarts the listener, with \<open>stop()\<close> and \<open>start()\<close>: \<open>start()\<close> requests a read, and so
  does the handler the slot is called from. Two reads of the one buffer are outstanding from then on.
\<close>

theorem restart_in_slot:
  assumes "l_running l" "quiet (l_signals l)"
    and "connections (on_link_event (l_signals l)) = [(i, Sync, keep_and (\<lambda>k. slot_start working (slot_stop os k)))]"
    and "list_all (\<lambda>b. wf_msg b \<and> notification_of ntop b 0 \<noteq> None) msgs"
    and "notifications ntop msgs = map N_Link events" "events \<noteq> []"
    and "embeds (enc_datagram msgs) (l_buffer l) 0" "length (enc_datagram msgs) \<le> BUFFER_SIZE"
    and "l_app l = ((seen, k), jobs)"
  shows "\<exists>l'. reentrant_handle_read ntop None (length (enc_datagram msgs)) l = Some (Some (l', None))
    \<and> fst (fst (l_app l')) = seen @ events \<and> l_running l' \<and> l_waiting l' = 2"
proof -
  let ?k = "((\<lambda>k. slot_start working (slot_stop os k)) ^^ length events) (life_cycle_of l)"
  have "deliver (l_signals l) (notifications ntop msgs) (lend l) = ((seen @ events, ?k), jobs)"
    using deliver_links [OF assms(3)] by (simp add: assms(5,9) lend_def)
  moreover have "lc_running ?k" "lc_waiting ?k = 1" "is_open (guard_socket (lc_guard ?k))"
    using slot_restart_again [of "life_cycle_of l" "length events" os] assms(1,6)
    by (simp_all add: Let_def life_cycle_of_def)
  moreover have "length (enc_datagram msgs) < 2 ^ 31" using assms(8) by (simp add: BUFFER_SIZE_def)
  ultimately show ?thesis
    using reentrant_datagram [OF assms(1,2,4,7)] by (simp add: request_read_def)
qed

lemma restart_in_slot_witness:
  "\<exists>l'. reentrant_handle_read (\<lambda>_ _. None) None (length (enc_datagram [lo_message, lo_message]))
      (lo_listener (\<lambda>k. slot_start working (slot_stop working k))) = Some (Some (l', None))
    \<and> fst (fst (l_app l')) = [lo_event, lo_event] \<and> l_running l' \<and> l_waiting l' = 2"
proof -
  have len: "length (enc_datagram [lo_message, lo_message]) \<le> BUFFER_SIZE"
    by (simp only: lo_message(3)) (simp add: BUFFER_SIZE_def)
  from restart_in_slot [OF lo_listener(1,5,4) lo_datagram _ lo_listener(6) len lo_listener(7)]
  show ?thesis by auto
qed

end
