(* ===== verification/Task_Machine.thy ===== *)
theory Task_Machine
  imports Request_Task
begin

text \<open>
  The coroutine \<open>RequestTask::async_run\<close> as a machine that is resumed by the completions of its socket
  operations, one at a time: the form in which coroutines interleave. It does what \<open>async_run\<close> of
  Request_Task does on the same completions.
\<close>

section \<open>The machine\<close>

datatype completion = Send_Completion send_outcome | Receive_Completion recv_outcome

text \<open>The points at which the coroutine is suspended, with what it has sent, and its end.\<close>

datatype ('s, 'r) task_state =
    Sending "u8 list" nat "u8 list" mem 's
  | Reading "u8 list" mem 's
  | Ended "u8 list" 's "'r expected"

text \<open>The condition of the loop in \<open>send_request\<close>, at the start and after each piece.\<close>

definition send_or_read :: "u8 list \<Rightarrow> nat \<Rightarrow> u8 list \<Rightarrow> mem \<Rightarrow> 's \<Rightarrow> ('s, 'r) task_state" where
  "send_or_read payload offset wire buffer s =
     (if offset < length payload then Sending payload offset wire buffer s else Reading wire buffer s)"

definition task_begin ::
  "('s \<Rightarrow> 's) \<Rightarrow> ('s \<Rightarrow> u8 list ub) \<Rightarrow> mem \<Rightarrow> 's \<Rightarrow> ('s, 'r) task_state ub" where
  "task_begin prepare_request request_payload buffer s =
     (let s = prepare_request s
      in map_option (\<lambda>payload. send_or_read payload 0 [] buffer s) (request_payload s))"

text \<open>\<open>None\<close>: the task does not wait for this completion, or its loop is undefined or does not end.\<close>

fun task_step :: "(mem \<Rightarrow> ptr \<Rightarrow> 's \<Rightarrow> ('s \<times> 'r expected option) ub) \<Rightarrow> ('s, 'r) task_state \<Rightarrow> completion
  \<Rightarrow> ('s, 'r) task_state option" where
  "task_step process (Sending payload offset wire buffer s) (Send_Completion (Send_Error ec)) =
     Some (Ended wire s (Inl (Error_Code Generic_Category ec)))"
| "task_step process (Sending payload offset wire buffer s) (Send_Completion (Sent sent)) =
     Some (send_or_read payload (offset + sent) (wire @ take sent (drop offset payload)) buffer s)"
| "task_step process (Reading wire buffer s) (Receive_Completion (Recv_Error ec)) =
     Some (Ended wire s (Inl (Error_Code Generic_Category ec)))"
| "task_step process (Reading wire receive_buffer s) (Receive_Completion (Received data)) =
     (let buffer = receive_into receive_buffer data;
          bytes = min (length data) (length receive_buffer)
      in case nlmsg_loop (process buffer) buffer 0 (of_nat bytes) s of
           Some (Some (s', Some r, remaining)) \<Rightarrow> Some (Ended wire s' r)
         | Some (Some (s', None, remaining)) \<Rightarrow> Some (Reading wire buffer s')
         | _ \<Rightarrow> None)"
| "task_step process _ _ = None"

fun task_run :: "(mem \<Rightarrow> ptr \<Rightarrow> 's \<Rightarrow> ('s \<times> 'r expected option) ub) \<Rightarrow> ('s, 'r) task_state \<Rightarrow> completion list
  \<Rightarrow> ('s, 'r) task_state option" where
  "task_run process st [] = Some st"
| "task_run process st (e # es) =
     (case task_step process st e of None \<Rightarrow> None | Some st' \<Rightarrow> task_run process st' es)"

lemma task_run_snoc:
  "task_run process st (es @ [e]) = (case task_run process st es of None \<Rightarrow> None | Some st' \<Rightarrow> task_step process st' e)"
  by (induction es arbitrary: st) (auto split: option.split)

text \<open>What the task has sent, its state and its result, if it has one yet.\<close>

fun task_outcome :: "('s, 'r) task_state \<Rightarrow> u8 list \<times> 's \<times> 'r expected option" where
  "task_outcome (Sending payload offset wire buffer s) = (wire, s, None)"
| "task_outcome (Reading wire buffer s) = (wire, s, None)"
| "task_outcome (Ended wire s r) = (wire, s, Some r)"

definition sends_of :: "completion list \<Rightarrow> send_outcome list" where
  "sends_of es = concat (map (\<lambda>e. case e of Send_Completion a \<Rightarrow> [a] | _ \<Rightarrow> []) es)"

definition recvs_of :: "completion list \<Rightarrow> recv_outcome list" where
  "recvs_of es = concat (map (\<lambda>e. case e of Receive_Completion a \<Rightarrow> [a] | _ \<Rightarrow> []) es)"

lemma completions_simps [simp]:
  "sends_of [] = []" "recvs_of [] = []"
  "sends_of (es @ [Send_Completion a]) = sends_of es @ [a]" "recvs_of (es @ [Send_Completion a]) = recvs_of es"
  "sends_of (es @ [Receive_Completion b]) = sends_of es" "recvs_of (es @ [Receive_Completion b]) = recvs_of es @ [b]"
  by (simp_all add: sends_of_def recvs_of_def)

section \<open>The machine and the function\<close>

text \<open>The loops of \<open>async_run\<close>, continued by one more completion.\<close>

lemma read_loop_append:
  "read_loop process buffer s (as @ bs) = (case read_loop process buffer s as of
     Some (Some (s', buffer', None)) \<Rightarrow> read_loop process buffer' s' bs
   | stopped \<Rightarrow> stopped)"
  by (induction process buffer s as rule: read_loop.induct) (auto simp: Let_def split: option.split)

lemma send_request_more:
  "offset < length payload \<Longrightarrow> send_request payload offset (Sent n # outcomes) wire
    = send_request payload (offset + n) outcomes (wire @ take n (drop offset payload))"
  "offset < length payload \<Longrightarrow> send_request payload offset (Send_Error ec # outcomes) wire
    = (wire, Some (Inl (Error_Code Generic_Category ec)))"
  "offset < length payload \<Longrightarrow> send_request payload offset [] wire = (wire, None)"
  by (subst send_request.simps, simp)+

text \<open>Where the machine is after some completions, told by the functions.\<close>

fun reached_by :: "(mem \<Rightarrow> ptr \<Rightarrow> 's \<Rightarrow> ('s \<times> 'r expected option) ub) \<Rightarrow> u8 list \<Rightarrow> mem \<Rightarrow> 's
  \<Rightarrow> send_outcome list \<Rightarrow> recv_outcome list \<Rightarrow> ('s, 'r) task_state \<Rightarrow> bool" where
  "reached_by process payload buffer0 s0 sends recvs (Sending payload' offset wire buffer s) \<longleftrightarrow>
     payload' = payload \<and> buffer = buffer0 \<and> s = s0 \<and> recvs = [] \<and> offset < length payload
     \<and> (\<forall>more. send_request payload 0 (sends @ more) [] = send_request payload offset more wire)"
| "reached_by process payload buffer0 s0 sends recvs (Reading wire buffer s) \<longleftrightarrow>
     send_request payload 0 sends [] = (wire, Some (Inr ()))
     \<and> read_loop process buffer0 s0 recvs = Some (Some (s, buffer, None))"
| "reached_by process payload buffer0 s0 sends recvs (Ended wire s r) \<longleftrightarrow>
     (\<exists>e. send_request payload 0 sends [] = (wire, Some (Inl e)) \<and> r = Inl e \<and> s = s0)
     \<or> send_request payload 0 sends [] = (wire, Some (Inr ()))
       \<and> (\<exists>buffer. read_loop process buffer0 s0 recvs = Some (Some (s, buffer, Some r)))"

lemma reached_send_or_read:
  assumes "\<And>more. send_request payload 0 (sends @ more) [] = send_request payload offset more wire"
  shows "reached_by process payload buffer s sends [] (send_or_read payload offset wire buffer s)"
  using assms [of "[]"] assms by (simp add: send_or_read_def send_request_done)

lemma task_step_reached:
  assumes "reached_by process payload buffer0 s0 (sends_of es) (recvs_of es) st" "task_step process st e = Some st'"
  shows "reached_by process payload buffer0 s0 (sends_of (es @ [e])) (recvs_of (es @ [e])) st'"
  using assms(2)
proof (cases "(process, st, e)" rule: task_step.cases)
  case (1 process' payload' offset wire buffer s ec)
  then show ?thesis using assms by (auto simp: send_request_more)
next
  case (2 process' payload' offset wire buffer s n)
  then have now: "payload' = payload" "buffer = buffer0" "s = s0" "recvs_of es = []" "offset < length payload"
    and more: "\<And>more. send_request payload 0 (sends_of es @ more) [] = send_request payload offset more wire"
    and e: "e = Send_Completion (Sent n)"
    and st': "st' = send_or_read payload (offset + n) (wire @ take n (drop offset payload)) buffer0 s0"
    using assms by auto
  have "send_request payload 0 ((sends_of es @ [Sent n]) @ rest) []
      = send_request payload (offset + n) rest (wire @ take n (drop offset payload))" for rest
    using now(5) by (simp add: more send_request_more)
  then have "reached_by process payload buffer0 s0 (sends_of es @ [Sent n]) []
      (send_or_read payload (offset + n) (wire @ take n (drop offset payload)) buffer0 s0)"
    by (rule reached_send_or_read)
  then show ?thesis by (simp add: e st' now(4))
next
  case (3 process' wire buffer s ec)
  then show ?thesis using assms by (auto simp: read_loop_append)
next
  case (4 process' wire buffer s data)
  then show ?thesis
    using assms by (auto simp: read_loop_append Let_def split: option.splits)
qed simp_all

lemma task_run_reached:
  assumes "reached_by process payload buffer0 s0 [] [] st" "task_run process st es = Some st'"
  shows "reached_by process payload buffer0 s0 (sends_of es) (recvs_of es) st'"
  using assms(2)
proof (induction es arbitrary: st' rule: rev_induct)
  case Nil
  then show ?case using assms(1) by simp
next
  case (snoc e es)
  then obtain k where k: "task_run process st es = Some k" "task_step process k e = Some st'"
    by (auto simp: task_run_snoc split: option.splits)
  show ?case by (rule task_step_reached [OF snoc.IH [OF k(1)] k(2)])
qed

text \<open>Resumed by its completions one by one, a task is where \<open>async_run\<close> is on all of them.\<close>

lemma task_run_async_run:
  assumes "task_begin prepare_request request_payload buffer s = Some st" "task_run process st es = Some st'"
  shows "async_run prepare_request request_payload process buffer s (sends_of es) (recvs_of es)
    = Some (Some (task_outcome st'))"
proof -
  let ?s = "prepare_request s"
  obtain payload where p: "request_payload ?s = Some payload" and st: "st = send_or_read payload 0 [] buffer ?s"
    using assms(1) by (auto simp: task_begin_def Let_def)
  have "reached_by process payload buffer ?s [] [] st"
    unfolding st by (rule reached_send_or_read) simp
  then have r: "reached_by process payload buffer ?s (sends_of es) (recvs_of es) st'"
    using assms(2) by (rule task_run_reached)
  show ?thesis
  proof (cases st')
    case (Sending payload' offset wire buffer' s')
    then have "offset < length payload" "send_request payload 0 (sends_of es @ []) [] = send_request payload offset [] wire"
      using r unfolding Sending reached_by.simps by blast+
    then have "send_request payload 0 (sends_of es) [] = (wire, None)"
      by (simp add: send_request_more)
    then show ?thesis using r Sending by (simp add: async_run_def p)
  qed (use r in \<open>auto simp: async_run_def p\<close>)
qed

text \<open>A datagram with which \<open>read_loop\<close> returns is one with which the machine ends.\<close>

lemma task_step_answer:
  assumes "read_loop process buffer s [Received data] = Some (Some (s', buffer', Some r))"
  shows "task_step process (Reading wire buffer s) (Receive_Completion (Received data)) = Some (Ended wire s' r)"
  using assms by (auto simp: Let_def split: option.splits prod.splits)

text \<open>An exchange of one request and one datagram, step by step.\<close>

lemma task_answered_steps:
  assumes "request_payload (prepare_request s) = Some payload" "payload \<noteq> []" "length payload \<le> n"
    and "async_run prepare_request request_payload process buffer s [Sent n] [Received data] = Some (Some (wire, t, Some r))"
  shows "task_begin prepare_request request_payload buffer s = Some (Sending payload 0 [] buffer (prepare_request s))"
    "task_step process (Sending payload 0 [] buffer (prepare_request s)) (Send_Completion (Sent n)) = Some (Reading payload buffer (prepare_request s))"
    "task_step process (Reading payload buffer (prepare_request s)) (Receive_Completion (Received data)) = Some (Ended payload t r)"
proof -
  have "send_request payload 0 [Sent n] [] = (payload, Some (Inr ()))"
    using assms(2,3) by (simp add: send_request.simps)
  then obtain b where "read_loop process buffer (prepare_request s) [Received data] = Some (Some (t, b, Some r))"
    using assms(1,4) by (auto simp: async_run_def Let_def split: option.splits prod.splits)
  then show "task_step process (Reading payload buffer (prepare_request s)) (Receive_Completion (Received data)) = Some (Ended payload t r)"
    by (rule task_step_answer)
qed (use assms in \<open>simp_all add: task_begin_def send_or_read_def Let_def\<close>)

end
