(* ===== verification/Control_Dumps.thy ===== *)
theory Control_Dumps
  imports Nl_Control Listener_States
begin

text \<open>
  Complete dumps: what each dump of a \<open>Control\<close> sends and returns when it is let through the gate, its
  socket opens, the request goes out whole and the kernel answers it up to the end of the dump,
  however the answer is cut into datagrams and whatever other messages lie in between.
\<close>

text \<open>
  What a dump keeps of what the kernel reports: entries with an index from 1 to 65535, for routes that
  of the output interface, and only routes of the main table.
\<close>

lemma kept_entries:
  "filter link_keep (map link_of_entry es) = filter (\<lambda>ev. 0 < link_index ev \<and> link_index ev \<le> 65535) (map link_of_entry es)"
  "filter address_keep (map (address_of_entry ntop) as)
    = filter (\<lambda>ev. 0 < address_index ev \<and> address_index ev \<le> 65535) (map (address_of_entry ntop) as)"
  "filter neighbor_keep (map (neighbor_of_entry ntop) ns)
    = filter (\<lambda>ev. 0 < neighbor_index ev \<and> neighbor_index ev \<le> 65535) (map (neighbor_of_entry ntop) ns)"
  "filter route_keep (map (route_of_entry ntop) rs)
    = filter (\<lambda>ev. route_table ev = RT_TABLE_MAIN \<and> 0 < route_oif_index ev \<and> route_oif_index ev \<le> 65535)
        (map (route_of_entry ntop) rs)"
  by (rule filter_cong [OF refl]; force simp: link_keep_def link_of_entry_def address_keep_def address_of_entry_def
      neighbor_keep_def neighbor_of_entry_def route_keep_def route_of_entry_def Let_def)+

lemma dump_links_alone:
  assumes "length buffer = MAX_RESPONSE_BYTES" "wf_answer MAX_RESPONSE_BYTES mss"
    and "filter (\<lambda>b. nlmsg_seq b 0 = Some number) (concat mss)
      = map (enc_link_entry number) es @ d # rest"
    and "list_all wf_link_entry es"
    and "nlmsg_type d 0 = Some NLMSG_DONE" "32 \<le> sum_list ns"
  shows "\<exists>t. async_run link_dump_prepare_request link_request_payload link_dump_process_message
      buffer (link_dump_init 0 number) (map Sent ns) (answers mss)
    = Some (Some (enc_msg RTM_GETLINK 0x301 number 0 (enc_ifinfomsg 0 0 0 0 0), t,
        Some (Inr (filter link_keep (map link_of_entry es)))))"
proof -
  have wf: "wf_answer (length buffer) mss" using assms(1,2) by simp
  have es: "wf_link_entry e" if "e \<in> set es" for e using assms(4) that by (simp add: list.pred_set)
  have p: "link_request_payload (link_dump_prepare_request (link_dump_init 0 number))
      = Some (enc_msg RTM_GETLINK 0x301 number 0 (enc_ifinfomsg 0 0 0 0 0))"
    by (simp add: link_dump_payload)
  have n: "length (enc_msg RTM_GETLINK 0x301 number 0 (enc_ifinfomsg 0 0 0 0 0)) \<le> sum_list ns"
    using assms(6) by simp
  show ?thesis using link_dump_answered [OF wf assms(3) es assms(5) p n] .
qed

lemma dump_links_run:
  assumes "enter_gate wait c = Some c1"
    and "snd (ensure_open os (socket_guard_init ''nl-control-link'')) = Return (Inr ())"
    and "length buffer = MAX_RESPONSE_BYTES" "wf_answer MAX_RESPONSE_BYTES mss"
    and "filter (\<lambda>b. nlmsg_seq b 0 = Some (c_sequence c)) (concat mss)
      = map (enc_link_entry (c_sequence c)) es @ d # rest"
    and "list_all wf_link_entry es"
    and "nlmsg_type d 0 = Some NLMSG_DONE" "32 \<le> sum_list ns"
  shows "async_dump_links_impl wait os buffer (map Sent ns) (answers mss) c
    = (c1\<lparr>c_sequence := c_sequence c + 1\<rparr>,
       Some (Some (Return (enc_msg RTM_GETLINK 0x301 (c_sequence c) 0 (enc_ifinfomsg 0 0 0 0 0),
         Some (Inr (filter link_keep (map link_of_entry es)))))))"
proof -
  obtain g where g: "ensure_open os (socket_guard_init ''nl-control-link'') = (g, Return (Inr ()))"
    using assms(2) by (cases "ensure_open os (socket_guard_init ''nl-control-link'')") simp
  obtain t where "async_run link_dump_prepare_request link_request_payload link_dump_process_message
      buffer (link_dump_init 0 (c_sequence c)) (map Sent ns) (answers mss)
    = Some (Some (enc_msg RTM_GETLINK 0x301 (c_sequence c) 0 (enc_ifinfomsg 0 0 0 0 0), t,
        Some (Inr (filter link_keep (map link_of_entry es)))))"
    using dump_links_alone [OF assms(3-8)] by blast
  then show ?thesis
    by (simp add: async_dump_links_impl_def past_gate_enter [OF assms(1)] enter_gate_simps [OF assms(1)] g fetch_add_def task_result_def)
qed

lemma dump_routes_alone:
  assumes "length buffer = MAX_RESPONSE_BYTES" "wf_answer MAX_RESPONSE_BYTES mss"
    and "filter (\<lambda>b. nlmsg_seq b 0 = Some number) (concat mss)
      = map (enc_route_entry number) es @ d # rest"
    and "list_all wf_route_entry es"
    and "nlmsg_type d 0 = Some NLMSG_DONE" "28 \<le> sum_list ns"
  shows "\<exists>t. async_run route_dump_prepare_request route_request_payload (route_dump_process_message ntop)
      buffer (route_dump_init 0 number) (map Sent ns) (answers mss)
    = Some (Some (enc_msg RTM_GETROUTE 0x301 number 0 (enc_rtmsg 0 0 0 0 254 0 0 0 0), t,
        Some (Inr (filter route_keep (map (route_of_entry ntop) es)))))"
proof -
  have wf: "wf_answer (length buffer) mss" using assms(1,2) by simp
  have es: "wf_route_entry e" if "e \<in> set es" for e using assms(4) that by (simp add: list.pred_set)
  have p: "route_request_payload (route_dump_prepare_request (route_dump_init 0 number))
      = Some (enc_msg RTM_GETROUTE 0x301 number 0 (enc_rtmsg 0 0 0 0 254 0 0 0 0))"
    by (simp add: route_dump_payload)
  have n: "length (enc_msg RTM_GETROUTE 0x301 number 0 (enc_rtmsg 0 0 0 0 254 0 0 0 0)) \<le> sum_list ns"
    using assms(6) by simp
  show ?thesis using route_dump_answered [OF wf assms(3) es assms(5) p n] .
qed

lemma dump_routes_run:
  assumes "enter_gate wait c = Some c1"
    and "snd (ensure_open os (socket_guard_init ''nl-control-route'')) = Return (Inr ())"
    and "length buffer = MAX_RESPONSE_BYTES" "wf_answer MAX_RESPONSE_BYTES mss"
    and "filter (\<lambda>b. nlmsg_seq b 0 = Some (c_sequence c)) (concat mss)
      = map (enc_route_entry (c_sequence c)) es @ d # rest"
    and "list_all wf_route_entry es"
    and "nlmsg_type d 0 = Some NLMSG_DONE" "28 \<le> sum_list ns"
  shows "async_dump_routes_impl ntop wait os buffer (map Sent ns) (answers mss) c
    = (c1\<lparr>c_sequence := c_sequence c + 1\<rparr>,
       Some (Some (Return (enc_msg RTM_GETROUTE 0x301 (c_sequence c) 0 (enc_rtmsg 0 0 0 0 254 0 0 0 0),
         Some (Inr (filter route_keep (map (route_of_entry ntop) es)))))))"
proof -
  obtain g where g: "ensure_open os (socket_guard_init ''nl-control-route'') = (g, Return (Inr ()))"
    using assms(2) by (cases "ensure_open os (socket_guard_init ''nl-control-route'')") simp
  obtain t where "async_run route_dump_prepare_request route_request_payload (route_dump_process_message ntop)
      buffer (route_dump_init 0 (c_sequence c)) (map Sent ns) (answers mss)
    = Some (Some (enc_msg RTM_GETROUTE 0x301 (c_sequence c) 0 (enc_rtmsg 0 0 0 0 254 0 0 0 0), t,
        Some (Inr (filter route_keep (map (route_of_entry ntop) es)))))"
    using dump_routes_alone [OF assms(3-8)] by blast
  then show ?thesis
    by (simp add: async_dump_routes_impl_def past_gate_enter [OF assms(1)] enter_gate_simps [OF assms(1)] g fetch_add_def task_result_def)
qed

lemma dump_addresses_alone:
  assumes "length buffer = MAX_RESPONSE_BYTES" "wf_answer MAX_RESPONSE_BYTES mss"
    and "filter (\<lambda>b. nlmsg_seq b 0 = Some number) (concat mss)
      = map (enc_address_entry number) es @ d # rest"
    and "list_all wf_address_entry es"
    and "nlmsg_type d 0 = Some NLMSG_DONE" "24 \<le> sum_list ns"
  shows "\<exists>t. async_run address_dump_prepare_request address_request_payload (address_dump_process_message ntop)
      buffer (address_dump_init 0 number) (map Sent ns) (answers mss)
    = Some (Some (enc_msg RTM_GETADDR 0x301 number 0 (enc_ifaddrmsg 0 0 0 0 0), t,
        Some (Inr (filter address_keep (map (address_of_entry ntop) es)))))"
proof -
  have wf: "wf_answer (length buffer) mss" using assms(1,2) by simp
  have es: "wf_address_entry e" if "e \<in> set es" for e using assms(4) that by (simp add: list.pred_set)
  have p: "address_request_payload (address_dump_prepare_request (address_dump_init 0 number))
      = Some (enc_msg RTM_GETADDR 0x301 number 0 (enc_ifaddrmsg 0 0 0 0 0))"
    by (simp add: address_dump_payload)
  have n: "length (enc_msg RTM_GETADDR 0x301 number 0 (enc_ifaddrmsg 0 0 0 0 0)) \<le> sum_list ns"
    using assms(6) by simp
  show ?thesis using address_dump_answered [OF wf assms(3) es assms(5) p n] .
qed

lemma dump_addresses_run:
  assumes "enter_gate wait c = Some c1"
    and "snd (ensure_open os (socket_guard_init ''nl-control-address'')) = Return (Inr ())"
    and "length buffer = MAX_RESPONSE_BYTES" "wf_answer MAX_RESPONSE_BYTES mss"
    and "filter (\<lambda>b. nlmsg_seq b 0 = Some (c_sequence c)) (concat mss)
      = map (enc_address_entry (c_sequence c)) es @ d # rest"
    and "list_all wf_address_entry es"
    and "nlmsg_type d 0 = Some NLMSG_DONE" "24 \<le> sum_list ns"
  shows "async_dump_addresses_impl ntop wait os buffer (map Sent ns) (answers mss) c
    = (c1\<lparr>c_sequence := c_sequence c + 1\<rparr>,
       Some (Some (Return (enc_msg RTM_GETADDR 0x301 (c_sequence c) 0 (enc_ifaddrmsg 0 0 0 0 0),
         Some (Inr (filter address_keep (map (address_of_entry ntop) es)))))))"
proof -
  obtain g where g: "ensure_open os (socket_guard_init ''nl-control-address'') = (g, Return (Inr ()))"
    using assms(2) by (cases "ensure_open os (socket_guard_init ''nl-control-address'')") simp
  obtain t where "async_run address_dump_prepare_request address_request_payload (address_dump_process_message ntop)
      buffer (address_dump_init 0 (c_sequence c)) (map Sent ns) (answers mss)
    = Some (Some (enc_msg RTM_GETADDR 0x301 (c_sequence c) 0 (enc_ifaddrmsg 0 0 0 0 0), t,
        Some (Inr (filter address_keep (map (address_of_entry ntop) es)))))"
    using dump_addresses_alone [OF assms(3-8)] by blast
  then show ?thesis
    by (simp add: async_dump_addresses_impl_def past_gate_enter [OF assms(1)] enter_gate_simps [OF assms(1)] g fetch_add_def task_result_def)
qed

lemma dump_neighbors_alone:
  assumes "length buffer = MAX_RESPONSE_BYTES" "wf_answer MAX_RESPONSE_BYTES mss"
    and "filter (\<lambda>b. nlmsg_seq b 0 = Some number) (concat mss)
      = map (enc_neighbor_entry number) es @ d # rest"
    and "list_all wf_neighbor_entry es"
    and "nlmsg_type d 0 = Some NLMSG_DONE" "28 \<le> sum_list ns"
  shows "\<exists>t. async_run neighbor_dump_prepare_request neighbor_request_payload (neighbor_dump_process_message ntop)
      buffer (neighbor_dump_init 0 number) (map Sent ns) (answers mss)
    = Some (Some (enc_msg RTM_GETNEIGH 0x301 number 0 (enc_ndmsg 0 0 0 0 0), t,
        Some (Inr (filter neighbor_keep (map (neighbor_of_entry ntop) es)))))"
proof -
  have wf: "wf_answer (length buffer) mss" using assms(1,2) by simp
  have es: "wf_neighbor_entry e" if "e \<in> set es" for e using assms(4) that by (simp add: list.pred_set)
  have p: "neighbor_request_payload (neighbor_dump_prepare_request (neighbor_dump_init 0 number))
      = Some (enc_msg RTM_GETNEIGH 0x301 number 0 (enc_ndmsg 0 0 0 0 0))"
    by (simp add: neighbor_dump_payload)
  have n: "length (enc_msg RTM_GETNEIGH 0x301 number 0 (enc_ndmsg 0 0 0 0 0)) \<le> sum_list ns"
    using assms(6) by simp
  show ?thesis using neighbor_dump_answered [OF wf assms(3) es assms(5) p n] .
qed

lemma dump_neighbors_run:
  assumes "enter_gate wait c = Some c1"
    and "snd (ensure_open os (socket_guard_init ''nl-control-neighbor'')) = Return (Inr ())"
    and "length buffer = MAX_RESPONSE_BYTES" "wf_answer MAX_RESPONSE_BYTES mss"
    and "filter (\<lambda>b. nlmsg_seq b 0 = Some (c_sequence c)) (concat mss)
      = map (enc_neighbor_entry (c_sequence c)) es @ d # rest"
    and "list_all wf_neighbor_entry es"
    and "nlmsg_type d 0 = Some NLMSG_DONE" "28 \<le> sum_list ns"
  shows "async_dump_neighbors_impl ntop wait os buffer (map Sent ns) (answers mss) c
    = (c1\<lparr>c_sequence := c_sequence c + 1\<rparr>,
       Some (Some (Return (enc_msg RTM_GETNEIGH 0x301 (c_sequence c) 0 (enc_ndmsg 0 0 0 0 0),
         Some (Inr (filter neighbor_keep (map (neighbor_of_entry ntop) es)))))))"
proof -
  obtain g where g: "ensure_open os (socket_guard_init ''nl-control-neighbor'') = (g, Return (Inr ()))"
    using assms(2) by (cases "ensure_open os (socket_guard_init ''nl-control-neighbor'')") simp
  obtain t where "async_run neighbor_dump_prepare_request neighbor_request_payload (neighbor_dump_process_message ntop)
      buffer (neighbor_dump_init 0 (c_sequence c)) (map Sent ns) (answers mss)
    = Some (Some (enc_msg RTM_GETNEIGH 0x301 (c_sequence c) 0 (enc_ndmsg 0 0 0 0 0), t,
        Some (Inr (filter neighbor_keep (map (neighbor_of_entry ntop) es)))))"
    using dump_neighbors_alone [OF assms(3-8)] by blast
  then show ?thesis
    by (simp add: async_dump_neighbors_impl_def past_gate_enter [OF assms(1)] enter_gate_simps [OF assms(1)] g fetch_add_def task_result_def)
qed

section \<open>Concrete runs\<close>

text \<open>Evaluation of the concrete messages of the witnesses.\<close>

lemmas concrete_defs = wf_answer_def wf_msg_enc nlmsghdr_enc_msg enc_attr_def enc_attrs_def pad4_def
  attr_len_def wf_attr_def MAX_RESPONSE_BYTES_def

lemmas text_defs = cstr_text_def chr_of_byte_def char_of_def bit_Suc_0_iff

lemma payload_u32_le32_single: "payload_u32 (le32 v) = v"
  using payload_u32_le32 [of v "[]"] by simp

definition at_once :: gate_pass where
  "at_once = \<lparr>gp_now = 0, gp_wait = None\<rparr>"

lemma enter_gate_init: "enter_gate at_once control_init = Some (control_init\<lparr>c_expiry := 1\<rparr>)"
  by (simp add: enter_gate_def at_once_def control_init_def next_expiry_def s64_plus_def gate_passed_None)

lemma ensure_open_working: "snd (ensure_open working (socket_guard_init label)) = Return (Inr ())"
  by (simp add: ensure_open_def socket_defs working_def socket_guard_init_def
      socket_guard_with_mask_def socket_init_def)

end
