(* ===== verification/Control_Machine.thy ===== *)
theory Control_Machine
  imports Task_Machine Control_Runs Control_Dumps "HOL-Library.Multiset"
begin

text \<open>
  All operations of one \<open>Control\<close> at the same time, and \<open>stop()\<close>. Each operation is a coroutine on the
  strand that is suspended at the gate, while it sends and while it reads; in between anything may
  happen to the others. The gate and the counter are shared. A dump has a socket of its own; the
  operations on neighbors share that of the \<open>Control\<close>, on which their sends and their reads queue.
\<close>

section \<open>Coroutines\<close>

text \<open>The label of the socket that a dump opens; the operations on neighbors have none of their own.\<close>

fun own_label :: "operation \<Rightarrow> string option" where
  "own_label Dump_Routes = Some ''nl-control-route''"
| "own_label Dump_Addresses = Some ''nl-control-address''"
| "own_label Dump_Neighbors = Some ''nl-control-neighbor''"
| "own_label Dump_Links = Some ''nl-control-link''"
| "own_label _ = None"

definition shared :: "operation \<Rightarrow> bool" where
  "shared op \<longleftrightarrow> own_label op = None"

datatype job =
    Route_Job "(route_dump_task, route_event list) task_state"
  | Address_Job "(address_dump_task, address_event list) task_state"
  | Neighbor_Job "(neighbor_dump_task, neighbor_event list) task_state"
  | Link_Job "(link_dump_task, link_event list) task_state"
  | Probe_Job "(neighbor_probe_task, unit) task_state"
  | Flush_Job "(neighbor_flush_task, unit) task_state"
  | Get_Job "(neighbor_get_task, neighbor_event) task_state"

fun job_begin :: "operation \<Rightarrow> mem \<Rightarrow> u32 \<Rightarrow> job ub" where
  "job_begin Dump_Routes buffer number = map_option Route_Job
     (task_begin route_dump_prepare_request route_request_payload buffer (route_dump_init 0 number))"
| "job_begin Dump_Addresses buffer number = map_option Address_Job
     (task_begin address_dump_prepare_request address_request_payload buffer (address_dump_init 0 number))"
| "job_begin Dump_Neighbors buffer number = map_option Neighbor_Job
     (task_begin neighbor_dump_prepare_request neighbor_request_payload buffer (neighbor_dump_init 0 number))"
| "job_begin Dump_Links buffer number = map_option Link_Job
     (task_begin link_dump_prepare_request link_request_payload buffer (link_dump_init 0 number))"
| "job_begin (Probe_Neighbor index address) buffer number = map_option Probe_Job
     (task_begin neighbor_probe_prepare_request neighbor_request_payload buffer (neighbor_probe_init index number address))"
| "job_begin (Flush_Neighbor index address) buffer number = map_option Flush_Job
     (task_begin neighbor_flush_prepare_request neighbor_request_payload buffer (neighbor_flush_init index number address))"
| "job_begin (Get_Neighbor index address) buffer number = map_option Get_Job
     (task_begin neighbor_get_prepare_request neighbor_request_payload buffer (neighbor_get_init index number address))"

fun job_resume :: "inet_ntop \<Rightarrow> job \<Rightarrow> completion \<Rightarrow> job option" where
  "job_resume ntop (Route_Job st) e = map_option Route_Job (task_step (route_dump_process_message ntop) st e)"
| "job_resume ntop (Address_Job st) e = map_option Address_Job (task_step (address_dump_process_message ntop) st e)"
| "job_resume ntop (Neighbor_Job st) e = map_option Neighbor_Job (task_step (neighbor_dump_process_message ntop) st e)"
| "job_resume ntop (Link_Job st) e = map_option Link_Job (task_step link_dump_process_message st e)"
| "job_resume ntop (Probe_Job st) e = map_option Probe_Job (task_step neighbor_probe_process_message st e)"
| "job_resume ntop (Flush_Job st) e = map_option Flush_Job (task_step neighbor_flush_process_message st e)"
| "job_resume ntop (Get_Job st) e = map_option Get_Job (task_step (neighbor_get_process_message ntop) st e)"

text \<open>What a suspended task waits for, and what completes it.\<close>

datatype direction = Out | In

fun task_wants :: "('s, 'r) task_state \<Rightarrow> direction option" where
  "task_wants (Sending payload offset wire buffer s) = Some Out"
| "task_wants (Reading wire buffer s) = Some In"
| "task_wants (Ended wire s r) = None"

fun job_wants :: "job \<Rightarrow> direction option" where
  "job_wants (Route_Job st) = task_wants st"
| "job_wants (Address_Job st) = task_wants st"
| "job_wants (Neighbor_Job st) = task_wants st"
| "job_wants (Link_Job st) = task_wants st"
| "job_wants (Probe_Job st) = task_wants st"
| "job_wants (Flush_Job st) = task_wants st"
| "job_wants (Get_Job st) = task_wants st"

fun direction_of :: "completion \<Rightarrow> direction" where
  "direction_of (Send_Completion a) = Out"
| "direction_of (Receive_Completion a) = In"

fun failed :: "error_code \<Rightarrow> direction \<Rightarrow> completion" where
  "failed ec Out = Send_Completion (Send_Error (error_value ec))"
| "failed ec In = Receive_Completion (Recv_Error (error_value ec))"

text \<open>A suspended task can be resumed by a completion of its kind only.\<close>

lemma task_step_direction: "task_step process st e = Some st' \<Longrightarrow> task_wants st = Some (direction_of e)"
  by (cases "(process, st, e)" rule: task_step.cases) auto

lemma job_resume_direction: "job_resume ntop job e = Some job' \<Longrightarrow> job_wants job = Some (direction_of e)"
  by (cases job) (auto dest: task_step_direction)

datatype coroutine =
    At_Gate operation
  | Refused operation "unit expected outcome"
  | Running operation job

fun operation_of :: "coroutine \<Rightarrow> operation" where
  "operation_of (At_Gate op) = op"
| "operation_of (Refused op r) = op"
| "operation_of (Running op job) = op"

section \<open>The machine\<close>

text \<open>
  Of the shared socket the machine keeps the operations that wait on it, in order, and the completed
  ones whose handlers are still to run.
\<close>

record machine =
  m_control :: control
  m_coroutines :: "coroutine list"
  m_waiting :: "(nat \<times> direction) list"
  m_ready :: "(nat \<times> completion) list"

definition machine_init :: "control \<Rightarrow> machine" where
  "machine_init c = \<lparr>m_control = c, m_coroutines = [], m_waiting = [], m_ready = []\<rparr>"

definition control_open :: "machine \<Rightarrow> bool" where
  "control_open m \<longleftrightarrow> is_open (guard_socket (c_guard (m_control m)))"

text \<open>A transfer on a closed socket completes at once.\<close>

definition issue :: "operation \<Rightarrow> nat \<Rightarrow> job \<Rightarrow> machine \<Rightarrow> machine" where
  "issue op i job m = (case job_wants job of
     None \<Rightarrow> m
   | Some d \<Rightarrow>
       if \<not> shared op then m
       else if control_open m then m\<lparr>m_waiting := m_waiting m @ [(i, d)]\<rparr>
       else m\<lparr>m_ready := m_ready m @ [(i, failed bad_descriptor d)]\<rparr>)"

definition put_coroutine :: "nat \<Rightarrow> coroutine \<Rightarrow> machine \<Rightarrow> machine" where
  "put_coroutine i co m = m\<lparr>m_coroutines := (m_coroutines m)[i := co]\<rparr>"

text \<open>After \<open>ensure_open\<close>: the coroutine returns the error, or draws its number and starts its task.\<close>

definition opened :: "(nat \<Rightarrow> mem) \<Rightarrow> nat \<Rightarrow> operation \<Rightarrow> unit expected outcome \<Rightarrow> machine \<Rightarrow> machine option" where
  "opened buffers i op result m = (case result of
     Return (Inr _) \<Rightarrow>
       (case fetch_add (m_control m) of (c, number) \<Rightarrow>
         map_option (\<lambda>job. issue op i job (put_coroutine i (Running op job) (m\<lparr>m_control := c\<rparr>)))
           (job_begin op (buffers i) number))
   | _ \<Rightarrow> Some (put_coroutine i (Refused op result) m))"

definition resumed :: "inet_ntop \<Rightarrow> nat \<Rightarrow> operation \<Rightarrow> job \<Rightarrow> completion \<Rightarrow> machine \<Rightarrow> machine option" where
  "resumed ntop i op job e m =
     map_option (\<lambda>job. issue op i job (put_coroutine i (Running op job) m)) (job_resume ntop job e)"

datatype control_event =
    Arrive operation int
  | Pass nat "error_code option" os
  | Complete nat completion
  | Finish nat completion
  | Resume nat completion
  | Stop_Control os

text \<open>
  An operation arrives at the gate and sets the timer; its wait completes, and it opens its socket.
  A dump is resumed by its own socket. The shared socket completes the first send or the first read
  that waits on it, and the executor runs the handlers of what has completed. Stopping closes the
  shared socket, which completes everything that waits on it.
\<close>

fun machine_step :: "inet_ntop \<Rightarrow> (nat \<Rightarrow> mem) \<Rightarrow> control_event \<Rightarrow> machine \<Rightarrow> machine option" where
  "machine_step ntop buffers (Arrive op now) m =
     (case next_expiry now (c_expiry (m_control m)) of
        None \<Rightarrow> None
      | Some e \<Rightarrow> Some (m\<lparr>m_control := (m_control m)\<lparr>c_expiry := e\<rparr>, m_coroutines := m_coroutines m @ [At_Gate op]\<rparr>))"
| "machine_step ntop buffers (Pass i ec os) m =
     (if i \<ge> length (m_coroutines m) then None
      else case m_coroutines m ! i of
        At_Gate op \<Rightarrow>
          (case gate_passed ec of
             Throw text e \<Rightarrow> Some (put_coroutine i (Refused op (Throw text e)) m)
           | Return _ \<Rightarrow>
          (case own_label op of
             Some label \<Rightarrow> opened buffers i op (snd (ensure_open os (socket_guard_init label))) m
           | None \<Rightarrow>
               (case ensure_open os (c_guard (m_control m)) of
                  (guard, result) \<Rightarrow> opened buffers i op result (m\<lparr>m_control := (m_control m)\<lparr>c_guard := guard\<rparr>\<rparr>))))
      | _ \<Rightarrow> None)"
| "machine_step ntop buffers (Complete i e) m =
     (if i \<ge> length (m_coroutines m) then None
      else case m_coroutines m ! i of
        Running op job \<Rightarrow> if shared op then None else resumed ntop i op job e m
      | _ \<Rightarrow> None)"
| "machine_step ntop buffers (Finish i e) m =
     (if find (\<lambda>(j, d). d = direction_of e) (m_waiting m) = Some (i, direction_of e)
      then Some (m\<lparr>m_waiting := remove1 (i, direction_of e) (m_waiting m), m_ready := m_ready m @ [(i, e)]\<rparr>)
      else None)"
| "machine_step ntop buffers (Resume i e) m =
     (if i \<ge> length (m_coroutines m) \<or> (i, e) \<notin> set (m_ready m) then None
      else case m_coroutines m ! i of
        Running op job \<Rightarrow> if shared op then resumed ntop i op job e (m\<lparr>m_ready := remove1 (i, e) (m_ready m)\<rparr>) else None
      | _ \<Rightarrow> None)"
| "machine_step ntop buffers (Stop_Control os) m =
     Some (m\<lparr>m_control := control_stop os (m_control m), m_waiting := [],
       m_ready := m_ready m @ map (\<lambda>(i, d). (i, failed operation_aborted d)) (m_waiting m)\<rparr>)"

fun machine_run :: "inet_ntop \<Rightarrow> (nat \<Rightarrow> mem) \<Rightarrow> control_event list \<Rightarrow> machine \<Rightarrow> machine option" where
  "machine_run ntop buffers [] m = Some m"
| "machine_run ntop buffers (e # es) m =
     (case machine_step ntop buffers e m of None \<Rightarrow> None | Some m' \<Rightarrow> machine_run ntop buffers es m')"

lemma machine_run_append:
  "machine_run ntop buffers (es @ es') m
    = (case machine_run ntop buffers es m of None \<Rightarrow> None | Some m' \<Rightarrow> machine_run ntop buffers es' m')"
  by (induction es arbitrary: m) (auto split: option.split)

end
