(* ===== verification/Concurrent_Operations.thy ===== *)
theory Concurrent_Operations
  imports Control_Machine
begin

text \<open>
  One operation among the others: what the machine makes of it depends on its own completions only.
\<close>

section \<open>What the coroutines see\<close>

text \<open>The machine without its sockets: the next sequence number and the coroutines.\<close>

inductive view_step :: "inet_ntop \<Rightarrow> (nat \<Rightarrow> mem) \<Rightarrow> u32 \<times> coroutine list \<Rightarrow> control_event \<Rightarrow> u32 \<times> coroutine list \<Rightarrow> bool"
  for ntop buffers where
  arrive: "view_step ntop buffers (seq, cs) (Arrive op now) (seq, cs @ [At_Gate op])"
| refuse: "i < length cs \<Longrightarrow> cs ! i = At_Gate op \<Longrightarrow>
    view_step ntop buffers (seq, cs) (Pass i ec os) (seq, cs[i := Refused op r])"
| start: "i < length cs \<Longrightarrow> cs ! i = At_Gate op \<Longrightarrow> job_begin op (buffers i) seq = Some job \<Longrightarrow>
    view_step ntop buffers (seq, cs) (Pass i ec os) (seq + 1, cs[i := Running op job])"
| resume: "i < length cs \<Longrightarrow> cs ! i = Running op job \<Longrightarrow> job_resume ntop job c = Some job' \<Longrightarrow>
    e = Complete i c \<or> e = Resume i c \<Longrightarrow> view_step ntop buffers (seq, cs) e (seq, cs[i := Running op job'])"
| finish: "view_step ntop buffers (seq, cs) (Finish i c) (seq, cs)"
| stop: "view_step ntop buffers (seq, cs) (Stop_Control os) (seq, cs)"

definition view :: "machine \<Rightarrow> u32 \<times> coroutine list" where
  "view m = (c_sequence (m_control m), m_coroutines m)"

lemma view_issue [simp]: "view (issue op i job m) = view m"
  by (simp add: issue_def view_def split: option.split)

lemma view_put [simp]: "view (put_coroutine i co m) = (c_sequence (m_control m), (m_coroutines m)[i := co])"
  by (simp add: put_coroutine_def view_def)

lemma view_opened:
  assumes "opened buffers i op result m = Some m'" "i < length (m_coroutines m)" "m_coroutines m ! i = At_Gate op"
  shows "view_step ntop buffers (view m) (Pass i ec os) (view m')"
  using assms
  by (auto simp: opened_def fetch_add_def view_def [of m] intro: refuse start
      split: outcome.splits sum.splits)

lemma view_resumed:
  assumes "resumed ntop i op job c m = Some m'" "i < length (m_coroutines m)" "m_coroutines m ! i = Running op job"
    "e = Complete i c \<or> e = Resume i c"
  shows "view_step ntop buffers (view m) e (view m')"
  using assms by (auto simp: resumed_def view_def [of m] intro: resume)

text \<open>The machine refines it.\<close>

lemma machine_step_view:
  assumes "machine_step ntop buffers e m = Some m'"
  shows "view_step ntop buffers (view m) e (view m')"
  using assms
proof (cases e)
  case (Arrive op now)
  then show ?thesis using assms by (auto simp: view_def intro: arrive split: option.splits)
next
  case (Pass i ec os)
  then obtain op where i: "i < length (m_coroutines m)" "m_coroutines m ! i = At_Gate op"
    using assms by (auto split: if_splits coroutine.splits)
  show ?thesis
  proof (cases "gate_passed ec")
    case (Throw what x)
    then show ?thesis using assms Pass i by (auto simp: view_def [of m] intro: refuse)
  next
    case (Return u)
    then consider label where "opened buffers i op (snd (ensure_open os (socket_guard_init label))) m = Some m'"
      | guard result where "opened buffers i op result (m\<lparr>m_control := (m_control m)\<lparr>c_guard := guard\<rparr>\<rparr>) = Some m'"
      using assms Pass i by (auto split: option.splits prod.splits)
    then show ?thesis
    proof cases
      case (1 label)
      then show ?thesis using view_opened i Pass by blast
    next
      case (2 guard result)
      from view_opened [OF this] i show ?thesis
        by (simp add: Pass view_def [of m] view_def [of "m\<lparr>m_control := c\<rparr>" for c])
    qed
  qed
next
  case (Complete i c)
  then show ?thesis using assms by (auto intro: view_resumed split: if_splits coroutine.splits)
next
  case (Finish i c)
  then show ?thesis using assms by (auto simp: view_def intro: finish split: if_splits)
next
  case (Resume i c)
  then obtain op job where "i < length (m_coroutines m)" "m_coroutines m ! i = Running op job"
    "resumed ntop i op job c (m\<lparr>m_ready := remove1 (i, c) (m_ready m)\<rparr>) = Some m'"
    using assms by (auto split: if_splits coroutine.splits)
  then show ?thesis
    using view_resumed [of ntop i op job c "m\<lparr>m_ready := remove1 (i, c) (m_ready m)\<rparr>" m' e buffers] Resume
    by (simp add: view_def)
next
  case (Stop_Control os)
  then show ?thesis using assms by (auto simp: view_def control_stop_def intro: stop)
qed

text \<open>A coroutine keeps the operation it has arrived with.\<close>

lemma operations_update:
  "i < length cs \<Longrightarrow> operation_of co = operation_of (cs ! i) \<Longrightarrow> map operation_of (cs[i := co]) = map operation_of cs"
  by (metis list_update_id map_update)

lemma view_operations:
  "view_step ntop buffers v e v' \<Longrightarrow> map operation_of (snd v')
    = map operation_of (snd v) @ (case e of Arrive op now \<Rightarrow> [op] | _ \<Rightarrow> [])"
  by (cases rule: view_step.cases) (auto simp: operations_update)

section \<open>One coroutine among the others\<close>

datatype job_result =
    Route_Result "u8 list" "route_event list expected option"
  | Address_Result "u8 list" "address_event list expected option"
  | Neighbor_Result "u8 list" "neighbor_event list expected option"
  | Link_Result "u8 list" "link_event list expected option"
  | Probe_Result "u8 list" "unit expected option"
  | Flush_Result "u8 list" "unit expected option"
  | Get_Result "u8 list" "neighbor_event expected option"

text \<open>What a task has sent, and its result, if it has one yet.\<close>

definition sent_and_result :: "(u8 list \<Rightarrow> 'r expected option \<Rightarrow> job_result) \<Rightarrow> u8 list \<times> 's \<times> 'r expected option \<Rightarrow> job_result" where
  "sent_and_result con x = con (fst x) (snd (snd x))"

fun job_outcome :: "job \<Rightarrow> job_result" where
  "job_outcome (Route_Job st) = sent_and_result Route_Result (task_outcome st)"
| "job_outcome (Address_Job st) = sent_and_result Address_Result (task_outcome st)"
| "job_outcome (Neighbor_Job st) = sent_and_result Neighbor_Result (task_outcome st)"
| "job_outcome (Link_Job st) = sent_and_result Link_Result (task_outcome st)"
| "job_outcome (Probe_Job st) = sent_and_result Probe_Result (task_outcome st)"
| "job_outcome (Flush_Job st) = sent_and_result Flush_Result (task_outcome st)"
| "job_outcome (Get_Job st) = sent_and_result Get_Result (task_outcome st)"

text \<open>The reference: the task of the operation with nothing beside it, run in one go.\<close>

definition run_alone :: "(u8 list \<Rightarrow> 'r expected option \<Rightarrow> job_result) \<Rightarrow> (u8 list \<times> 's \<times> 'r expected option) ub option \<Rightarrow> job_result option" where
  "run_alone con r = (case r of Some (Some x) \<Rightarrow> Some (sent_and_result con x) | _ \<Rightarrow> None)"

fun task_alone :: "inet_ntop \<Rightarrow> operation \<Rightarrow> u32 \<Rightarrow> mem \<Rightarrow> send_outcome list \<Rightarrow> recv_outcome list \<Rightarrow> job_result option" where
  "task_alone ntop Dump_Routes number buffer sends recvs = run_alone Route_Result
     (async_run route_dump_prepare_request route_request_payload (route_dump_process_message ntop)
        buffer (route_dump_init 0 number) sends recvs)"
| "task_alone ntop Dump_Addresses number buffer sends recvs = run_alone Address_Result
     (async_run address_dump_prepare_request address_request_payload (address_dump_process_message ntop)
        buffer (address_dump_init 0 number) sends recvs)"
| "task_alone ntop Dump_Neighbors number buffer sends recvs = run_alone Neighbor_Result
     (async_run neighbor_dump_prepare_request neighbor_request_payload (neighbor_dump_process_message ntop)
        buffer (neighbor_dump_init 0 number) sends recvs)"
| "task_alone ntop Dump_Links number buffer sends recvs = run_alone Link_Result
     (async_run link_dump_prepare_request link_request_payload link_dump_process_message
        buffer (link_dump_init 0 number) sends recvs)"
| "task_alone ntop (Probe_Neighbor index address) number buffer sends recvs = run_alone Probe_Result
     (async_run neighbor_probe_prepare_request neighbor_request_payload neighbor_probe_process_message
        buffer (neighbor_probe_init index number address) sends recvs)"
| "task_alone ntop (Flush_Neighbor index address) number buffer sends recvs = run_alone Flush_Result
     (async_run neighbor_flush_prepare_request neighbor_request_payload neighbor_flush_process_message
        buffer (neighbor_flush_init index number address) sends recvs)"
| "task_alone ntop (Get_Neighbor index address) number buffer sends recvs = run_alone Get_Result
     (async_run neighbor_get_prepare_request neighbor_request_payload (neighbor_get_process_message ntop)
        buffer (neighbor_get_init index number address) sends recvs)"

fun job_resumes :: "inet_ntop \<Rightarrow> job \<Rightarrow> completion list \<Rightarrow> job option" where
  "job_resumes ntop job [] = Some job"
| "job_resumes ntop job (e # es) =
     (case job_resume ntop job e of None \<Rightarrow> None | Some job' \<Rightarrow> job_resumes ntop job' es)"

lemma job_resumes_snoc:
  "job_resumes ntop job (es @ [e]) = (case job_resumes ntop job es of None \<Rightarrow> None | Some job' \<Rightarrow> job_resume ntop job' e)"
  by (induction es arbitrary: job) (auto split: option.split)

lemma job_resumes_task:
  "job_resumes ntop (Route_Job r) es = map_option Route_Job (task_run (route_dump_process_message ntop) r es)"
  "job_resumes ntop (Address_Job a) es = map_option Address_Job (task_run (address_dump_process_message ntop) a es)"
  "job_resumes ntop (Neighbor_Job n) es = map_option Neighbor_Job (task_run (neighbor_dump_process_message ntop) n es)"
  "job_resumes ntop (Link_Job l) es = map_option Link_Job (task_run link_dump_process_message l es)"
  "job_resumes ntop (Probe_Job p) es = map_option Probe_Job (task_run neighbor_probe_process_message p es)"
  "job_resumes ntop (Flush_Job f) es = map_option Flush_Job (task_run neighbor_flush_process_message f es)"
  "job_resumes ntop (Get_Job g) es = map_option Get_Job (task_run (neighbor_get_process_message ntop) g es)"
  by (induction es arbitrary: r a n l p f g) (simp_all split: option.split)

text \<open>From the refinement of the task: resumed bit by bit, it does what it does alone.\<close>

lemma run_alone_task:
  "task_begin prepare_request request_payload buffer s = Some st \<Longrightarrow> task_run process st es = Some st' \<Longrightarrow>
    run_alone con (async_run prepare_request request_payload process buffer s (sends_of es) (recvs_of es))
      = Some (sent_and_result con (task_outcome st'))"
  by (simp add: run_alone_def task_run_async_run)

lemma job_begin_alone:
  assumes "job_begin op buffer number = Some job" "job_resumes ntop job es = Some job'"
  shows "task_alone ntop op number buffer (sends_of es) (recvs_of es) = Some (job_outcome job')"
  using assms by (cases op) (auto simp: job_resumes_task run_alone_task)

text \<open>
  The sequential functions of Nl_Control do the same, once the gate and the system let them: what
  an operation has sent and returned on a \<open>Control\<close> with nothing beside it.
\<close>

definition returned_result :: "(u8 list \<Rightarrow> 'r expected option \<Rightarrow> job_result) \<Rightarrow> control \<times> 'r run_result \<Rightarrow> job_result option" where
  "returned_result con r = (case snd r of Some (Some (Return (wire, x))) \<Rightarrow> Some (con wire x) | _ \<Rightarrow> None)"

fun operation_alone ::
  "inet_ntop \<Rightarrow> operation \<Rightarrow> gate_pass \<Rightarrow> os \<Rightarrow> mem \<Rightarrow> send_outcome list \<Rightarrow> recv_outcome list \<Rightarrow> control \<Rightarrow> job_result option" where
  "operation_alone ntop Dump_Routes wait os buffer sends recvs c =
     returned_result Route_Result (async_dump_routes_impl ntop wait os buffer sends recvs c)"
| "operation_alone ntop Dump_Addresses wait os buffer sends recvs c =
     returned_result Address_Result (async_dump_addresses_impl ntop wait os buffer sends recvs c)"
| "operation_alone ntop Dump_Neighbors wait os buffer sends recvs c =
     returned_result Neighbor_Result (async_dump_neighbors_impl ntop wait os buffer sends recvs c)"
| "operation_alone ntop Dump_Links wait os buffer sends recvs c =
     returned_result Link_Result (async_dump_links_impl wait os buffer sends recvs c)"
| "operation_alone ntop (Probe_Neighbor index address) wait os buffer sends recvs c =
     returned_result Probe_Result (async_probe_neighbor_impl index address wait os buffer sends recvs c)"
| "operation_alone ntop (Flush_Neighbor index address) wait os buffer sends recvs c =
     returned_result Flush_Result (async_flush_neighbor_impl index address wait os buffer sends recvs c)"
| "operation_alone ntop (Get_Neighbor index address) wait os buffer sends recvs c =
     returned_result Get_Result (async_get_neighbor_impl ntop index address wait os buffer sends recvs c)"

lemma returned_task: "returned_result con (c, task_result r) = run_alone con r"
  by (auto simp: returned_result_def task_result_def run_alone_def sent_and_result_def split: option.split)

lemma operation_alone_task:
  assumes "enter_gate wait c = Some c1"
    and "snd (ensure_open os (case own_label op of Some label \<Rightarrow> socket_guard_init label | None \<Rightarrow> c_guard c)) = Return (Inr ())"
  shows "operation_alone ntop op wait os buffer sends recvs c = task_alone ntop op (c_sequence c) buffer sends recvs"
proof -
  note gate = past_gate_enter [OF assms(1)] enter_gate_simps [OF assms(1)]
  obtain g where g: "ensure_open os (case own_label op of Some label \<Rightarrow> socket_guard_init label | None \<Rightarrow> c_guard c) = (g, Return (Inr ()))"
    using assms(2) by (cases "ensure_open os (case own_label op of Some label \<Rightarrow> socket_guard_init label | None \<Rightarrow> c_guard c)") simp
  show ?thesis
    using g
    by (cases op) (simp_all add: gate fetch_add_def returned_task async_dump_routes_impl_def async_dump_addresses_impl_def
        async_dump_neighbors_impl_def async_dump_links_impl_def async_probe_neighbor_impl_def
        async_flush_neighbor_impl_def async_get_neighbor_impl_def)
qed

text \<open>A \<open>Control\<close> of its own, that has come to this number, with a system in which everything works.\<close>

definition on_its_own :: "inet_ntop \<Rightarrow> operation \<Rightarrow> u32 \<Rightarrow> mem \<Rightarrow> send_outcome list \<Rightarrow> recv_outcome list \<Rightarrow> job_result option" where
  "on_its_own ntop op number buffer sends recvs =
     operation_alone ntop op at_once working buffer sends recvs (control_init\<lparr>c_sequence := number\<rparr>)"

lemma on_its_own_task: "on_its_own ntop op number buffer sends recvs = task_alone ntop op number buffer sends recvs"
proof -
  have "enter_gate at_once (control_init\<lparr>c_sequence := number\<rparr>) = Some (control_init\<lparr>c_sequence := number, c_expiry := 1\<rparr>)"
    by (simp add: enter_gate_def at_once_def control_init_def next_expiry_def s64_plus_def gate_passed_None)
  moreover have "snd (ensure_open working (case own_label op of Some label \<Rightarrow> socket_guard_init label
      | None \<Rightarrow> c_guard (control_init\<lparr>c_sequence := number\<rparr>))) = Return (Inr ())"
    by (simp add: control_init_def ensure_open_working split: option.split)
  ultimately show ?thesis
    unfolding on_its_own_def by (subst operation_alone_task) simp_all
qed

text \<open>The completions of one coroutine among all events.\<close>

fun completion_of :: "nat \<Rightarrow> control_event \<Rightarrow> completion list" where
  "completion_of i (Complete j c) = (if j = i then [c] else [])"
| "completion_of i (Resume j c) = (if j = i then [c] else [])"
| "completion_of i _ = []"

definition completions_of :: "nat \<Rightarrow> control_event list \<Rightarrow> completion list" where
  "completions_of i es = concat (map (completion_of i) es)"

lemma completions_of_snoc [simp]:
  "completions_of i [] = []" "completions_of i (es @ [e]) = completions_of i es @ completion_of i e"
  by (simp_all add: completions_of_def)

section \<open>The invariant\<close>

text \<open>
  What a run has made of a coroutine: if it runs, it has one of the first \<open>k\<close> numbers, and is where
  its own completions bring it from there.
\<close>

fun alone_at :: "inet_ntop \<Rightarrow> (nat \<Rightarrow> mem) \<Rightarrow> u32 \<Rightarrow> control_event list \<Rightarrow> (nat \<Rightarrow> nat) \<Rightarrow> nat \<Rightarrow> nat \<Rightarrow> coroutine \<Rightarrow> bool" where
  "alone_at ntop buffers first es number k i (Running op job) \<longleftrightarrow> number i < k
     \<and> (\<exists>job0. job_begin op (buffers i) (first + of_nat (number i)) = Some job0
        \<and> job_resumes ntop job0 (completions_of i es) = Some job)"
| "alone_at ntop buffers first es number k i _ \<longleftrightarrow> completions_of i es = []"

fun running :: "coroutine \<Rightarrow> bool" where
  "running (Running op job) \<longleftrightarrow> True"
| "running _ \<longleftrightarrow> False"

definition begun :: "coroutine list \<Rightarrow> nat set" where
  "begun cs = {i. i < length cs \<and> running (cs ! i)}"

definition apart :: "inet_ntop \<Rightarrow> (nat \<Rightarrow> mem) \<Rightarrow> u32 \<Rightarrow> control_event list \<Rightarrow> (nat \<Rightarrow> nat) \<Rightarrow> nat \<Rightarrow> u32 \<times> coroutine list \<Rightarrow> bool" where
  "apart ntop buffers first es number k v \<longleftrightarrow> (case v of (seq, cs) \<Rightarrow>
     seq = first + of_nat k \<and> k \<le> length es \<and> inj_on number (begun cs)
     \<and> (\<forall>i < length cs. alone_at ntop buffers first es number k i (cs ! i))
     \<and> (\<forall>i \<ge> length cs. completions_of i es = []))"

lemma alone_at_other:
  assumes "alone_at ntop buffers first es number k j co" "completion_of j e = []" "number' j = number j" "k \<le> k'"
  shows "alone_at ntop buffers first (es @ [e]) number' k' j co"
  using assms by (cases co) auto

lemma apart_update:
  assumes "apart ntop buffers first es number k (seq, cs)" "i < length cs"
    and "alone_at ntop buffers first (es @ [e]) number' k' i co"
    and "\<And>j. j \<noteq> i \<Longrightarrow> completion_of j e = []"
    and "\<And>j. j \<noteq> i \<Longrightarrow> number' j = number j" "k \<le> k'" "k' \<le> Suc k" "seq' = first + of_nat k'"
    and "inj_on number' (if running co then insert i (begun cs) else begun cs - {i})"
  shows "apart ntop buffers first (es @ [e]) number' k' (seq', cs[i := co])"
proof -
  have "begun (cs[i := co]) = (if running co then insert i (begun cs) else begun cs - {i})"
    using assms(2) by (auto simp: begun_def nth_list_update split: if_splits)
  moreover have "alone_at ntop buffers first (es @ [e]) number' k' j (cs[i := co] ! j)" if "j < length cs" for j
  proof (cases "j = i")
    case True
    then show ?thesis using assms(2,3) by simp
  next
    case False
    then show ?thesis
      using assms(1) that assms(4,5) [OF False] assms(6) by (auto simp: apart_def intro!: alone_at_other)
  qed
  moreover have "completions_of j (es @ [e]) = []" if "length cs \<le> j" for j
    using assms(1,2) assms(4) [of j] that by (auto simp: apart_def)
  ultimately show ?thesis
    using assms(1,7,8,9) by (simp add: apart_def)
qed

lemma apart_same:
  assumes "apart ntop buffers first es number k (seq, cs)" "\<And>j. completion_of j e = []"
  shows "apart ntop buffers first (es @ [e]) number k (seq, cs)"
  using assms by (auto simp: apart_def intro: alone_at_other)

lemma apart_arrive:
  assumes "apart ntop buffers first es number k (seq, cs)"
  shows "apart ntop buffers first (es @ [Arrive op now]) number k (seq, cs @ [At_Gate op])"
proof -
  have "begun (cs @ [At_Gate op]) = begun cs"
    by (auto simp: begun_def nth_append less_Suc_eq)
  then show ?thesis
    using assms by (auto simp: apart_def nth_append less_Suc_eq intro: alone_at_other)
qed

lemma apart_step:
  assumes "apart ntop buffers first es number k v" "view_step ntop buffers v e v'"
  shows "\<exists>number' k'. apart ntop buffers first (es @ [e]) number' k' v'"
  using assms(2,1)
proof cases
  case (arrive seq cs op now)
  then show ?thesis using assms(1) apart_arrive by blast
next
  case (refuse i cs op seq ec os r)
  have a: "apart ntop buffers first es number k (seq, cs)" using assms(1) refuse by simp
  then have "alone_at ntop buffers first es number k i (At_Gate op)" using refuse by (auto simp: apart_def)
  then have "apart ntop buffers first (es @ [e]) number k (seq, cs[i := Refused op r])"
    using a refuse by (intro apart_update [OF a]) (auto simp: apart_def intro: inj_on_subset)
  then show ?thesis using refuse by blast
next
  case (start i cs op seq job ec os)
  have a: "apart ntop buffers first es number k (seq, cs)" using assms(1) start by simp
  then have "alone_at ntop buffers first es number k i (At_Gate op)" using start by (auto simp: apart_def)
  then have i: "alone_at ntop buffers first (es @ [e]) (number(i := k)) (Suc k) i (Running op job)"
    using a start by (simp add: apart_def)
  have fresh: "i \<notin> begun cs" using start by (simp add: begun_def)
  have "number j < k" if "j \<in> begun cs" for j
    using a that by (cases "cs ! j") (auto simp: apart_def begun_def)
  with fresh a have "inj_on (number(i := k)) (insert i (begun cs))"
    by (auto simp: apart_def inj_on_def)
  then have "apart ntop buffers first (es @ [e]) (number(i := k)) (Suc k) (seq + 1, cs[i := Running op job])"
    using a start by (intro apart_update [OF a _ i]) (auto simp: apart_def)
  then show ?thesis using start by blast
next
  case (resume i cs op job c job' seq)
  have a: "apart ntop buffers first es number k (seq, cs)" using assms(1) resume by simp
  then have "alone_at ntop buffers first es number k i (Running op job)" using resume by (auto simp: apart_def)
  then have i: "alone_at ntop buffers first (es @ [e]) number k i (Running op job')"
    using resume by (auto simp: job_resumes_snoc)
  have "i \<in> begun cs" using resume by (simp add: begun_def)
  then have "apart ntop buffers first (es @ [e]) number k (seq, cs[i := Running op job'])"
    using a resume by (intro apart_update [OF a _ i]) (auto simp: apart_def insert_absorb)
  then show ?thesis using resume by blast
next
  case (finish seq cs i c)
  then have "apart ntop buffers first (es @ [e]) number k v" using assms(1) by (auto intro: apart_same)
  then show ?thesis using finish by blast
next
  case (stop seq cs os)
  then have "apart ntop buffers first (es @ [e]) number k v" using assms(1) by (auto intro: apart_same)
  then show ?thesis using stop by blast
qed

lemma machine_run_snoc:
  "machine_run ntop buffers (es @ [e]) m
    = (case machine_run ntop buffers es m of None \<Rightarrow> None | Some m' \<Rightarrow> machine_step ntop buffers e m')"
  by (simp add: machine_run_append split: option.split)

lemma apart_run:
  assumes "machine_run ntop buffers es (machine_init c) = Some m"
  shows "\<exists>number k. apart ntop buffers (c_sequence c) es number k (view m)"
  using assms
proof (induction es arbitrary: m rule: rev_induct)
  case Nil
  then have "apart ntop buffers (c_sequence c) [] id 0 (view m)"
    by (auto simp: apart_def begun_def view_def machine_init_def)
  then show ?case by blast
next
  case (snoc e es)
  obtain k where k: "machine_run ntop buffers es (machine_init c) = Some k" "machine_step ntop buffers e k = Some m"
    using snoc.prems by (auto simp: machine_run_snoc split: option.splits)
  then show ?case using snoc.IH [OF k(1)] apart_step [OF _ machine_step_view [OF k(2)]] by blast
qed

text \<open>What a run has made of an operation is what its task does alone.\<close>

lemma apart_alone:
  assumes "apart ntop buffers first es number k (view m)" "i < length (m_coroutines m)" "m_coroutines m ! i = Running op job"
  shows "number i < k \<and> task_alone ntop op (first + of_nat (number i)) (buffers i)
    (sends_of (completions_of i es)) (recvs_of (completions_of i es)) = Some (job_outcome job)"
proof -
  have "alone_at ntop buffers first es number k i (m_coroutines m ! i)"
    using assms(1,2) by (simp add: apart_def view_def)
  then obtain job0 where "number i < k" "job_begin op (buffers i) (first + of_nat (number i)) = Some job0"
    "job_resumes ntop job0 (completions_of i es) = Some job"
    unfolding assms(3) by auto
  then show ?thesis using job_begin_alone by blast
qed

lemma running_alone:
  assumes "machine_run ntop buffers es (machine_init c) = Some m"
    and "i < length (m_coroutines m)" "m_coroutines m ! i = Running op job"
  shows "\<exists>number. task_alone ntop op number (buffers i) (sends_of (completions_of i es)) (recvs_of (completions_of i es))
    = Some (job_outcome job)"
  using apart_run [OF assms(1)] apart_alone [OF _ assms(2,3)] by blast

section \<open>Properties\<close>

text \<open>
  C40. However the operations of a \<open>Control\<close> interleave, at the gate, while they send and while they
  read, and whenever it is stopped: each that has started has sent, and returns, exactly what the
  function of the program does on a \<open>Control\<close> of its own with the completions it was resumed with,
  under a sequence number of its own. In a run of up to \<open>2 ^ 32\<close> events no two operations share a number.
\<close>

theorem operations_independent:
  assumes "machine_run ntop buffers es (machine_init c) = Some m" "length es \<le> 2 ^ 32"
  shows "\<exists>number. inj_on number {i. i < length (m_coroutines m) \<and> running (m_coroutines m ! i)}
    \<and> (\<forall>i < length (m_coroutines m). \<forall>op job. m_coroutines m ! i = Running op job \<longrightarrow>
        on_its_own ntop op (number i) (buffers i) (sends_of (completions_of i es)) (recvs_of (completions_of i es))
          = Some (job_outcome job))"
proof -
  let ?cs = "m_coroutines m"
  obtain number k where a: "apart ntop buffers (c_sequence c) es number k (view m)"
    using apart_run [OF assms(1)] by blast
  let ?number = "\<lambda>i. c_sequence c + of_nat (number i) :: u32"
  have inj: "inj_on number (begun ?cs)" and k: "k \<le> 2 ^ 32"
    using a assms(2) by (auto simp: apart_def view_def)
  have own: "number i < 2 ^ 32 \<and> task_alone ntop op (?number i) (buffers i)
      (sends_of (completions_of i es)) (recvs_of (completions_of i es)) = Some (job_outcome job)"
    if "i < length ?cs" "?cs ! i = Running op job" for i op job
    using apart_alone [OF a that] k by (meson less_le_trans)
  have "inj_on ?number (begun ?cs)"
  proof (rule inj_onI)
    fix i j
    assume ij: "i \<in> begun ?cs" "j \<in> begun ?cs" "?number i = ?number j"
    have "number x < 2 ^ 32" if "x \<in> begun ?cs" for x
      using that own [of x] by (cases "?cs ! x") (auto simp: begun_def)
    then have "number i = number j"
      using ij by (intro of_nat_u32_inj) auto
    then show "i = j" using ij(1,2) inj by (simp add: inj_on_def)
  qed
  then show ?thesis using own by (intro exI [of _ ?number]) (simp add: begun_def on_its_own_task)
qed

text \<open>A dump and a probe interleaved; the probe waits for its answer when the \<open>Control\<close> is stopped.\<close>

definition two_operations :: "control_event list" where
  "two_operations = [Arrive Dump_Links 0, Arrive (Probe_Neighbor 3 (replicate 16 1)) 0,
     Pass 1 None working, Pass 0 None working, Finish 1 (Send_Completion (Sent 48)),
     Complete 0 (Send_Completion (Sent 20)), Resume 1 (Send_Completion (Sent 48)), Stop_Control working,
     Complete 0 (Send_Completion (Sent 12)), Resume 1 (Receive_Completion (Recv_Error 125))]"

lemmas two_operations_simps = two_operations_def machine_init_def control_init_def next_expiry_def s64_plus_def
  gate_passed_None fetch_add_def opened_def resumed_def issue_def put_coroutine_def shared_def control_open_def
  task_begin_def send_or_read_def Let_def link_dump_payload neighbor_probe_payload enc_neighbor_query_def
  length_enc_attr operation_aborted_def

lemma two_operations_run:
  "\<exists>m job job'. machine_run ntop (\<lambda>_. []) two_operations (machine_init control_init) = Some m
    \<and> m_coroutines m = [Running Dump_Links job, Running (Probe_Neighbor 3 (replicate 16 1)) job']"
proof -
  obtain g1 g2 where g: "ensure_open working (socket_guard_init ''nl-control-link'') = (g1, Return (Inr ()))"
    "ensure_open working (socket_guard_init ''nl-control'') = (g2, Return (Inr ()))"
    using ensure_open_working by (metis prod.collapse)
  have o: "is_open (guard_socket g2)" using ensure_open_is_open [OF g(2)] .
  have "length (enc_msg ty fl seq pid body) \<noteq> 0" for ty fl seq pid body by simp
  then have ne: "enc_msg ty fl seq pid body \<noteq> []" for ty fl seq pid body by (simp only: length_0_conv not_False_eq_True)
  show ?thesis
    by (simp add: two_operations_simps ne g o)
qed

lemma operations_independent_witness:
  "\<exists>m job job' number. machine_run (\<lambda>_ _. None) (\<lambda>_. []) two_operations (machine_init control_init) = Some m
    \<and> m_coroutines m = [Running Dump_Links job, Running (Probe_Neighbor 3 (replicate 16 1)) job']
    \<and> number (0 :: nat) \<noteq> (number 1 :: u32)
    \<and> on_its_own (\<lambda>_ _. None) (Probe_Neighbor 3 (replicate 16 1)) (number 1) [] [Sent 48] [Recv_Error 125]
      = Some (job_outcome job')"
proof -
  let ?probe = "Probe_Neighbor 3 (replicate 16 1)"
  obtain m job job' where m: "machine_run (\<lambda>_ _. None) (\<lambda>_. []) two_operations (machine_init control_init) = Some m"
    "m_coroutines m = [Running Dump_Links job, Running ?probe job']"
    using two_operations_run [of "\<lambda>_ _. None"] by (elim exE conjE) (rule that)
  have "length two_operations \<le> 2 ^ 32" by (simp add: two_operations_def)
  from operations_independent [OF m(1) this] obtain number where
    n: "inj_on number {i. i < length (m_coroutines m) \<and> running (m_coroutines m ! i)}"
    and o: "\<forall>i < length (m_coroutines m). \<forall>op job. m_coroutines m ! i = Running op job \<longrightarrow>
        on_its_own (\<lambda>_ _. None) op (number i) [] (sends_of (completions_of i two_operations))
          (recvs_of (completions_of i two_operations)) = Some (job_outcome job)"
    by (elim exE conjE) (rule that)
  have "number 0 \<noteq> number 1" using inj_onD [OF n, of 0 1] m(2) by auto
  moreover have "sends_of (completions_of 1 two_operations) = [Sent 48]" "recvs_of (completions_of 1 two_operations) = [Recv_Error 125]"
    by (simp_all add: two_operations_def completions_of_def sends_of_def recvs_of_def)
  moreover have "on_its_own (\<lambda>_ _. None) ?probe (number 1) [] (sends_of (completions_of 1 two_operations))
      (recvs_of (completions_of 1 two_operations)) = Some (job_outcome job')"
    by (rule o [rule_format]) (simp_all add: m(2))
  ultimately show ?thesis using m by (intro exI [of _ m] exI [of _ job] exI [of _ job'] exI [of _ number]) simp
qed

end
