(* ===== verification/Control_Stop.thy ===== *)
theory Control_Stop
  imports Concurrent_Operations
begin

text \<open>
  What \<open>Control::stop()\<close> does to the operations under way. It closes the socket that the operations on
  neighbors share; the dumps have sockets of their own, and the gate stays as it is.
\<close>

section \<open>What a coroutine waits for\<close>

text \<open>An error ends the task it resumes.\<close>

lemma task_step_failed:
  "task_wants st = Some d \<Longrightarrow> \<exists>st'. task_step process st (failed ec d) = Some st' \<and> task_wants st' = None"
  by (cases st; cases d) auto

lemma task_step_error:
  "task_step process st (failed ec d) = Some st' \<Longrightarrow> task_wants st' = None"
  by (cases st; cases d) auto

lemma job_resume_failed: "job_resume ntop job (failed ec d) = Some job' \<Longrightarrow> job_wants job' = None"
  by (cases job) (auto dest: task_step_error)

lemma direction_of_failed [simp]: "direction_of (failed ec d) = d"
  by (cases d) simp_all

fun wanted :: "coroutine \<Rightarrow> direction option" where
  "wanted (Running op job) = (if shared op then job_wants job else None)"
| "wanted _ = None"

definition wants :: "nat \<Rightarrow> coroutine \<Rightarrow> (nat \<times> direction) multiset" where
  "wants i co = (case wanted co of None \<Rightarrow> {#} | Some d \<Rightarrow> {#(i, d)#})"

section \<open>The invariant\<close>

text \<open>
  The operations on the shared socket that are under way, whether they wait or have completed: each
  coroutine has just the one it is suspended at. Something waits on an open socket only.
\<close>

definition owed :: "machine \<Rightarrow> (nat \<times> direction) multiset" where
  "owed m = mset (m_waiting m) + image_mset (apsnd direction_of) (mset (m_ready m))"

definition in_step :: "machine \<Rightarrow> bool" where
  "in_step m \<longleftrightarrow>
     (\<forall>i d. count (owed m) (i, d) = (if i < length (m_coroutines m) \<and> wanted (m_coroutines m ! i) = Some d then 1 else 0))
     \<and> (m_waiting m \<noteq> [] \<longrightarrow> control_open m)"

lemma in_stepD:
  "in_step m \<Longrightarrow> count (owed m) (i, d)
    = (if i < length (m_coroutines m) \<and> wanted (m_coroutines m ! i) = Some d then 1 else 0)"
  by (simp add: in_step_def)

lemma owed_issue: "owed (issue op i job m) = owed m + wants i (Running op job)"
  by (simp add: issue_def owed_def wants_def split: option.split)

lemma owed_put [simp]: "owed (put_coroutine i co m) = owed m"
  by (simp add: put_coroutine_def owed_def)

lemma owed_control [simp]: "owed (m\<lparr>m_control := c\<rparr>) = owed m"
  by (simp add: owed_def)

lemma owed_taken:
  assumes "(i, e) \<in> set (m_ready m)"
  shows "owed m = add_mset (i, direction_of e) (owed (m\<lparr>m_ready := remove1 (i, e) (m_ready m)\<rparr>))"
proof -
  obtain xs ys where "m_ready m = xs @ (i, e) # ys" "(i, e) \<notin> set xs"
    using split_list_first [OF assms] by blast
  then show ?thesis by (simp add: owed_def remove1_append)
qed

lemma owed_finished:
  assumes "(i, direction_of e) \<in> set (m_waiting m)"
  shows "owed (m\<lparr>m_waiting := remove1 (i, direction_of e) (m_waiting m), m_ready := m_ready m @ [(i, e)]\<rparr>) = owed m"
proof -
  obtain xs ys where "m_waiting m = xs @ (i, direction_of e) # ys" "(i, direction_of e) \<notin> set xs"
    using split_list_first [OF assms] by blast
  then show ?thesis by (simp add: owed_def remove1_append)
qed

lemma owed_stopped:
  "owed (m\<lparr>m_control := c, m_waiting := [], m_ready := m_ready m @ map (\<lambda>(i, d). (i, failed ec d)) (m_waiting m)\<rparr>) = owed m"
proof -
  have "image_mset (apsnd direction_of) (mset (map (\<lambda>(i, d). (i, failed ec d)) ws)) = mset ws" for ws :: "(nat \<times> direction) list"
    by (induction ws) auto
  then show ?thesis by (simp add: owed_def)
qed

lemma issue_simps [simp]:
  "m_coroutines (issue op i job m) = m_coroutines m" "m_control (issue op i job m) = m_control m"
  "control_open (issue op i job m) = control_open m"
  by (simp_all add: issue_def control_open_def split: option.split)

lemma put_simps' [simp]:
  "m_coroutines (put_coroutine i co m) = (m_coroutines m)[i := co]" "m_control (put_coroutine i co m) = m_control m"
  "m_waiting (put_coroutine i co m) = m_waiting m" "m_ready (put_coroutine i co m) = m_ready m"
  by (simp_all add: put_coroutine_def)

lemma issue_waits_open: "(m_waiting m \<noteq> [] \<longrightarrow> control_open m) \<Longrightarrow> m_waiting (issue op i job m) \<noteq> [] \<Longrightarrow> control_open m"
  by (auto simp: issue_def split: option.splits if_splits)

lemma in_step_update:
  assumes "in_step m" "i < length (m_coroutines m)" "m_coroutines m' = (m_coroutines m)[i := co]"
    and "owed m' + wants i (m_coroutines m ! i) = owed m + wants i co"
    and "m_waiting m' \<noteq> [] \<longrightarrow> control_open m'"
  shows "in_step m'"
proof -
  have "count (owed m') (j, d) = (if j < length (m_coroutines m') \<and> wanted (m_coroutines m' ! j) = Some d then 1 else 0)" for j d
  proof -
    have "count (owed m') (j, d) + count (wants i (m_coroutines m ! i)) (j, d)
        = count (owed m) (j, d) + count (wants i co) (j, d)"
      using assms(4) by (metis count_union)
    moreover have "count (wants i x) (j, d) = (if j = i \<and> wanted x = Some d then 1 else 0)" for x
      by (auto simp: wants_def split: option.split)
    moreover have "count (owed m) (j, d) = (if j < length (m_coroutines m) \<and> wanted (m_coroutines m ! j) = Some d then 1 else 0)"
      using assms(1) by (simp add: in_step_def)
    ultimately show ?thesis
      using assms(2) by (cases "j = i") (auto simp: assms(3) split: if_splits)
  qed
  then show ?thesis using assms(5) by (simp add: in_step_def)
qed

lemma in_step_control:
  assumes "in_step m" "m_waiting m \<noteq> [] \<longrightarrow> is_open (guard_socket (c_guard c))"
  shows "in_step (m\<lparr>m_control := c\<rparr>)"
  using assms by (simp add: in_step_def control_open_def)

lemma in_step_opened:
  assumes "in_step m" "i < length (m_coroutines m)" "m_coroutines m ! i = At_Gate op"
    and "opened buffers i op result m = Some m'"
  shows "in_step m'"
proof (cases "\<exists>x. result = Return (Inr x)")
  case True
  then obtain job where m': "m' = issue op i job (put_coroutine i (Running op job) (m\<lparr>m_control := fst (fetch_add (m_control m))\<rparr>))"
    using assms(4) by (auto simp: opened_def fetch_add_def)
  have o: "control_open m' = control_open m"
    by (simp add: m' control_open_def fetch_add_def)
  show ?thesis
  proof (rule in_step_update [OF assms(1,2)])
    show "m_coroutines m' = (m_coroutines m)[i := Running op job]" by (simp add: m')
    show "owed m' + wants i (m_coroutines m ! i) = owed m + wants i (Running op job)"
      by (simp add: m' owed_issue assms(3) wants_def [of i "At_Gate op"])
    show "m_waiting m' \<noteq> [] \<longrightarrow> control_open m'"
      using assms(1) unfolding o m' by (auto simp: issue_def in_step_def control_open_def fetch_add_def split: option.splits if_splits)
  qed
next
  case False
  then have m': "m' = put_coroutine i (Refused op result) m"
    using assms(4) by (auto simp: opened_def split: outcome.splits sum.splits)
  show ?thesis
    using assms by (intro in_step_update [OF assms(1,2)]) (auto simp: m' wants_def in_step_def control_open_def)
qed

lemma in_step_resumed:
  assumes "i < length (m_coroutines m)" "m_coroutines m ! i = Running op job"
    and "in_step m0" "m_coroutines m0 = m_coroutines m" "m_control m0 = m_control m" "m_waiting m0 = m_waiting m"
    and "owed m0 = owed m + wants i (Running op job)"
    and "resumed ntop i op job e m = Some m'"
  shows "in_step m'"
proof -
  obtain job' where m': "m' = issue op i job' (put_coroutine i (Running op job') m)"
    using assms(8) by (auto simp: resumed_def)
  have "m_waiting m \<noteq> [] \<longrightarrow> control_open m"
    using assms(3,5,6) by (simp add: in_step_def control_open_def)
  then have w: "m_waiting m' \<noteq> [] \<longrightarrow> control_open m'"
    unfolding m' by (auto simp: issue_def control_open_def split: option.splits if_splits)
  show ?thesis
  proof (rule in_step_update [OF assms(3)])
    show "i < length (m_coroutines m0)" by (simp add: assms(1,4))
    show "m_coroutines m' = (m_coroutines m0)[i := Running op job']" by (simp add: m' assms(4))
    show "owed m' + wants i (m_coroutines m0 ! i) = owed m0 + wants i (Running op job')"
      by (simp add: m' owed_issue assms(2,4,7))
    show "m_waiting m' \<noteq> [] \<longrightarrow> control_open m'" by (rule w)
  qed
qed

lemma in_step_step:
  assumes "in_step m" "machine_step ntop buffers e m = Some m'"
  shows "in_step m'"
proof (cases e)
  case (Arrive op now)
  then obtain x where m': "m' = m\<lparr>m_control := (m_control m)\<lparr>c_expiry := x\<rparr>, m_coroutines := m_coroutines m @ [At_Gate op]\<rparr>"
    using assms(2) by (auto split: option.splits)
  have "owed m' = owed m" "control_open m' = control_open m" "m_waiting m' = m_waiting m"
    by (simp_all add: m' owed_def control_open_def)
  moreover have "(i < length (m_coroutines m') \<and> wanted (m_coroutines m' ! i) = Some d)
      \<longleftrightarrow> (i < length (m_coroutines m) \<and> wanted (m_coroutines m ! i) = Some d)" for i d
    by (auto simp: m' nth_append less_Suc_eq)
  ultimately show ?thesis using assms(1) by (simp add: in_step_def)
next
  case (Pass i ec os)
  then obtain op where i: "i < length (m_coroutines m)" "m_coroutines m ! i = At_Gate op"
    using assms(2) by (auto split: if_splits coroutine.splits)
  show ?thesis
  proof (cases "gate_passed ec")
    case (Throw what x)
    then have m': "m' = put_coroutine i (Refused op (Throw what x)) m" using assms(2) Pass i by simp
    show ?thesis
      using assms(1) i by (intro in_step_update [OF assms(1) i(1)]) (auto simp: m' wants_def in_step_def control_open_def)
  next
    case (Return u)
    then consider label where "opened buffers i op (snd (ensure_open os (socket_guard_init label))) m = Some m'"
      | guard result where "ensure_open os (c_guard (m_control m)) = (guard, result)"
        "opened buffers i op result (m\<lparr>m_control := (m_control m)\<lparr>c_guard := guard\<rparr>\<rparr>) = Some m'"
      using assms(2) Pass i by (auto split: option.splits prod.splits)
    then show ?thesis
    proof cases
      case (1 label)
      then show ?thesis using in_step_opened [OF assms(1) i] by blast
    next
      case (2 guard result)
      have "is_open (guard_socket guard)" if "m_waiting m \<noteq> []"
        using 2(1) assms(1) that ensure_open_idle by (auto simp: in_step_def control_open_def)
      then have "in_step (m\<lparr>m_control := (m_control m)\<lparr>c_guard := guard\<rparr>\<rparr>)"
        by (intro in_step_control [OF assms(1)]) simp
      then show ?thesis using in_step_opened [OF _ _ _ 2(2)] i by simp
    qed
  qed
next
  case (Complete i c)
  then obtain op job where i: "i < length (m_coroutines m)" "m_coroutines m ! i = Running op job" "\<not> shared op"
    "resumed ntop i op job c m = Some m'"
    using assms(2) by (auto split: if_splits coroutine.splits)
  show ?thesis
    by (rule in_step_resumed [OF i(1,2) assms(1) _ _ _ _ i(4)]) (simp_all add: wants_def i(3))
next
  case (Finish i c)
  let ?m = "m\<lparr>m_waiting := remove1 (i, direction_of c) (m_waiting m), m_ready := m_ready m @ [(i, c)]\<rparr>"
  have "find (\<lambda>(j, d). d = direction_of c) (m_waiting m) = Some (i, direction_of c)" and m': "m' = ?m"
    using assms(2) Finish by (auto split: if_splits)
  then have w: "(i, direction_of c) \<in> set (m_waiting m)"
    by (auto simp: find_Some_iff in_set_conv_nth)
  then have "m_waiting m \<noteq> []" by auto
  then show ?thesis
    using assms(1) owed_finished [OF w] unfolding m' in_step_def by (simp add: control_open_def)
next
  case (Resume i c)
  let ?m = "m\<lparr>m_ready := remove1 (i, c) (m_ready m)\<rparr>"
  obtain op job where i: "i < length (m_coroutines m)" "m_coroutines m ! i = Running op job" "shared op"
    "(i, c) \<in> set (m_ready m)" "resumed ntop i op job c ?m = Some m'"
    using assms(2) Resume by (auto split: if_splits coroutine.splits)
  then have "job_wants job = Some (direction_of c)" by (auto simp: resumed_def dest: job_resume_direction)
  then have "owed m = owed ?m + wants i (Running op job)"
    using owed_taken [OF i(4)] i(3) by (simp add: wants_def)
  then show ?thesis
    by (intro in_step_resumed [OF _ _ assms(1) _ _ _ _ i(5)]) (simp_all add: i)
next
  case (Stop_Control os)
  then have "m' = m\<lparr>m_control := control_stop os (m_control m), m_waiting := [],
      m_ready := m_ready m @ map (\<lambda>(i, d). (i, failed operation_aborted d)) (m_waiting m)\<rparr>"
    using assms(2) by simp
  then have "owed m' = owed m" "m_coroutines m' = m_coroutines m" "m_waiting m' = []"
    by (simp_all only: owed_stopped) simp_all
  then show ?thesis using assms(1) by (simp add: in_step_def)
qed

lemma in_step_run:
  assumes "in_step m" "machine_run ntop buffers es m = Some m'"
  shows "in_step m'"
  using assms(2)
proof (induction es arbitrary: m' rule: rev_induct)
  case Nil
  then show ?case using assms(1) by simp
next
  case (snoc e es)
  then show ?case using in_step_step by (auto simp: machine_run_snoc split: option.splits)
qed

lemma in_step_init: "in_step (machine_init c)"
  by (simp add: in_step_def machine_init_def owed_def)

section \<open>After the stop\<close>

lemma step_operations:
  assumes "machine_step ntop buffers e m = Some m'" "i < length (m_coroutines m)"
  shows "i < length (m_coroutines m') \<and> operation_of (m_coroutines m' ! i) = operation_of (m_coroutines m ! i)"
  using machine_step_view [OF assms(1)] assms(2)
  by (cases rule: view_step.cases) (auto simp: view_def nth_append nth_list_update)

lemma run_operations_of:
  assumes "machine_run ntop buffers es m = Some m'" "i < length (m_coroutines m)"
  shows "i < length (m_coroutines m') \<and> operation_of (m_coroutines m' ! i) = operation_of (m_coroutines m ! i)"
  using assms
proof (induction es arbitrary: m)
  case Nil
  then show ?case by simp
next
  case (Cons e es)
  then obtain k where k: "machine_step ntop buffers e m = Some k" "machine_run ntop buffers es k = Some m'"
    by (auto split: option.splits)
  show ?case using Cons.IH [OF k(2)] step_operations [OF k(1) Cons.prems(2)] by simp
qed

text \<open>
  As long as only dumps pass the gate, the shared socket stays closed: an event spares it unless it
  lets an operation on neighbors pass.
\<close>

definition spares :: "control_event \<Rightarrow> coroutine list \<Rightarrow> bool" where
  "spares e cs \<longleftrightarrow> (\<forall>i ec os. e = Pass i ec os \<longrightarrow> \<not> shared (operation_of (cs ! i)))"

lemma opened_control_open: "opened buffers i op result m = Some m' \<Longrightarrow> control_open m' = control_open m"
  by (auto simp: opened_def fetch_add_def control_open_def split: outcome.splits sum.splits)

lemma resumed_control_open: "resumed ntop i op job e m = Some m' \<Longrightarrow> control_open m' = control_open m"
  by (auto simp: resumed_def control_open_def)

lemma closed_step:
  assumes "machine_step ntop buffers e m = Some m'" "\<not> control_open m" "spares e (m_coroutines m)"
  shows "\<not> control_open m'"
proof (cases e)
  case (Pass i ec os)
  then obtain op where op: "m_coroutines m ! i = At_Gate op" "\<not> shared op"
    using assms(1,3) by (auto simp: spares_def split: if_splits coroutine.splits)
  then obtain label where "own_label op = Some label" by (auto simp: shared_def)
  then show ?thesis
    using assms(1,2) Pass op opened_control_open by (auto simp: control_open_def split: if_splits outcome.splits)
qed (use assms in \<open>auto simp: control_open_def control_stop_def guard_stop_closed
      dest!: resumed_control_open [unfolded control_open_def] split: option.splits if_splits coroutine.splits\<close>)

text \<open>What is still to be handed to a coroutine: at most the success it has, and the error after it.\<close>

fun is_error :: "completion \<Rightarrow> bool" where
  "is_error (Send_Completion (Send_Error ec)) \<longleftrightarrow> True"
| "is_error (Receive_Completion (Recv_Error ec)) \<longleftrightarrow> True"
| "is_error _ \<longleftrightarrow> False"

lemma is_error_failed [simp]: "is_error (failed ec d)"
  by (cases d) simp_all

lemma job_resume_error:
  assumes "is_error e" "job_resume ntop job e = Some job'"
  shows "job_wants job' = None"
proof -
  obtain v where "e = failed (Error_Code Generic_Category v) (direction_of e)"
    using assms(1) by (cases e rule: is_error.cases) auto
  then show ?thesis using assms(2) by (metis job_resume_failed)
qed

definition pending :: "machine \<Rightarrow> nat \<Rightarrow> completion set" where
  "pending m i = {e. (i, e) \<in> set (m_ready m)}"

definition left :: "machine \<Rightarrow> nat \<Rightarrow> nat" where
  "left m i = (if pending m i = {} then 0 else if \<forall>e \<in> pending m i. is_error e then 1 else 2)"

text \<open>A step on a closed socket takes one completion of a coroutine, or leaves them as they are.\<close>

lemma pending_unique:
  assumes "in_step m" "(i, e) \<in> set (m_ready m)"
  shows "pending (m\<lparr>m_ready := remove1 (i, e) (m_ready m)\<rparr>) i = {}"
proof -
  let ?m = "m\<lparr>m_ready := remove1 (i, e) (m_ready m)\<rparr>"
  have "count (owed ?m) (i, d) = 0" for d
  proof -
    have "0 < count (owed m) (i, direction_of e)" using owed_taken [OF assms(2)] by simp
    then have "wanted (m_coroutines m ! i) = Some (direction_of e)"
      unfolding in_stepD [OF assms(1)] by (simp split: if_splits)
    then have "count (owed m) (i, d) \<le> (if d = direction_of e then 1 else 0)"
      unfolding in_stepD [OF assms(1)] by simp
    then show ?thesis using owed_taken [OF assms(2)] by (simp split: if_splits)
  qed
  moreover have "0 < count (owed ?m) (i, direction_of e')" if "(i, e') \<in> set (m_ready ?m)" for e'
  proof -
    have "(i, e') \<in># mset (m_ready ?m)" using that by (simp only: set_mset_mset)
    then have "apsnd direction_of (i, e') \<in># image_mset (apsnd direction_of) (mset (m_ready ?m))"
      unfolding set_image_mset by (rule imageI)
    then show ?thesis by (simp del: set_image_mset add: owed_def)
  qed
  ultimately show ?thesis by (fastforce simp: pending_def)
qed

lemma pending_step:
  assumes "in_step m" "machine_step ntop buffers e m = Some m'" "\<not> control_open m" "spares e (m_coroutines m)"
    and "i < length (m_coroutines m) \<longrightarrow> shared (operation_of (m_coroutines m ! i))"
  shows "completion_of i e = [] \<and> pending m' i = pending m i
    \<or> (\<exists>c. completion_of i e = [c] \<and> c \<in> pending m i
        \<and> (pending m' i = {} \<or> \<not> is_error c \<and> (\<exists>d. pending m' i = {failed bad_descriptor d})))"
proof (cases e)
  case (Pass j ec os)
  have "m_ready m' = m_ready m"
    using assms(2,4) Pass
    by (auto simp: spares_def opened_def put_coroutine_def issue_def fetch_add_def shared_def
        split: if_splits coroutine.splits option.splits outcome.splits prod.splits sum.splits)
  then show ?thesis by (simp add: Pass pending_def)
next
  case (Complete j c)
  then obtain op job where j: "j < length (m_coroutines m)" "m_coroutines m ! j = Running op job" "\<not> shared op"
    "resumed ntop j op job c m = Some m'"
    using assms(2) by (auto split: if_splits coroutine.splits)
  then have "m_ready m' = m_ready m" "j \<noteq> i"
    using assms(5) by (auto simp: resumed_def issue_def put_coroutine_def split: option.splits)
  then show ?thesis by (simp add: Complete pending_def)
next
  case (Resume j c)
  let ?m = "m\<lparr>m_ready := remove1 (j, c) (m_ready m)\<rparr>"
  obtain op job where j: "(j, c) \<in> set (m_ready m)" "shared op" "resumed ntop j op job c ?m = Some m'"
    using assms(2) Resume by (auto split: if_splits coroutine.splits)
  then obtain job' where job': "job_resume ntop job c = Some job'"
    "m' = issue op j job' (put_coroutine j (Running op job') ?m)"
    by (auto simp: resumed_def)
  have ready: "set (m_ready m') = set (m_ready ?m) \<union>
      (case job_wants job' of None \<Rightarrow> {} | Some d \<Rightarrow> {(j, failed bad_descriptor d)})"
    using assms(3) j(2) by (auto simp: job'(2) issue_def control_open_def split: option.split)
  show ?thesis
  proof (cases "j = i")
    case False
    then have "pending m' i = pending m i" by (auto simp: pending_def ready split: option.splits)
    then show ?thesis using False by (simp add: Resume)
  next
    case True
    have "pending m' i = (case job_wants job' of None \<Rightarrow> {} | Some d \<Rightarrow> {failed bad_descriptor d})"
      using pending_unique [OF assms(1) j(1)] True by (auto simp: pending_def ready split: option.splits)
    moreover have "c \<in> pending m i" using j(1) True by (simp add: pending_def)
    ultimately show ?thesis
      using True job_resume_error [OF _ job'(1)] by (cases "job_wants job'") (auto simp: Resume)
  qed
next
  case (Finish j c)
  have "m_waiting m = []" using assms(1,3) by (auto simp: in_step_def)
  then show ?thesis using assms(2) Finish by simp
next
  case (Stop_Control os)
  have "m_waiting m = []" using assms(1,3) by (auto simp: in_step_def)
  then show ?thesis using assms(2) Stop_Control by (auto simp: pending_def)
qed (use assms(2) in \<open>auto simp: pending_def split: option.splits\<close>)

lemma spares_earlier:
  assumes "machine_run ntop buffers (e # es) m = Some m'" "spares e (m_coroutines m')"
  shows "spares e (m_coroutines m)"
  unfolding spares_def
proof (intro allI impI)
  fix i ec os
  assume e: "e = Pass i ec os"
  then have "i < length (m_coroutines m)" using assms(1) by (auto split: option.splits if_splits)
  from run_operations_of [OF assms(1) this] show "\<not> shared (operation_of (m_coroutines m ! i))"
    using assms(2) e by (simp add: spares_def)
qed

text \<open>
  So a coroutine gets what is pending for it, and, when that is a success, one error more; then
  nothing is pending.
\<close>

lemma closed_run:
  assumes "in_step m" "\<not> control_open m" "machine_run ntop buffers es m = Some m'"
    and "\<forall>e \<in> set es. spares e (m_coroutines m')"
    and "i < length (m_coroutines m')" "shared (operation_of (m_coroutines m' ! i))"
  shows "\<not> control_open m' \<and> left m' i + length (completions_of i es) \<le> left m i
    \<and> (\<forall>c cs. completions_of i es = c # cs \<longrightarrow> c \<in> pending m i)"
  using assms(1-4)
proof (induction es arbitrary: m)
  case Nil
  then show ?case by simp
next
  case (Cons e es)
  then obtain k where k: "machine_step ntop buffers e m = Some k" "machine_run ntop buffers es k = Some m'"
    by (auto split: option.splits)
  have sp: "spares e (m_coroutines m)" using spares_earlier [OF Cons.prems(3)] Cons.prems(4) by simp
  have sh: "i < length (m_coroutines m) \<longrightarrow> shared (operation_of (m_coroutines m ! i))"
    using run_operations_of [OF Cons.prems(3)] assms(6) by metis
  have ih: "\<not> control_open m' \<and> left m' i + length (completions_of i es) \<le> left k i
      \<and> (\<forall>c cs. completions_of i es = c # cs \<longrightarrow> c \<in> pending k i)"
    using Cons.IH [OF in_step_step [OF Cons.prems(1) k(1)] closed_step [OF k(1) Cons.prems(2) sp] k(2)] Cons.prems(4)
    by simp
  have app: "completions_of i (e # es) = completion_of i e @ completions_of i es"
    by (simp add: completions_of_def)
  consider (same) "completion_of i e = []" "pending k i = pending m i"
    | (taken) c where "completion_of i e = [c]" "c \<in> pending m i"
      "pending k i = {} \<or> \<not> is_error c \<and> (\<exists>d. pending k i = {failed bad_descriptor d})"
    using pending_step [OF Cons.prems(1) k(1) Cons.prems(2) sp sh] by blast
  then show ?case
  proof cases
    case same
    then have "left k i = left m i" by (simp add: left_def)
    then show ?thesis using ih same by (simp add: app)
  next
    case (taken c)
    then have "Suc (left k i) \<le> left m i" by (auto simp: left_def)
    then show ?thesis using ih taken by (simp add: app)
  qed
qed

lemma pending_single:
  assumes "in_step m" "(i, e) \<in> set (m_ready m)"
  shows "pending m i = {e}"
proof -
  have only: "x = e" if x: "(i, x) \<in> set (m_ready m)" for x
  proof (rule ccontr)
    assume "x \<noteq> e"
    then have "(i, x) \<in> set (remove1 (i, e) (m_ready m))" using x by simp
    then show False using pending_unique [OF assms] by (auto simp: pending_def)
  qed
  show ?thesis unfolding pending_def using assms(2) only by blast
qed

text \<open>
  An operation at the gate is not stopped: it passes, opens the socket again and goes on.
\<close>

lemma stop_spares_gate:
  assumes "i < length (m_coroutines m)" "m_coroutines m ! i = At_Gate op" "shared op"
    and "snd (ensure_open os' (guard_stop os (c_guard (m_control m)))) = Return (Inr ())"
    and "job_begin op (buffers i) (c_sequence (m_control m)) = Some job"
  shows "\<exists>m'. machine_run ntop buffers [Stop_Control os, Pass i None os'] m = Some m'
    \<and> m_coroutines m' ! i = Running op job \<and> control_open m'"
proof -
  obtain g where g: "ensure_open os' (guard_stop os (c_guard (m_control m))) = (g, Return (Inr ()))"
    using assms(4) by (cases "ensure_open os' (guard_stop os (c_guard (m_control m)))") simp
  have "own_label op = None" using assms(3) by (simp add: shared_def)
  then show ?thesis
    using assms(1,2,5) ensure_open_is_open [OF g]
    by (simp add: gate_passed_None control_stop_def g opened_def fetch_add_def control_open_def)
qed

section \<open>Properties\<close>

text \<open>
  C29. When a \<open>Control\<close> is stopped, and no operation on neighbors passes the gate after that (one that
  did would open the socket again), the operations on neighbors under way come to an end: each is
  resumed twice at most, and while it has not ended the handler that resumes it is ready to run. An
  operation that was waiting on the socket is resumed once, with \<open>operation_aborted\<close>. Dumps may pass
  the gate: they have sockets of their own.
\<close>

theorem stop_ends_neighbor_operations:
  assumes "machine_run ntop buffers es (machine_init c) = Some m"
    and "machine_run ntop buffers (Stop_Control os # es') m = Some m'"
    and "\<forall>e \<in> set es'. spares e (m_coroutines m')"
    and "i < length (m_coroutines m')" "m_coroutines m' ! i = Running op job" "shared op"
  shows "length (completions_of i es') \<le> 2 \<and> (job_wants job \<noteq> None \<longrightarrow> (\<exists>e. (i, e) \<in> set (m_ready m')))
    \<and> (\<forall>d. (i, d) \<in> set (m_waiting m) \<longrightarrow> completions_of i es' = [] \<or> completions_of i es' = [failed operation_aborted d])"
proof -
  obtain m1 where m1: "machine_step ntop buffers (Stop_Control os) m = Some m1" "machine_run ntop buffers es' m1 = Some m'"
    using assms(2) by (auto split: option.splits)
  have s1: "in_step m1" using in_step_step [OF in_step_run [OF in_step_init assms(1)] m1(1)] .
  have o1: "\<not> control_open m1"
    using m1(1) guard_stop_closed by (auto simp: control_open_def control_stop_def)
  have "shared (operation_of (m_coroutines m' ! i))" by (simp add: assms(5,6))
  note run = closed_run [OF s1 o1 m1(2) assms(3,4) this]
  have "left m1 i \<le> 2" by (simp add: left_def)
  then have two: "length (completions_of i es') \<le> 2" using run by linarith
  have s2: "in_step m'" by (rule in_step_run [OF s1 m1(2)])
  have ready: "\<exists>e. (i, e) \<in> set (m_ready m')" if wants: "job_wants job \<noteq> None"
  proof -
    obtain d where "job_wants job = Some d" using wants by blast
    then have "count (owed m') (i, d) = 1" using in_stepD [OF s2, of i d] assms(4-6) by simp
    then have "(i, d) \<in># owed m'" by (simp add: count_greater_zero_iff [symmetric] del: count_greater_zero_iff)
    moreover have "m_waiting m' = []" using s2 run by (auto simp: in_step_def)
    ultimately show ?thesis by (auto simp: owed_def)
  qed
  have once: "completions_of i es' = [] \<or> completions_of i es' = [failed operation_aborted d]"
    if wait: "(i, d) \<in> set (m_waiting m)" for d
  proof -
    have "(i, failed operation_aborted d) \<in> set (m_ready m1)" using m1(1) wait by force
    then have p: "pending m1 i = {failed operation_aborted d}" by (rule pending_single [OF s1])
    then have "length (completions_of i es') \<le> 1" using run by (simp add: left_def)
    then show ?thesis using run p by (cases "completions_of i es'") auto
  qed
  show ?thesis using two ready once by blast
qed

lemma stop_example:
  "\<exists>m m' job job'. machine_run ntop (\<lambda>_. []) (take 7 two_operations) (machine_init control_init) = Some m
    \<and> machine_run ntop (\<lambda>_. []) (Stop_Control working # drop 8 two_operations) m = Some m'
    \<and> m_waiting m = [(1, In)] \<and> m_coroutines m' = [Running Dump_Links job, Running (Probe_Neighbor 3 (replicate 16 1)) job']"
proof -
  obtain g1 g2 where g: "ensure_open working (socket_guard_init ''nl-control-link'') = (g1, Return (Inr ()))"
    "ensure_open working (socket_guard_init ''nl-control'') = (g2, Return (Inr ()))"
    using ensure_open_working by (metis prod.collapse)
  have o: "is_open (guard_socket g2)" using ensure_open_is_open [OF g(2)] .
  have "length (enc_msg ty fl seq pid body) \<noteq> 0" for ty fl seq pid body by simp
  then have ne: "enc_msg ty fl seq pid body \<noteq> []" for ty fl seq pid body by (simp only: length_0_conv not_False_eq_True)
  show ?thesis
    by (simp add: two_operations_simps ne g o)
qed

lemma stop_ends_neighbor_operations_witness:
  "\<exists>m m' job. machine_run (\<lambda>_ _. None) (\<lambda>_. []) (take 7 two_operations) (machine_init control_init) = Some m
    \<and> machine_run (\<lambda>_ _. None) (\<lambda>_. []) (Stop_Control working # drop 8 two_operations) m = Some m'
    \<and> m_coroutines m' ! 1 = Running (Probe_Neighbor 3 (replicate 16 1)) job
    \<and> completions_of 1 (drop 8 two_operations) = [failed operation_aborted In]"
proof -
  obtain m m' job job' where m: "machine_run (\<lambda>_ _. None) (\<lambda>_. []) (take 7 two_operations) (machine_init control_init) = Some m"
    "machine_run (\<lambda>_ _. None) (\<lambda>_. []) (Stop_Control working # drop 8 two_operations) m = Some m'"
    "m_waiting m = [(1, In)]" "m_coroutines m' = [Running Dump_Links job, Running (Probe_Neighbor 3 (replicate 16 1)) job']"
    using stop_example [of "\<lambda>_ _. None"] by (elim exE conjE) (rule that)
  have sp: "\<forall>e \<in> set (drop 8 two_operations). spares e (m_coroutines m')"
    by (simp add: two_operations_def spares_def)
  have "completions_of 1 (drop 8 two_operations) = [] \<or> completions_of 1 (drop 8 two_operations) = [failed operation_aborted In]"
    using stop_ends_neighbor_operations [OF m(1,2) sp, of 1 "Probe_Neighbor 3 (replicate 16 1)" job'] m(3,4)
    by (simp add: shared_def)
  moreover have "completions_of 1 (drop 8 two_operations) \<noteq> []"
    by (simp add: two_operations_def completions_of_def)
  ultimately show ?thesis using m by (intro exI [of _ m] exI [of _ m'] exI [of _ job']) simp
qed

end
