(* ===== verification/Concurrent_Dumps.thy ===== *)
theory Concurrent_Dumps
  imports Concurrent_Operations
begin

text \<open>
  A dump among other operations is complete: what Concurrent_Operations shows of any operation, and
  what Control_Dumps shows of a dump alone, together.
\<close>

section \<open>What the kernel reports, and what a dump makes of it\<close>

datatype report =
    Link_Report "link_entry list"
  | Route_Report "route_entry list"
  | Address_Report "address_entry list"
  | Neighbor_Report "neighbor_entry list"

fun report_operation :: "report \<Rightarrow> operation" where
  "report_operation (Link_Report es) = Dump_Links"
| "report_operation (Route_Report es) = Dump_Routes"
| "report_operation (Address_Report es) = Dump_Addresses"
| "report_operation (Neighbor_Report es) = Dump_Neighbors"

fun wf_report :: "report \<Rightarrow> bool" where
  "wf_report (Link_Report es) \<longleftrightarrow> list_all wf_link_entry es"
| "wf_report (Route_Report es) \<longleftrightarrow> list_all wf_route_entry es"
| "wf_report (Address_Report es) \<longleftrightarrow> list_all wf_address_entry es"
| "wf_report (Neighbor_Report es) \<longleftrightarrow> list_all wf_neighbor_entry es"

fun enc_report :: "u32 \<Rightarrow> report \<Rightarrow> u8 list list" where
  "enc_report number (Link_Report es) = map (enc_link_entry number) es"
| "enc_report number (Route_Report es) = map (enc_route_entry number) es"
| "enc_report number (Address_Report es) = map (enc_address_entry number) es"
| "enc_report number (Neighbor_Report es) = map (enc_neighbor_entry number) es"

text \<open>The request, and the events: of the entries reported, those the dump keeps.\<close>

fun report_result :: "inet_ntop \<Rightarrow> u32 \<Rightarrow> report \<Rightarrow> job_result" where
  "report_result ntop number (Link_Report es) = Link_Result
     (enc_msg RTM_GETLINK 0x301 number 0 (enc_ifinfomsg 0 0 0 0 0)) (Some (Inr (filter link_keep (map link_of_entry es))))"
| "report_result ntop number (Route_Report es) = Route_Result
     (enc_msg RTM_GETROUTE 0x301 number 0 (enc_rtmsg 0 0 0 0 254 0 0 0 0)) (Some (Inr (filter route_keep (map (route_of_entry ntop) es))))"
| "report_result ntop number (Address_Report es) = Address_Result
     (enc_msg RTM_GETADDR 0x301 number 0 (enc_ifaddrmsg 0 0 0 0 0)) (Some (Inr (filter address_keep (map (address_of_entry ntop) es))))"
| "report_result ntop number (Neighbor_Report es) = Neighbor_Result
     (enc_msg RTM_GETNEIGH 0x301 number 0 (enc_ndmsg 0 0 0 0 0)) (Some (Inr (filter neighbor_keep (map (neighbor_of_entry ntop) es))))"

lemma enc_report_seq: "b \<in> set (enc_report number report) \<Longrightarrow> nlmsg_seq b 0 = Some number"
  by (cases report) (auto simp: enc_link_entry_def enc_route_entry_def enc_address_entry_def enc_neighbor_entry_def
      nlmsghdr_enc_msg)

text \<open>The length of the request.\<close>

fun request_size :: "report \<Rightarrow> nat" where
  "request_size (Link_Report es) = 32"
| "request_size (Route_Report es) = 28"
| "request_size (Address_Report es) = 24"
| "request_size (Neighbor_Report es) = 28"

fun sent_bytes :: "job_result \<Rightarrow> u8 list" where
  "sent_bytes (Route_Result wire r) = wire"
| "sent_bytes (Address_Result wire r) = wire"
| "sent_bytes (Neighbor_Result wire r) = wire"
| "sent_bytes (Link_Result wire r) = wire"
| "sent_bytes (Probe_Result wire r) = wire"
| "sent_bytes (Flush_Result wire r) = wire"
| "sent_bytes (Get_Result wire r) = wire"

section \<open>A dump alone\<close>

lemma report_alone:
  assumes "length buffer = MAX_RESPONSE_BYTES" "wf_answer MAX_RESPONSE_BYTES mss"
    and "filter (\<lambda>b. nlmsg_seq b 0 = Some number) (concat mss) = enc_report number report @ d # rest"
    and "wf_report report" "nlmsg_type d 0 = Some NLMSG_DONE" "request_size report \<le> sum_list ns"
  shows "task_alone ntop (report_operation report) number buffer (map Sent ns) (answers mss)
    = Some (report_result ntop number report)"
proof (cases report)
  case (Link_Report es)
  then show ?thesis
    using dump_links_alone [of buffer mss number es d rest ns] assms by (auto simp: run_alone_def sent_and_result_def)
next
  case (Route_Report es)
  then show ?thesis
    using dump_routes_alone [of buffer mss number es d rest ns ntop] assms by (auto simp: run_alone_def sent_and_result_def)
next
  case (Address_Report es)
  then show ?thesis
    using dump_addresses_alone [of buffer mss number es d rest ns ntop] assms by (auto simp: run_alone_def sent_and_result_def)
next
  case (Neighbor_Report es)
  then show ?thesis
    using dump_neighbors_alone [of buffer mss number es d rest ns ntop] assms by (auto simp: run_alone_def sent_and_result_def)
qed

text \<open>The number on the wire is the one the task was made with, whatever it receives.\<close>

lemma sent_number:
  assumes "\<exists>bytes. request_payload (prepare_request s) = Some bytes \<and> nlmsg_seq bytes 0 = Some number"
    and "\<And>wire x. sent_bytes (con wire x) = wire"
    and "run_alone con (async_run prepare_request request_payload process buffer s sends recvs) = Some r"
    and "nlmsg_seq (sent_bytes r) 0 = Some q"
  shows "q = number"
proof -
  obtain bytes where b: "request_payload (prepare_request s) = Some bytes" "nlmsg_seq bytes 0 = Some number"
    using assms(1) by blast
  obtain x where x: "async_run prepare_request request_payload process buffer s sends recvs = Some (Some x)"
    and r: "r = sent_and_result con x"
    using assms(3) by (auto simp: run_alone_def split: option.splits)
  have "wire_of (task_result (async_run prepare_request request_payload process buffer s sends recvs)) = sent_bytes r"
    by (cases x) (simp add: x r task_result_def wire_of_def sent_and_result_def assms(2))
  then show ?thesis
    using task_wire [of request_payload prepare_request s, OF b, of process buffer sends recvs] assms(4) by simp
qed

lemma task_alone_number:
  assumes "task_alone ntop op number buffer sends recvs = Some r" "nlmsg_seq (sent_bytes r) 0 = Some q"
    and "\<not> shared op"
  shows "q = number"
proof (cases op)
  case Dump_Routes
  show ?thesis
    by (rule sent_number [OF payload_numbers(4) _ assms(1) [unfolded Dump_Routes task_alone.simps] assms(2)]) simp
next
  case Dump_Addresses
  show ?thesis
    by (rule sent_number [OF payload_numbers(2) _ assms(1) [unfolded Dump_Addresses task_alone.simps] assms(2)]) simp
next
  case Dump_Neighbors
  show ?thesis
    by (rule sent_number [OF payload_numbers(3) _ assms(1) [unfolded Dump_Neighbors task_alone.simps] assms(2)]) simp
next
  case Dump_Links
  show ?thesis
    by (rule sent_number [OF payload_numbers(1) _ assms(1) [unfolded Dump_Links task_alone.simps] assms(2)]) simp
qed (use assms(3) in \<open>simp_all add: shared_def\<close>)

lemma report_operation_own: "\<not> shared (report_operation report)"
  by (cases report) (simp_all add: shared_def)

text \<open>
  What a dump has completed with when the kernel has answered it: its request has gone out, in any
  pieces, and among the messages received, in any datagrams, those with its number are the entries
  of the report, the end of the dump, and anything after it.
\<close>

definition answered :: "completion list \<Rightarrow> u32 \<Rightarrow> report \<Rightarrow> bool" where
  "answered completions q report \<longleftrightarrow> wf_report report \<and> (\<exists>ns mss d rest.
     sends_of completions = map Sent ns \<and> request_size report \<le> sum_list ns
     \<and> recvs_of completions = answers mss \<and> wf_answer MAX_RESPONSE_BYTES mss
     \<and> filter (\<lambda>b. nlmsg_seq b 0 = Some q) (concat mss) = enc_report q report @ d # rest
     \<and> nlmsg_type d 0 = Some NLMSG_DONE)"

lemma answered_dump:
  assumes "machine_run ntop buffers es (machine_init c) = Some m"
    and "i < length (m_coroutines m)" "m_coroutines m ! i = Running (report_operation report) job"
    and "length (buffers i) = MAX_RESPONSE_BYTES"
    and "nlmsg_seq (sent_bytes (job_outcome job)) 0 = Some q" "answered (completions_of i es) q report"
  shows "job_outcome job = report_result ntop q report"
proof -
  obtain ns mss d rest where io: "sends_of (completions_of i es) = map Sent ns" "recvs_of (completions_of i es) = answers mss"
    and a: "request_size report \<le> sum_list ns" "wf_answer MAX_RESPONSE_BYTES mss" "nlmsg_type d 0 = Some NLMSG_DONE" "wf_report report"
    and f: "filter (\<lambda>b. nlmsg_seq b 0 = Some q) (concat mss) = enc_report q report @ d # rest"
    using assms(6) unfolding answered_def by blast
  obtain number where alone: "task_alone ntop (report_operation report) number (buffers i) (map Sent ns) (answers mss)
      = Some (job_outcome job)"
    using running_alone [OF assms(1-3)] unfolding io by blast
  have "q = number" by (rule task_alone_number [OF alone assms(5) report_operation_own])
  then show ?thesis
    using report_alone [OF assms(4) a(2) _ a(4,3,1)] f alone by simp
qed

section \<open>Properties\<close>

text \<open>
  C32. A dump among any other operations of the \<open>Control\<close>, probes and flushes and dumps that interleave
  with it, and \<open>stop()\<close>: when its request has gone out, and the kernel has answered it on its socket
  up to the end of the dump, it returns what it would return alone: of the entries the kernel reports,
  exactly those that \<open>link_keep\<close>, \<open>route_keep\<close>, \<open>address_keep\<close> or \<open>neighbor_keep\<close> accepts, in order. These
  are the entries with an index of the interface from 1 to 65535, and of the routes those of the main
  table.
\<close>

theorem concurrent_dump_complete:
  assumes "machine_run ntop buffers es (machine_init c) = Some m"
    and "i < length (m_coroutines m)" "m_coroutines m ! i = Running (report_operation report) job"
    and "length (buffers i) = MAX_RESPONSE_BYTES"
    and "nlmsg_seq (sent_bytes (job_outcome job)) 0 = Some q" "answered (completions_of i es) q report"
  shows "job_outcome job = report_result ntop q report"
  by (rule answered_dump [OF assms])

text \<open>A link dump, with a probe at the gate, and a stop while it reads.\<close>

definition one_dump :: "u8 list \<Rightarrow> control_event list" where
  "one_dump answer = [Arrive Dump_Links 0, Arrive (Probe_Neighbor 3 (replicate 16 1)) 0, Pass 0 None working,
     Complete 0 (Send_Completion (Sent 32)), Stop_Control working, Complete 0 (Receive_Completion (Received answer))]"

lemma one_dump_run:
  assumes "read_loop link_dump_process_message buffer (link_dump_prepare_request (link_dump_init 0 1)) [Received answer]
    = Some (Some (t, buffer', Some r))"
  shows "\<exists>m. machine_run ntop (\<lambda>_. buffer) (one_dump answer) (machine_init control_init) = Some m
    \<and> m_coroutines m = [Running Dump_Links (Link_Job (Ended
          (enc_msg RTM_GETLINK 0x301 1 0 (enc_ifinfomsg 0 0 0 0 0)) t r)), At_Gate (Probe_Neighbor 3 (replicate 16 1))]"
proof -
  obtain g where g: "ensure_open working (socket_guard_init ''nl-control-link'') = (g, Return (Inr ()))"
    using ensure_open_working by (metis prod.collapse)
  have "length (enc_msg ty fl seq pid body) \<noteq> 0" for ty fl seq pid body by simp
  then have ne: "enc_msg ty fl seq pid body \<noteq> []" for ty fl seq pid body by (simp only: length_0_conv not_False_eq_True)
  show ?thesis
    by (simp add: one_dump_def two_operations_simps ne g task_step_answer [OF assms] del: task_step.simps(4))
qed

lemma concurrent_dump_complete_witness:
  "let e = (2, 7, \<lparr>ifi_family = 0, ifi_type = 1, ifi_index = 2, ifi_flags = 0x1003, ifi_change = 0\<rparr>,
         [(IFLA_IFNAME, [101, 116, 104, 48, 0])]);
       done = enc_msg NLMSG_DONE 2 1 7 [0, 0, 0, 0]
   in \<exists>m job. machine_run (\<lambda>_ _. None) (\<lambda>_. replicate 65536 0) (one_dump (enc_datagram [enc_link_entry 1 e, done]))
          (machine_init control_init) = Some m
      \<and> m_coroutines m ! 0 = Running Dump_Links job
      \<and> job_outcome job = Link_Result (enc_msg RTM_GETLINK 0x301 1 0 (enc_ifinfomsg 0 0 0 0 0))
          (Some (Inr [\<lparr>link_type = NEW_LINK, link_index = 2, link_flags = 0x1003, link_change = 0, link_name = ''eth0''\<rparr>]))"
proof -
  let ?e = "(2, 7, \<lparr>ifi_family = 0, ifi_type = 1, ifi_index = 2, ifi_flags = 0x1003, ifi_change = 0\<rparr>,
    [(IFLA_IFNAME, [101, 116, 104, 48, 0])]) :: link_entry"
  let ?done = "enc_msg NLMSG_DONE 2 1 7 [0, 0, 0, 0]" and ?m = "replicate 65536 0 :: mem"
  let ?req = "enc_msg RTM_GETLINK 0x301 1 0 (enc_ifinfomsg 0 0 0 0 0)"
  let ?ms = "[enc_link_entry 1 ?e, ?done]"
  have len: "length ?m = MAX_RESPONSE_BYTES" by (simp add: MAX_RESPONSE_BYTES_def)
  have wf: "wf_answer MAX_RESPONSE_BYTES [?ms]" "list_all wf_link_entry [?e]"
    by (simp_all add: concrete_defs enc_link_entry_def bytes_ifinfomsg_def wf_link_entry_def wf_link_attrs_def is_ifname_def)
  have own: "filter (\<lambda>b. nlmsg_seq b 0 = Some 1) (concat [?ms]) = map (enc_link_entry 1) [?e] @ ?done # []"
    "nlmsg_type ?done 0 = Some NLMSG_DONE"
    by (simp_all add: concrete_defs enc_link_entry_def)
  obtain t where "async_run link_dump_prepare_request link_request_payload link_dump_process_message
      ?m (link_dump_init 0 1) (map Sent [32]) (answers [?ms]) = Some (Some (?req, t, Some (Inr (filter link_keep (map link_of_entry [?e])))))"
    using dump_links_alone [OF len wf(1) own(1) wf(2) own(2), of "[32]"] by auto
  then obtain b where "read_loop link_dump_process_message ?m (link_dump_prepare_request (link_dump_init 0 1)) [Received (enc_datagram ?ms)]
      = Some (Some (t, b, Some (Inr (filter link_keep (map link_of_entry [?e])))))"
    by (auto simp: async_run_def link_dump_payload send_request.simps Let_def split: option.splits prod.splits)
  then obtain m where m: "machine_run (\<lambda>_ _. None) (\<lambda>_. ?m) (one_dump (enc_datagram ?ms)) (machine_init control_init) = Some m"
    and co: "m_coroutines m = [Running Dump_Links (Link_Job (Ended ?req t (Inr (filter link_keep (map link_of_entry [?e]))))),
      At_Gate (Probe_Neighbor 3 (replicate 16 1))]"
    using one_dump_run by blast
  let ?job = "Link_Job (Ended ?req t (Inr (filter link_keep (map link_of_entry [?e]))))"
  have io: "sends_of (completions_of 0 (one_dump answer)) = map Sent [32]"
    "recvs_of (completions_of 0 (one_dump answer)) = [Received answer]" for answer
    by (simp_all add: one_dump_def completions_of_def sends_of_def recvs_of_def)
  have running: "0 < length (m_coroutines m)" "m_coroutines m ! 0 = Running (report_operation (Link_Report [?e])) ?job"
    by (simp_all only: co nth_Cons_0 report_operation.simps list.size)
  have seq: "nlmsg_seq (sent_bytes (job_outcome ?job)) 0 = Some 1"
    by (simp only: job_outcome.simps task_outcome.simps sent_and_result_def fst_conv sent_bytes.simps nlmsghdr_enc_msg)
  have answer: "filter (\<lambda>b. nlmsg_seq b 0 = Some 1) (concat [?ms]) = enc_report 1 (Link_Report [?e]) @ ?done # []"
    "wf_report (Link_Report [?e])"
    by (simp_all only: own(1) enc_report.simps wf_report.simps wf(2))
  have "answered (completions_of 0 (one_dump (enc_datagram ?ms))) 1 (Link_Report [?e])"
    unfolding answered_def
    by (intro conjI exI [of _ "[32]"] exI [of _ "[?ms]"] exI [of _ ?done] exI [of _ "[]"] answer io(1) wf(1) own(2))
      (simp_all only: io list.map, simp)
  from concurrent_dump_complete [OF m running len seq this]
  have "job_outcome ?job = report_result (\<lambda>_ _. None) 1 (Link_Report [?e])" .
  moreover have "filter link_keep (map link_of_entry [?e])
      = [\<lparr>link_type = NEW_LINK, link_index = 2, link_flags = 0x1003, link_change = 0, link_name = ''eth0''\<rparr>]"
    by (simp add: link_of_entry_def link_keep_def text_defs is_ifname_def)
  ultimately have "m_coroutines m ! 0 = Running Dump_Links ?job \<and> job_outcome ?job = Link_Result ?req
      (Some (Inr [\<lparr>link_type = NEW_LINK, link_index = 2, link_flags = 0x1003, link_change = 0, link_name = ''eth0''\<rparr>]))"
    by (simp add: co)
  with m show ?thesis unfolding Let_def by blast
qed

end
