(* ===== verification/Examples.thy ===== *)
theory Examples
  imports Control_Dumps
begin

text \<open>
  The two example programs (\<open>examples/nl_control_example.cxx\<close>, \<open>examples/nl_listener_example.cxx\<close>):
  what they print, as what has been written so far to the two output streams of the process. The
  text of an error code, \<open>std::error_code::message\<close>, is a parameter.
\<close>

section \<open>Output\<close>

record streams =
  out :: string
  err :: string

definition put :: "string \<Rightarrow> streams \<Rightarrow> streams" where
  "put s st = st\<lparr>out := out st @ s\<rparr>"

definition put_err :: "string \<Rightarrow> streams \<Rightarrow> streams" where
  "put_err s st = st\<lparr>err := err st @ s\<rparr>"

abbreviation nl :: string where "nl \<equiv> [CHR 0x0A]"

text \<open>Numbers in decimal, as the streams print them.\<close>

definition dec_int :: "int \<Rightarrow> string" where
  "dec_int i = (if i < 0 then ''-'' else '''') @ dec_string (nat \<bar>i\<bar>)"

abbreviation dec_word :: "'a::len word \<Rightarrow> string" where
  "dec_word w \<equiv> dec_string (unat w)"

lemma put_simps [simp]:
  "out (put s st) = out st @ s" "err (put s st) = err st"
  "out (put_err s st) = out st" "err (put_err s st) = err st @ s"
  by (simp_all add: put_def put_err_def)

section \<open>The control example\<close>

definition neighbor_line :: "neighbor_event \<Rightarrow> string" where
  "neighbor_line n = ''ifindex='' @ dec_int (neighbor_index n) @ '' addr='' @ neighbor_address n
     @ '' state='' @ state_to_string n @ nl"

definition route_line :: "route_event \<Rightarrow> string" where
  "route_line r = ''dst='' @ route_dst r @ '' gateway='' @ route_gateway r @ '' oif='' @ route_oif r
     @ '' table='' @ dec_word (route_table r) @ '' proto='' @ dec_word (route_protocol r) @ nl"

definition address_line :: "address_event \<Rightarrow> string" where
  "address_line a = ''ifindex='' @ dec_int (address_index a) @ '' addr='' @ address_address a
     @ '' prefix_len='' @ dec_word (address_prefix_len a) @ '' label='' @ address_label a @ nl"

definition link_line :: "link_event \<Rightarrow> string" where
  "link_line l = ''ifindex='' @ dec_int (link_index l) @ '' name='' @ link_name l
     @ '' flags='' @ dec_word (link_flags l) @ '' change='' @ dec_word (link_change l) @ nl"

text \<open>
  Each coroutine awaits the dump and prints its list, or the error. An exception leaves the
  coroutine, and \<open>asio::detached\<close> drops it.
\<close>

definition example_report ::
  "(error_code \<Rightarrow> string) \<Rightarrow> string \<Rightarrow> string \<Rightarrow> ('e \<Rightarrow> string) \<Rightarrow> 'e list returned \<Rightarrow> streams \<Rightarrow> streams" where
  "example_report message operation heading line r st = (case r of
     Returned (Inl ec) \<Rightarrow> put_err (operation @ '' failed: '' @ message ec @ nl) st
   | Returned (Inr events) \<Rightarrow>
       fold (\<lambda>e. put (line e)) events (put (heading @ '': '' @ dec_string (length events) @ nl) st)
   | Rethrown _ _ \<Rightarrow> st
   | Still_Waiting \<Rightarrow> st)"

definition example_dump_neighbors ::
  "(error_code \<Rightarrow> string) \<Rightarrow> inet_ntop \<Rightarrow> gate_pass \<Rightarrow> os \<Rightarrow> mem \<Rightarrow> send_outcome list \<Rightarrow> recv_outcome list
    \<Rightarrow> control \<times> streams \<Rightarrow> (control \<times> streams) ub" where
  "example_dump_neighbors message ntop wait os buffer sends recvs = (\<lambda>(c, st).
     case async_dump_neighbors ntop wait os buffer sends recvs c of
       (c, None) \<Rightarrow> None
     | (c, Some r) \<Rightarrow> Some (c, example_report message ''async_dump_neighbors'' ''Neighbors'' neighbor_line r st))"

definition example_dump_routes ::
  "(error_code \<Rightarrow> string) \<Rightarrow> inet_ntop \<Rightarrow> gate_pass \<Rightarrow> os \<Rightarrow> mem \<Rightarrow> send_outcome list \<Rightarrow> recv_outcome list
    \<Rightarrow> control \<times> streams \<Rightarrow> (control \<times> streams) ub" where
  "example_dump_routes message ntop wait os buffer sends recvs = (\<lambda>(c, st).
     case async_dump_routes ntop wait os buffer sends recvs c of
       (c, None) \<Rightarrow> None
     | (c, Some r) \<Rightarrow> Some (c, example_report message ''async_dump_routes'' ''Routes'' route_line r st))"

definition example_dump_addresses ::
  "(error_code \<Rightarrow> string) \<Rightarrow> inet_ntop \<Rightarrow> gate_pass \<Rightarrow> os \<Rightarrow> mem \<Rightarrow> send_outcome list \<Rightarrow> recv_outcome list
    \<Rightarrow> control \<times> streams \<Rightarrow> (control \<times> streams) ub" where
  "example_dump_addresses message ntop wait os buffer sends recvs = (\<lambda>(c, st).
     case async_dump_addresses ntop wait os buffer sends recvs c of
       (c, None) \<Rightarrow> None
     | (c, Some r) \<Rightarrow> Some (c, example_report message ''async_dump_addresses'' ''Addresses'' address_line r st))"

definition example_dump_links ::
  "(error_code \<Rightarrow> string) \<Rightarrow> gate_pass \<Rightarrow> os \<Rightarrow> mem \<Rightarrow> send_outcome list \<Rightarrow> recv_outcome list
    \<Rightarrow> control \<times> streams \<Rightarrow> (control \<times> streams) ub" where
  "example_dump_links message wait os buffer sends recvs = (\<lambda>(c, st).
     case async_dump_links wait os buffer sends recvs c of
       (c, None) \<Rightarrow> None
     | (c, Some r) \<Rightarrow> Some (c, example_report message ''async_dump_links'' ''Links'' link_line r st))"

lemma fold_put: "fold (\<lambda>e. put (line e)) events st = put (concat (map line events)) st"
  by (induction events arbitrary: st) (simp_all add: put_def)

lemma report_list:
  "example_report message operation heading line (Returned (Inr events)) st
    = put (heading @ '': '' @ dec_string (length events) @ nl @ concat (map line events)) st"
  by (simp add: example_report_def fold_put put_def)

section \<open>The listener example\<close>

text \<open>The enumerators of the types of events, cast to \<open>int\<close>.\<close>

fun link_type_number :: "link_event_type \<Rightarrow> nat" where
  "link_type_number LINK_UNKNOWN = 0"
| "link_type_number NEW_LINK = unat RTM_NEWLINK"
| "link_type_number DELETE_LINK = unat RTM_DELLINK"

fun address_type_number :: "address_event_type \<Rightarrow> nat" where
  "address_type_number ADDRESS_UNKNOWN = 0"
| "address_type_number NEW_ADDRESS = unat RTM_NEWADDR"
| "address_type_number DELETE_ADDRESS = unat RTM_DELADDR"

fun neighbor_type_number :: "neighbor_event_type \<Rightarrow> nat" where
  "neighbor_type_number NEIGHBOR_UNKNOWN = 0"
| "neighbor_type_number NEW_NEIGHBOR = unat RTM_NEWNEIGH"
| "neighbor_type_number DELETE_NEIGHBOR = unat RTM_DELNEIGH"

fun route_type_number :: "route_event_type \<Rightarrow> nat" where
  "route_type_number ROUTE_UNKNOWN = 0"
| "route_type_number NEW_ROUTE = unat RTM_NEWROUTE"
| "route_type_number DELETE_ROUTE = unat RTM_DELROUTE"

definition print_link_event :: "(link_event, unit, streams) slot" where
  "print_link_event ev st = (put (''LinkEvent: type='' @ dec_string (link_type_number (link_type ev))
     @ '' ifindex='' @ dec_int (link_index ev) @ '' name='' @ link_name ev
     @ '' flags='' @ dec_word (link_flags ev) @ '' change='' @ dec_word (link_change ev) @ nl) st, Value ())"

definition print_address_event :: "(address_event, unit, streams) slot" where
  "print_address_event ev st = (put (''AddressEvent: type='' @ dec_string (address_type_number (address_type ev))
     @ '' ifindex='' @ dec_int (address_index ev) @ '' family='' @ dec_word (address_family ev)
     @ '' addr='' @ address_address ev @ '' prefix_len='' @ dec_word (address_prefix_len ev)
     @ '' label='' @ address_label ev @ nl) st, Value ())"

definition print_neighbor_event :: "(neighbor_event, unit, streams) slot" where
  "print_neighbor_event ev st = (put (''NeighborEvent: type='' @ dec_string (neighbor_type_number (neighbor_type ev))
     @ '' ifindex='' @ dec_int (neighbor_index ev) @ '' addr='' @ neighbor_address ev
     @ '' lladdr='' @ neighbor_lladdr ev @ '' state='' @ state_to_string ev @ nl) st, Value ())"

definition print_route_event :: "(route_event, unit, streams) slot" where
  "print_route_event ev st = (put (''RouteEvent: type='' @ dec_string (route_type_number (route_type ev))
     @ '' dst='' @ route_dst ev @ '' gateway='' @ route_gateway ev @ '' oif='' @ route_oif ev
     @ '' table='' @ dec_word (route_table ev) @ nl) st, Value ())"

definition print_error :: "(nlmsgerr \<times> nlmsghdr, unit, streams) slot" where
  "print_error = (\<lambda>_ st. (put_err (''Received netlink error message'' @ nl) st, Value ()))"

text \<open>\<open>main\<close> up to the start of the listener, and the handler of the interrupt.\<close>

definition listener_example :: "streams listener" where
  "listener_example =
     (let l = listener_init \<lparr>out = [], err = []\<rparr>;
          l = fst (connect_to_link_event print_link_event Sync l);
          l = fst (connect_to_address_event print_address_event Sync l);
          l = fst (connect_to_neighbor_event print_neighbor_event Sync l);
          l = fst (connect_to_route_event print_route_event Sync l);
          l = fst (connect_to_error print_error Sync l)
      in l)"

definition listener_example_interrupt :: "os \<Rightarrow> streams listener \<Rightarrow> streams listener" where
  "listener_example_interrupt os l =
     (let l = l\<lparr>l_app := apfst (put (''Stopping listener...'' @ nl)) (l_app l)\<rparr>
      in listener_stop os l)"

text \<open>What a notification adds to the streams.\<close>

fun print_notification :: "notification \<Rightarrow> streams \<Rightarrow> streams" where
  "print_notification (N_Link ev) st = fst (print_link_event ev st)"
| "print_notification (N_Address ev) st = fst (print_address_event ev st)"
| "print_notification (N_Route ev) st = fst (print_route_event ev st)"
| "print_notification (N_Neighbor ev) st = fst (print_neighbor_event ev st)"
| "print_notification (N_Error e hdr) st = fst (print_error (e, hdr) st)"

lemma listener_example_signals:
  "connections (on_link_event (l_signals listener_example)) = [(0, Sync, print_link_event)]"
  "connections (on_address_event (l_signals listener_example)) = [(0, Sync, print_address_event)]"
  "connections (on_route_event (l_signals listener_example)) = [(0, Sync, print_route_event)]"
  "connections (on_neighbor_event (l_signals listener_example)) = [(0, Sync, print_neighbor_event)]"
  "connections (on_nlmsgerr_event (l_signals listener_example)) = [(0, Sync, print_error)]"
  by (simp_all add: listener_example_def connect_to_link_event_def connect_to_address_event_def
      connect_to_neighbor_event_def connect_to_route_event_def connect_to_error_def connect_def
      listener_init_def signal_init_def)

lemmas print_defs = print_link_event_def print_address_event_def print_route_event_def
  print_neighbor_event_def print_error_def

lemma listener_example_state:
  "\<not> l_running listener_example" "l_guard listener_example = socket_guard_init ''nl-listener''"
  "outstanding listener_example = 0" "length (l_buffer listener_example) = BUFFER_SIZE"
  "quiet (l_signals listener_example)" "l_app listener_example = (\<lparr>out = [], err = []\<rparr>, [])"
proof -
  show "quiet (l_signals listener_example)"
    by (simp add: quiet_def never_raises_def listener_example_signals print_defs)
qed (simp_all add: listener_example_def connect_to_link_event_def connect_to_address_event_def
      connect_to_neighbor_event_def connect_to_route_event_def connect_to_error_def connect_def
      listener_init_def outstanding_def)

lemma example_notify:
  "fst (notify (l_signals listener_example) n (st, jobs)) = (print_notification n st, jobs)"
  by (cases n) (simp_all add: emit_void_def listener_example_signals slot_call_void_def emission_def print_defs)

lemma example_deliver:
  "deliver (l_signals listener_example) ns (st, jobs) = (fold print_notification ns st, jobs)"
  unfolding deliver_def by (induction ns arbitrary: st) (simp_all add: example_notify)

text \<open>
  The lines a user is to see: for each notification, what appears on the standard output, and what on
  the error stream.
\<close>

fun change_line :: "notification \<Rightarrow> string" where
  "change_line (N_Link ev) = ''LinkEvent: type='' @ dec_string (link_type_number (link_type ev))
     @ '' ifindex='' @ dec_int (link_index ev) @ '' name='' @ link_name ev
     @ '' flags='' @ dec_word (link_flags ev) @ '' change='' @ dec_word (link_change ev) @ nl"
| "change_line (N_Address ev) = ''AddressEvent: type='' @ dec_string (address_type_number (address_type ev))
     @ '' ifindex='' @ dec_int (address_index ev) @ '' family='' @ dec_word (address_family ev)
     @ '' addr='' @ address_address ev @ '' prefix_len='' @ dec_word (address_prefix_len ev)
     @ '' label='' @ address_label ev @ nl"
| "change_line (N_Neighbor ev) = ''NeighborEvent: type='' @ dec_string (neighbor_type_number (neighbor_type ev))
     @ '' ifindex='' @ dec_int (neighbor_index ev) @ '' addr='' @ neighbor_address ev
     @ '' lladdr='' @ neighbor_lladdr ev @ '' state='' @ state_to_string ev @ nl"
| "change_line (N_Route ev) = ''RouteEvent: type='' @ dec_string (route_type_number (route_type ev))
     @ '' dst='' @ route_dst ev @ '' gateway='' @ route_gateway ev @ '' oif='' @ route_oif ev
     @ '' table='' @ dec_word (route_table ev) @ nl"
| "change_line (N_Error e hdr) = []"

fun error_line :: "notification \<Rightarrow> string" where
  "error_line (N_Error e hdr) = ''Received netlink error message'' @ nl"
| "error_line _ = []"

lemma print_notification_lines:
  "fold print_notification ns st
    = st\<lparr>out := out st @ concat (map change_line ns), err := err st @ concat (map error_line ns)\<rparr>"
proof (induction ns arbitrary: st)
  case Nil
  then show ?case by simp
next
  case (Cons n ns)
  then show ?case by (cases n) (simp_all add: print_defs put_def put_err_def)
qed

section \<open>Properties\<close>

text \<open>
  The link coroutine of the control example prints the number of the links the kernel has
  reported and that the dump keeps, and then one line for each of them, in order, with its index,
  name and flags; nothing goes to the error stream.
\<close>

lemma control_example_prints_links:
  assumes "enter_gate wait c = Some c1"
    and "snd (ensure_open os (socket_guard_init ''nl-control-link'')) = Return (Inr ())"
    and "length buffer = MAX_RESPONSE_BYTES" "wf_answer MAX_RESPONSE_BYTES mss"
    and "filter (\<lambda>b. nlmsg_seq b 0 = Some (c_sequence c)) (concat mss)
      = map (enc_link_entry (c_sequence c)) es @ d # rest"
    and "list_all wf_link_entry es"
    and "nlmsg_type d 0 = Some NLMSG_DONE" "32 \<le> sum_list ns"
    and "links = filter link_keep (map link_of_entry es)"
  shows "example_dump_links message wait os buffer (map Sent ns) (answers mss) (c, st)
    = Some (c1\<lparr>c_sequence := c_sequence c + 1\<rparr>,
        st\<lparr>out := out st @ ''Links: '' @ dec_string (length links) @ nl @ concat (map link_line links)\<rparr>)"
  unfolding example_dump_links_def prod.case async_dump_links_def dump_links_run [OF assms(1-8)]
    assms(9) [symmetric]
  by (simp add: co_await_spawned_def report_list put_def)

lemma control_example_prints_links_witness:
  "let e = (2, 7, \<lparr>ifi_family = 0, ifi_type = 1, ifi_index = 2, ifi_flags = 0x1003, ifi_change = 0\<rparr>,
         [(IFLA_IFNAME, [101, 116, 104, 48, 0])]);
       done = enc_msg NLMSG_DONE 2 1 7 [0, 0, 0, 0]
   in map_option (out \<circ> snd) (example_dump_links (\<lambda>_. ''error'') at_once working (replicate 65536 0) (map Sent [32])
        (answers [[enc_link_entry 1 e, done]]) (control_init, \<lparr>out = [], err = []\<rparr>))
      = Some (''Links: 1'' @ nl @ ''ifindex=2 name=eth0 flags=4099 change=0'' @ nl)"
  unfolding Let_def
  by (subst control_example_prints_links [OF enter_gate_init ensure_open_working, where es = "[(2, 7, \<lparr>ifi_family = 0, ifi_type = 1,
        ifi_index = 2, ifi_flags = 0x1003, ifi_change = 0\<rparr>, [(IFLA_IFNAME, [101, 116, 104, 48, 0])])]"
      and d = "enc_msg NLMSG_DONE 2 1 7 [0, 0, 0, 0]" and rest = "[]", OF _ _ _ _ _ _ refl])
    (simp_all add: control_init_def concrete_defs enc_link_entry_def bytes_ifinfomsg_def wf_link_entry_def
      wf_link_attrs_def is_ifname_def link_of_entry_def link_keep_def text_defs link_line_def dec_int_def
      dec_string.simps)

text \<open>
  C30. The listener example prints the line \<open>change_line\<close> for every message of every datagram the
  listener receives that tells a change of a link, an address, a neighbor or a route, in order, and
  \<open>error_line\<close> on the error stream for every error of the kernel, and nothing else; on the interrupt
  it says so, stops the listener and closes its socket.
\<close>

theorem listener_example_prints:
  assumes "snd (ensure_open os (socket_guard_init ''nl-listener'')) = Return (Inr ())"
    and "list_all (\<lambda>msgs. list_all (\<lambda>b. wf_msg b \<and> notification_of ntop b 0 \<noteq> None) msgs
      \<and> length (enc_datagram msgs) \<le> BUFFER_SIZE) mss"
  shows "\<exists>l'. acts (Start os # concat (map (\<lambda>msgs. [Receive (enc_datagram msgs), Run_Handler ntop]) mss)) listener_example = Some l'
    \<and> (let l'' = listener_example_interrupt os' l'
       in out (fst (l_app l'')) = concat (map change_line (notifications ntop (concat mss))) @ ''Stopping listener...'' @ nl
          \<and> err (fst (l_app l'')) = concat (map error_line (notifications ntop (concat mss)))
          \<and> \<not> l_running l'' \<and> \<not> is_open (guard_socket (l_guard l'')))"
proof -
  have "snd (ensure_open os (l_guard listener_example)) = Return (Inr ())"
    by (simp only: listener_example_state(2) assms(1))
  from listener_run [OF listener_example_state(1) this listener_example_state(3,4,5) assms(2)]
  show ?thesis
    using guard_stop_closed
    by (auto simp: listener_example_state(6) example_deliver listener_example_interrupt_def listener_stop_def
        print_notification_lines put_def Let_def)
qed

lemma listener_example_prints_witness:
  "\<exists>l'. acts [Start working, Receive (enc_datagram [lo_message]), Run_Handler (\<lambda>_ _. None)] listener_example = Some l'
      \<and> out (fst (l_app (listener_example_interrupt working l')))
        = ''LinkEvent: type=16 ifindex=2 name=lo flags=3 change=0'' @ nl @ ''Stopping listener...'' @ nl"
proof -
  let ?ntop = "\<lambda>_ _. None :: string option"
  have "length (enc_datagram [lo_message]) \<le> BUFFER_SIZE"
    using lo_message(3) by (simp add: BUFFER_SIZE_def)
  then have all: "list_all (\<lambda>msgs. list_all (\<lambda>b. wf_msg b \<and> notification_of ?ntop b 0 \<noteq> None) msgs
      \<and> length (enc_datagram msgs) \<le> BUFFER_SIZE) [[lo_message]]"
    by (simp add: lo_message(1,2))
  have ns: "notifications ?ntop (concat [[lo_message]]) = [N_Link lo_event]"
    by (simp add: notifications_def lo_message(2))
  have line: "concat (map change_line [N_Link lo_event]) = ''LinkEvent: type=16 ifindex=2 name=lo flags=3 change=0'' @ nl"
    by (simp add: lo_event_def dec_int_def dec_string.simps char_of_def bit_Suc_0_iff)
  from listener_example_prints [OF ensure_open_working all, of working] obtain l' where
    "acts [Start working, Receive (enc_datagram [lo_message]), Run_Handler ?ntop] listener_example = Some l'"
    "out (fst (l_app (listener_example_interrupt working l'))) = concat (map change_line [N_Link lo_event]) @ ''Stopping listener...'' @ nl"
    unfolding ns Let_def by (simp only: list.map concat.simps append.simps append_Nil2) blast
  then show ?thesis by (intro exI [of _ l']) (simp only: line append_assoc simp_thms)
qed

end
