(* ===== verification/Control_Example.thy ===== *)
theory Control_Example
  imports Examples Concurrent_Dumps
begin

text \<open>
  The control example (\<open>examples/nl_control_example.cxx\<close>) as a whole: the four coroutines that \<open>main\<close>
  spawns run at the same time on one \<open>Control\<close>, and each prints what its dump returns, when it is
  resumed. That is some time after the dump has ended: in which order the executor resumes
  coroutines whose dumps have ended is left open. When all four have ended, \<open>main\<close> joins the thread
  and returns.
\<close>

section \<open>The program\<close>

text \<open>The order in which \<open>main\<close> spawns its coroutines.\<close>

definition example_spawns :: "operation list" where
  "example_spawns = [Dump_Addresses, Dump_Routes, Dump_Neighbors, Dump_Links]"

fun print_result :: "(error_code \<Rightarrow> string) \<Rightarrow> job_result \<Rightarrow> streams \<Rightarrow> streams" where
  "print_result message (Address_Result wire (Some r)) st =
     example_report message ''async_dump_addresses'' ''Addresses'' address_line (Returned r) st"
| "print_result message (Route_Result wire (Some r)) st =
     example_report message ''async_dump_routes'' ''Routes'' route_line (Returned r) st"
| "print_result message (Neighbor_Result wire (Some r)) st =
     example_report message ''async_dump_neighbors'' ''Neighbors'' neighbor_line (Returned r) st"
| "print_result message (Link_Result wire (Some r)) st =
     example_report message ''async_dump_links'' ''Links'' link_line (Returned r) st"
| "print_result message _ st = st"

text \<open>A dump that could not start has the error of its socket for a result.\<close>

fun error_result :: "operation \<Rightarrow> error_code \<Rightarrow> job_result option" where
  "error_result Dump_Addresses ec = Some (Address_Result [] (Some (Inl ec)))"
| "error_result Dump_Routes ec = Some (Route_Result [] (Some (Inl ec)))"
| "error_result Dump_Neighbors ec = Some (Neighbor_Result [] (Some (Inl ec)))"
| "error_result Dump_Links ec = Some (Link_Result [] (Some (Inl ec)))"
| "error_result _ ec = None"

text \<open>\<open>None\<close>: the dump has not ended. An exception ends the coroutine, and \<open>asio::detached\<close> drops it.\<close>

fun example_resumed :: "(error_code \<Rightarrow> string) \<Rightarrow> coroutine \<Rightarrow> streams \<Rightarrow> streams option" where
  "example_resumed message (At_Gate op) st = None"
| "example_resumed message (Refused op (Throw what ec)) st = Some st"
| "example_resumed message (Refused op (Return (Inl ec))) st =
     map_option (\<lambda>r. print_result message r st) (error_result op ec)"
| "example_resumed message (Refused op (Return (Inr _))) st = None"
| "example_resumed message (Running op job) st =
     (if job_wants job = None then Some (print_result message (job_outcome job) st) else None)"

record example =
  e_machine :: machine
  e_streams :: streams
  e_printed :: "nat list"

definition example_init :: example where
  "example_init = \<lparr>e_machine = machine_init control_init, e_streams = \<lparr>out = [], err = []\<rparr>, e_printed = []\<rparr>"

datatype example_event = In_Control control_event | Print nat

text \<open>What may happen in the \<open>Control\<close>: the four arrive in the order they are spawned; nobody stops it.\<close>

fun example_allows :: "control_event \<Rightarrow> coroutine list \<Rightarrow> bool" where
  "example_allows (Arrive op now) cs \<longleftrightarrow> length cs < length example_spawns \<and> op = example_spawns ! length cs"
| "example_allows (Stop_Control os) cs \<longleftrightarrow> False"
| "example_allows _ cs \<longleftrightarrow> True"

fun example_step :: "(error_code \<Rightarrow> string) \<Rightarrow> inet_ntop \<Rightarrow> (nat \<Rightarrow> mem) \<Rightarrow> example_event \<Rightarrow> example \<Rightarrow> example option" where
  "example_step message ntop buffers (In_Control e) x =
     (if example_allows e (m_coroutines (e_machine x))
      then map_option (\<lambda>m. x\<lparr>e_machine := m\<rparr>) (machine_step ntop buffers e (e_machine x))
      else None)"
| "example_step message ntop buffers (Print i) x =
     (if i < length (m_coroutines (e_machine x)) \<and> i \<notin> set (e_printed x)
      then map_option (\<lambda>st. x\<lparr>e_streams := st, e_printed := e_printed x @ [i]\<rparr>)
        (example_resumed message (m_coroutines (e_machine x) ! i) (e_streams x))
      else None)"

fun example_run :: "(error_code \<Rightarrow> string) \<Rightarrow> inet_ntop \<Rightarrow> (nat \<Rightarrow> mem) \<Rightarrow> example_event list \<Rightarrow> example \<Rightarrow> example option" where
  "example_run message ntop buffers [] x = Some x"
| "example_run message ntop buffers (e # es) x =
     (case example_step message ntop buffers e x of None \<Rightarrow> None | Some x' \<Rightarrow> example_run message ntop buffers es x')"

text \<open>All four have been spawned and have ended: \<open>io.run()\<close> returns, and so does \<open>main\<close>.\<close>

definition example_over :: "example \<Rightarrow> bool" where
  "example_over x \<longleftrightarrow> length (e_printed x) = length example_spawns"

lemma example_run_snoc:
  "example_run message ntop buffers (es @ [e]) x
    = (case example_run message ntop buffers es x of None \<Rightarrow> None | Some x' \<Rightarrow> example_step message ntop buffers e x')"
  by (induction es arbitrary: x) (auto split: option.split)

section \<open>The invariant\<close>

text \<open>What happens in the \<open>Control\<close> among all events.\<close>

fun in_control :: "example_event \<Rightarrow> control_event list" where
  "in_control (In_Control e) = [e]"
| "in_control (Print i) = []"

definition control_events :: "example_event list \<Rightarrow> control_event list" where
  "control_events es = concat (map in_control es)"

lemma control_events_snoc [simp]:
  "control_events [] = []" "control_events (es @ [e]) = control_events es @ in_control e"
  by (simp_all add: control_events_def)

text \<open>A coroutine that has ended stays as it is.\<close>

definition ended :: "coroutine \<Rightarrow> bool" where
  "ended co \<longleftrightarrow> (case co of At_Gate op \<Rightarrow> False | Refused op r \<Rightarrow> True | Running op job \<Rightarrow> job_wants job = None)"

lemma ended_stays:
  assumes "machine_step ntop buffers e m = Some m'" "i < length (m_coroutines m)" "ended (m_coroutines m ! i)"
  shows "i < length (m_coroutines m') \<and> m_coroutines m' ! i = m_coroutines m ! i"
  using machine_step_view [OF assms(1)] assms(2,3)
  by (cases rule: view_step.cases)
    (auto simp: view_def nth_append nth_list_update ended_def dest: job_resume_direction)

text \<open>What a coroutine prints, once it has ended.\<close>

definition example_print :: "(error_code \<Rightarrow> string) \<Rightarrow> coroutine \<Rightarrow> streams \<Rightarrow> streams" where
  "example_print message co st = (case example_resumed message co st of Some st' \<Rightarrow> st' | None \<Rightarrow> st)"

definition printed_so_far :: "(error_code \<Rightarrow> string) \<Rightarrow> example \<Rightarrow> bool" where
  "printed_so_far message x \<longleftrightarrow>
     e_streams x = fold (\<lambda>i. example_print message (m_coroutines (e_machine x) ! i)) (e_printed x) \<lparr>out = [], err = []\<rparr>
     \<and> distinct (e_printed x)
     \<and> (\<forall>i \<in> set (e_printed x). i < length (m_coroutines (e_machine x)) \<and> ended (m_coroutines (e_machine x) ! i))
     \<and> map operation_of (m_coroutines (e_machine x)) = take (length (m_coroutines (e_machine x))) example_spawns
     \<and> length (m_coroutines (e_machine x)) \<le> length example_spawns"

lemma printed_control:
  assumes "printed_so_far message x" "machine_step ntop buffers e (e_machine x) = Some m"
    and "example_allows e (m_coroutines (e_machine x))"
  shows "printed_so_far message (x\<lparr>e_machine := m\<rparr>)"
proof -
  let ?cs = "m_coroutines (e_machine x)" and ?cs' = "m_coroutines m"
  have old: "distinct (e_printed x)" "\<And>i. i \<in> set (e_printed x) \<Longrightarrow> i < length ?cs \<and> ended (?cs ! i)"
    "map operation_of ?cs = take (length ?cs) example_spawns" "length ?cs \<le> length example_spawns"
    "e_streams x = fold (\<lambda>i. example_print message (?cs ! i)) (e_printed x) \<lparr>out = [], err = []\<rparr>"
    using assms(1) by (auto simp: printed_so_far_def)
  have stays: "i < length ?cs' \<and> ?cs' ! i = ?cs ! i" if "i \<in> set (e_printed x)" for i
    using ended_stays [OF assms(2)] old(2) [OF that] by blast
  have "fold (\<lambda>i. example_print message (?cs' ! i)) (e_printed x) \<lparr>out = [], err = []\<rparr>
      = fold (\<lambda>i. example_print message (?cs ! i)) (e_printed x) \<lparr>out = [], err = []\<rparr>"
    by (rule fold_cong) (use stays in auto)
  moreover have "map operation_of ?cs' = take (length ?cs') example_spawns \<and> length ?cs' \<le> length example_spawns"
  proof -
    have ops: "map operation_of ?cs' = map operation_of ?cs @ (case e of Arrive op now \<Rightarrow> [op] | _ \<Rightarrow> [])"
      using view_operations [OF machine_step_view [OF assms(2)]] by (simp add: view_def)
    have "length ?cs' = length ?cs + (case e of Arrive op now \<Rightarrow> 1 | _ \<Rightarrow> 0)"
      using arg_cong [OF ops, of length] by (simp split: control_event.splits)
    then show ?thesis
      unfolding ops using assms(3) old(3,4) by (cases e) (simp_all add: take_Suc_conv_app_nth)
  qed
  ultimately show ?thesis
    using old(1,2,5) stays by (simp add: printed_so_far_def)
qed

lemma printed_step:
  assumes "printed_so_far message x" "example_step message ntop buffers e x = Some x'"
  shows "printed_so_far message x'"
proof (cases e)
  case (In_Control e')
  then show ?thesis using assms printed_control [OF assms(1)] by (auto split: if_splits)
next
  case (Print i)
  let ?co = "m_coroutines (e_machine x) ! i"
  obtain st where i: "i < length (m_coroutines (e_machine x))" "i \<notin> set (e_printed x)"
    and st: "example_resumed message ?co (e_streams x) = Some st"
    and x': "x' = x\<lparr>e_streams := st, e_printed := e_printed x @ [i]\<rparr>"
    using assms(2) Print by (auto split: if_splits)
  have "ended ?co" using st by (cases ?co) (auto simp: ended_def split: if_splits)
  moreover have "example_print message ?co (e_streams x) = st" by (simp add: example_print_def st)
  ultimately show ?thesis using assms(1) i by (auto simp: x' printed_so_far_def)
qed

lemma printed_run:
  assumes "example_run message ntop buffers es example_init = Some x"
  shows "printed_so_far message x \<and> machine_run ntop buffers (control_events es) (machine_init control_init) = Some (e_machine x)"
  using assms
proof (induction es arbitrary: x rule: rev_induct)
  case Nil
  then show ?case by (auto simp: printed_so_far_def example_init_def machine_init_def)
next
  case (snoc e es)
  obtain y where y: "example_run message ntop buffers es example_init = Some y" "example_step message ntop buffers e y = Some x"
    using snoc.prems by (auto simp: example_run_snoc split: option.splits)
  have "machine_run ntop buffers (control_events (es @ [e])) (machine_init control_init) = Some (e_machine x)"
    using snoc.IH [OF y(1)] y(2) by (cases e) (auto simp: machine_run_append split: if_splits)
  then show ?case using snoc.IH [OF y(1)] printed_step [OF _ y(2)] by blast
qed

section \<open>Properties\<close>

text \<open>
  The lines a user is to see for a report: a heading with the number of the entries the dump keeps,
  and a line for each of them.
\<close>

definition block :: "string \<Rightarrow> ('e \<Rightarrow> string) \<Rightarrow> 'e list \<Rightarrow> string" where
  "block heading line events = heading @ '': '' @ dec_string (length events) @ nl @ concat (map line events)"

fun report_block :: "inet_ntop \<Rightarrow> report \<Rightarrow> string" where
  "report_block ntop (Link_Report es) = block ''Links''
     (\<lambda>l. ''ifindex='' @ dec_int (link_index l) @ '' name='' @ link_name l
       @ '' flags='' @ dec_word (link_flags l) @ '' change='' @ dec_word (link_change l) @ nl)
     (filter link_keep (map link_of_entry es))"
| "report_block ntop (Route_Report es) = block ''Routes''
     (\<lambda>r. ''dst='' @ route_dst r @ '' gateway='' @ route_gateway r @ '' oif='' @ route_oif r
       @ '' table='' @ dec_word (route_table r) @ '' proto='' @ dec_word (route_protocol r) @ nl)
     (filter route_keep (map (route_of_entry ntop) es))"
| "report_block ntop (Address_Report es) = block ''Addresses''
     (\<lambda>a. ''ifindex='' @ dec_int (address_index a) @ '' addr='' @ address_address a
       @ '' prefix_len='' @ dec_word (address_prefix_len a) @ '' label='' @ address_label a @ nl)
     (filter address_keep (map (address_of_entry ntop) es))"
| "report_block ntop (Neighbor_Report es) = block ''Neighbors''
     (\<lambda>n. ''ifindex='' @ dec_int (neighbor_index n) @ '' addr='' @ neighbor_address n
       @ '' state='' @ state_to_string n @ nl)
     (filter neighbor_keep (map (neighbor_of_entry ntop) es))"

lemma print_report: "print_result message (report_result ntop q report) st = put (report_block ntop report) st"
  by (cases report) (simp_all add: report_list block_def link_line_def [abs_def] route_line_def [abs_def]
      address_line_def [abs_def] neighbor_line_def [abs_def])

lemma fold_put_blocks: "fold (\<lambda>i. put (f i)) is st = put (concat (map f is)) st"
  by (induction "is" arbitrary: st) (simp_all add: put_def)

text \<open>
  C39. The control example, whatever the order in which its four coroutines and their dumps get on:
  when the kernel answers each of the dumps, the program prints four blocks, each with the number of
  the entries its dump keeps of those reported, and a line for each of these, and nothing to the error
  stream. The blocks come whole, in the order in which the coroutines are resumed, each after its dump
  has ended.
\<close>

theorem control_example_prints:
  assumes "example_run message ntop buffers es example_init = Some x" "example_over x"
    and "\<forall>i < 4. length (buffers i) = MAX_RESPONSE_BYTES \<and> report_operation (reports i) = example_spawns ! i"
    and "\<forall>i < 4. \<exists>op job q. m_coroutines (e_machine x) ! i = Running op job
      \<and> nlmsg_seq (sent_bytes (job_outcome job)) 0 = Some q \<and> answered (completions_of i (control_events es)) q (reports i)"
  shows "out (e_streams x) = concat (map (\<lambda>i. report_block ntop (reports i)) (e_printed x))
    \<and> err (e_streams x) = [] \<and> distinct (e_printed x) \<and> set (e_printed x) = {0, 1, 2, 3}"
proof -
  let ?cs = "m_coroutines (e_machine x)"
  have p: "printed_so_far message x" and run: "machine_run ntop buffers (control_events es) (machine_init control_init) = Some (e_machine x)"
    using printed_run [OF assms(1)] by blast+
  have len: "length example_spawns = 4" by (simp add: example_spawns_def)
  have d: "distinct (e_printed x)" "set (e_printed x) \<subseteq> {..<4}"
    using p len by (auto simp: printed_so_far_def intro: less_le_trans)
  then have "card (set (e_printed x)) = 4" using assms(2) len by (simp add: example_over_def distinct_card)
  then have set: "set (e_printed x) = {..<4}" using d(2) by (intro card_subset_eq) simp_all
  have prints: "example_print message (?cs ! i) st = put (report_block ntop (reports i)) st" if i: "i \<in> set (e_printed x)" for i st
  proof -
    have i4: "i < 4" "i < length ?cs" "ended (?cs ! i)"
      using i set p by (auto simp: printed_so_far_def)
    obtain op job q where co: "?cs ! i = Running op job" and q: "nlmsg_seq (sent_bytes (job_outcome job)) 0 = Some q"
      "answered (completions_of i (control_events es)) q (reports i)"
      using assms(4) i4(1) by blast
    have "operation_of (?cs ! i) = map operation_of ?cs ! i" using i4(2) by simp
    also have "\<dots> = take (length ?cs) example_spawns ! i" using p by (simp add: printed_so_far_def)
    also have "\<dots> = report_operation (reports i)" using i4(1,2) assms(3) by simp
    finally have "?cs ! i = Running (report_operation (reports i)) job" by (simp add: co)
    from answered_dump [OF run i4(2) this _ q] have "job_outcome job = report_result ntop q (reports i)"
      using assms(3) i4(1) by blast
    then show ?thesis using i4(3) by (simp add: example_print_def co ended_def print_report)
  qed
  have "e_streams x = fold (\<lambda>i. example_print message (?cs ! i)) (e_printed x) \<lparr>out = [], err = []\<rparr>"
    using p by (simp only: printed_so_far_def simp_thms)
  also have "\<dots> = fold (\<lambda>i. put (report_block ntop (reports i))) (e_printed x) \<lparr>out = [], err = []\<rparr>"
    by (rule fold_cong) (auto simp: prints)
  finally have streams: "e_streams x = put (concat (map (\<lambda>i. report_block ntop (reports i)) (e_printed x))) \<lparr>out = [], err = []\<rparr>"
    by (simp only: fold_put_blocks)
  have "{..<4} = {0, 1, 2, 3 :: nat}" by auto
  then show ?thesis unfolding streams put_simps using d(1) set by simp
qed

text \<open>A run in which the kernel has only links to report; the link dump ends first.\<close>

abbreviation done_msg :: "u32 \<Rightarrow> u8 list" where
  "done_msg number \<equiv> enc_msg NLMSG_DONE 2 number 7 [0, 0, 0, 0]"

definition four_dumps :: "u8 list \<Rightarrow> u8 list \<Rightarrow> u8 list \<Rightarrow> u8 list \<Rightarrow> example_event list" where
  "four_dumps da dr dn dl = map In_Control
     [Arrive Dump_Addresses 0, Arrive Dump_Routes 0, Arrive Dump_Neighbors 0, Arrive Dump_Links 0,
      Pass 0 None working, Pass 1 None working, Pass 2 None working, Pass 3 None working,
      Complete 3 (Send_Completion (Sent 32)), Complete 0 (Send_Completion (Sent 24)),
      Complete 1 (Send_Completion (Sent 28)), Complete 2 (Send_Completion (Sent 28)),
      Complete 3 (Receive_Completion (Received dl)), Complete 0 (Receive_Completion (Received da))]
     @ [Print 3, In_Control (Complete 2 (Receive_Completion (Received dn))), Print 0, Print 2,
        In_Control (Complete 1 (Receive_Completion (Received dr))), Print 1]"

lemma four_dumps_io:
  "sends_of (completions_of 0 (control_events (four_dumps da dr dn dl))) = [Sent 24]"
  "sends_of (completions_of 1 (control_events (four_dumps da dr dn dl))) = [Sent 28]"
  "sends_of (completions_of 2 (control_events (four_dumps da dr dn dl))) = [Sent 28]"
  "sends_of (completions_of 3 (control_events (four_dumps da dr dn dl))) = [Sent 32]"
  "recvs_of (completions_of 0 (control_events (four_dumps da dr dn dl))) = [Received da]"
  "recvs_of (completions_of 1 (control_events (four_dumps da dr dn dl))) = [Received dr]"
  "recvs_of (completions_of 2 (control_events (four_dumps da dr dn dl))) = [Received dn]"
  "recvs_of (completions_of 3 (control_events (four_dumps da dr dn dl))) = [Received dl]"
  by (simp_all add: four_dumps_def control_events_def completions_of_def sends_of_def recvs_of_def)

lemma four_dumps_run:
  fixes ta :: address_dump_task and tr :: route_dump_task and tn :: neighbor_dump_task and tl :: link_dump_task
  assumes a: "task_begin address_dump_prepare_request address_request_payload buffer (address_dump_init 0 1)
      = Some (Sending ra 0 [] buffer sa :: (_, address_event list) task_state)"
    "task_step (address_dump_process_message ntop) (Sending ra 0 [] buffer sa) (Send_Completion (Sent 24)) = Some (Reading ra buffer sa)"
    "task_step (address_dump_process_message ntop) (Reading ra buffer sa) (Receive_Completion (Received da)) = Some (Ended ra ta (Inr []))"
  and r: "task_begin route_dump_prepare_request route_request_payload buffer (route_dump_init 0 2)
      = Some (Sending rr 0 [] buffer sr :: (_, route_event list) task_state)"
    "task_step (route_dump_process_message ntop) (Sending rr 0 [] buffer sr) (Send_Completion (Sent 28)) = Some (Reading rr buffer sr)"
    "task_step (route_dump_process_message ntop) (Reading rr buffer sr) (Receive_Completion (Received dr)) = Some (Ended rr tr (Inr []))"
  and n: "task_begin neighbor_dump_prepare_request neighbor_request_payload buffer (neighbor_dump_init 0 3)
      = Some (Sending rn 0 [] buffer sn :: (_, neighbor_event list) task_state)"
    "task_step (neighbor_dump_process_message ntop) (Sending rn 0 [] buffer sn) (Send_Completion (Sent 28)) = Some (Reading rn buffer sn)"
    "task_step (neighbor_dump_process_message ntop) (Reading rn buffer sn) (Receive_Completion (Received dn)) = Some (Ended rn tn (Inr []))"
  and l: "task_begin link_dump_prepare_request link_request_payload buffer (link_dump_init 0 4)
      = Some (Sending rl 0 [] buffer sl :: (_, link_event list) task_state)"
    "task_step link_dump_process_message (Sending rl 0 [] buffer sl) (Send_Completion (Sent 32)) = Some (Reading rl buffer sl)"
    "task_step link_dump_process_message (Reading rl buffer sl) (Receive_Completion (Received dl)) = Some (Ended rl tl (Inr links))"
  shows "\<exists>x. example_run message ntop (\<lambda>_. buffer) (four_dumps da dr dn dl) example_init = Some x
    \<and> e_printed x = [3, 0, 2, 1]
    \<and> m_coroutines (e_machine x) =
        [Running Dump_Addresses (Address_Job (Ended ra ta (Inr []))), Running Dump_Routes (Route_Job (Ended rr tr (Inr []))),
         Running Dump_Neighbors (Neighbor_Job (Ended rn tn (Inr []))), Running Dump_Links (Link_Job (Ended rl tl (Inr links)))]"
proof -
  obtain g1 g2 g3 g4 where g: "ensure_open working (socket_guard_init ''nl-control-link'') = (g1, Return (Inr ()))"
    "ensure_open working (socket_guard_init ''nl-control-route'') = (g2, Return (Inr ()))"
    "ensure_open working (socket_guard_init ''nl-control-address'') = (g3, Return (Inr ()))"
    "ensure_open working (socket_guard_init ''nl-control-neighbor'') = (g4, Return (Inr ()))"
    using ensure_open_working by (metis prod.collapse)
  show ?thesis
    by (simp add: four_dumps_def example_init_def machine_init_def control_init_def next_expiry_def s64_plus_def
        gate_passed_None fetch_add_def opened_def resumed_def issue_def put_coroutine_def shared_def example_spawns_def
        g a r n l del: task_step.simps)
qed

lemma done_answer:
  "wf_answer MAX_RESPONSE_BYTES [[done_msg number]]"
  "filter (\<lambda>b. nlmsg_seq b 0 = Some number) (concat [[done_msg number]]) = map f [] @ done_msg number # []"
  "nlmsg_type (done_msg number) 0 = Some NLMSG_DONE"
  by (simp_all add: concrete_defs)

lemma enc_msg_not_Nil: "enc_msg ty fl seq pid body \<noteq> []"
proof -
  have "length (enc_msg ty fl seq pid body) \<noteq> 0" by simp
  then show ?thesis by (simp only: length_0_conv not_False_eq_True)
qed

lemma address_done_steps:
  assumes "length buffer = MAX_RESPONSE_BYTES"
  shows "\<exists>t. let s = address_dump_prepare_request (address_dump_init 0 number); req = enc_msg RTM_GETADDR 0x301 number 0 (enc_ifaddrmsg 0 0 0 0 0)
    in task_begin address_dump_prepare_request address_request_payload buffer (address_dump_init 0 number)
        = Some (Sending req 0 [] buffer s :: (_, address_event list) task_state)
      \<and> task_step (address_dump_process_message ntop) (Sending req 0 [] buffer s) (Send_Completion (Sent 24)) = Some (Reading req buffer s)
      \<and> task_step (address_dump_process_message ntop) (Reading req buffer s) (Receive_Completion (Received (enc_datagram [done_msg number])))
          = Some (Ended req t (Inr []))"
proof -
  have p: "address_request_payload (address_dump_prepare_request (address_dump_init 0 number)) = Some (enc_msg RTM_GETADDR 0x301 number 0 (enc_ifaddrmsg 0 0 0 0 0))"
    by (simp add: address_dump_payload)
  have n: "length (enc_msg RTM_GETADDR 0x301 number 0 (enc_ifaddrmsg 0 0 0 0 0)) \<le> 24" by simp
  obtain t where "async_run address_dump_prepare_request address_request_payload (address_dump_process_message ntop)
      buffer (address_dump_init 0 number) [Sent 24] [Received (enc_datagram [done_msg number])]
    = Some (Some (enc_msg RTM_GETADDR 0x301 number 0 (enc_ifaddrmsg 0 0 0 0 0), t, Some (Inr [])))"
    using dump_addresses_alone [OF assms done_answer(1,2) _ done_answer(3), of "[24]"] by auto
  from task_answered_steps [OF p enc_msg_not_Nil n this] show ?thesis unfolding Let_def by blast
qed

lemma route_done_steps:
  assumes "length buffer = MAX_RESPONSE_BYTES"
  shows "\<exists>t. let s = route_dump_prepare_request (route_dump_init 0 number); req = enc_msg RTM_GETROUTE 0x301 number 0 (enc_rtmsg 0 0 0 0 254 0 0 0 0)
    in task_begin route_dump_prepare_request route_request_payload buffer (route_dump_init 0 number)
        = Some (Sending req 0 [] buffer s :: (_, route_event list) task_state)
      \<and> task_step (route_dump_process_message ntop) (Sending req 0 [] buffer s) (Send_Completion (Sent 28)) = Some (Reading req buffer s)
      \<and> task_step (route_dump_process_message ntop) (Reading req buffer s) (Receive_Completion (Received (enc_datagram [done_msg number])))
          = Some (Ended req t (Inr []))"
proof -
  have p: "route_request_payload (route_dump_prepare_request (route_dump_init 0 number)) = Some (enc_msg RTM_GETROUTE 0x301 number 0 (enc_rtmsg 0 0 0 0 254 0 0 0 0))"
    by (simp add: route_dump_payload)
  have n: "length (enc_msg RTM_GETROUTE 0x301 number 0 (enc_rtmsg 0 0 0 0 254 0 0 0 0)) \<le> 28" by simp
  obtain t where "async_run route_dump_prepare_request route_request_payload (route_dump_process_message ntop)
      buffer (route_dump_init 0 number) [Sent 28] [Received (enc_datagram [done_msg number])]
    = Some (Some (enc_msg RTM_GETROUTE 0x301 number 0 (enc_rtmsg 0 0 0 0 254 0 0 0 0), t, Some (Inr [])))"
    using dump_routes_alone [OF assms done_answer(1,2) _ done_answer(3), of "[28]"] by auto
  from task_answered_steps [OF p enc_msg_not_Nil n this] show ?thesis unfolding Let_def by blast
qed

lemma neighbor_done_steps:
  assumes "length buffer = MAX_RESPONSE_BYTES"
  shows "\<exists>t. let s = neighbor_dump_prepare_request (neighbor_dump_init 0 number); req = enc_msg RTM_GETNEIGH 0x301 number 0 (enc_ndmsg 0 0 0 0 0)
    in task_begin neighbor_dump_prepare_request neighbor_request_payload buffer (neighbor_dump_init 0 number)
        = Some (Sending req 0 [] buffer s :: (_, neighbor_event list) task_state)
      \<and> task_step (neighbor_dump_process_message ntop) (Sending req 0 [] buffer s) (Send_Completion (Sent 28)) = Some (Reading req buffer s)
      \<and> task_step (neighbor_dump_process_message ntop) (Reading req buffer s) (Receive_Completion (Received (enc_datagram [done_msg number])))
          = Some (Ended req t (Inr []))"
proof -
  have p: "neighbor_request_payload (neighbor_dump_prepare_request (neighbor_dump_init 0 number)) = Some (enc_msg RTM_GETNEIGH 0x301 number 0 (enc_ndmsg 0 0 0 0 0))"
    by (simp add: neighbor_dump_payload)
  have n: "length (enc_msg RTM_GETNEIGH 0x301 number 0 (enc_ndmsg 0 0 0 0 0)) \<le> 28" by simp
  obtain t where "async_run neighbor_dump_prepare_request neighbor_request_payload (neighbor_dump_process_message ntop)
      buffer (neighbor_dump_init 0 number) [Sent 28] [Received (enc_datagram [done_msg number])]
    = Some (Some (enc_msg RTM_GETNEIGH 0x301 number 0 (enc_ndmsg 0 0 0 0 0), t, Some (Inr [])))"
    using dump_neighbors_alone [OF assms done_answer(1,2) _ done_answer(3), of "[28]"] by auto
  from task_answered_steps [OF p enc_msg_not_Nil n this] show ?thesis unfolding Let_def by blast
qed

lemma reported_filter:
  "filter (\<lambda>b. nlmsg_seq b 0 = Some number) (concat [enc_report number report @ [done_msg number]])
    = enc_report number report @ done_msg number # []"
  using enc_report_seq [of _ number report] by (simp add: nlmsghdr_enc_msg)

lemma link_done_steps:
  assumes "length buffer = MAX_RESPONSE_BYTES" "list_all wf_link_entry es"
    and "wf_answer MAX_RESPONSE_BYTES [enc_report number (Link_Report es) @ [done_msg number]]"
  shows "\<exists>t. let s = link_dump_prepare_request (link_dump_init 0 number); req = enc_msg RTM_GETLINK 0x301 number 0 (enc_ifinfomsg 0 0 0 0 0)
    in task_begin link_dump_prepare_request link_request_payload buffer (link_dump_init 0 number)
        = Some (Sending req 0 [] buffer s :: (_, link_event list) task_state)
      \<and> task_step link_dump_process_message (Sending req 0 [] buffer s) (Send_Completion (Sent 32)) = Some (Reading req buffer s)
      \<and> task_step link_dump_process_message (Reading req buffer s)
          (Receive_Completion (Received (enc_datagram (enc_report number (Link_Report es) @ [done_msg number]))))
        = Some (Ended req t (Inr (filter link_keep (map link_of_entry es))))"
proof -
  have p: "link_request_payload (link_dump_prepare_request (link_dump_init 0 number)) = Some (enc_msg RTM_GETLINK 0x301 number 0 (enc_ifinfomsg 0 0 0 0 0))"
    by (simp add: link_dump_payload)
  have n: "length (enc_msg RTM_GETLINK 0x301 number 0 (enc_ifinfomsg 0 0 0 0 0)) \<le> 32" by simp
  have own: "filter (\<lambda>b. nlmsg_seq b 0 = Some number) (concat [enc_report number (Link_Report es) @ [done_msg number]])
      = map (enc_link_entry number) es @ done_msg number # []"
    using reported_filter [of number "Link_Report es"] by (simp only: enc_report.simps)
  obtain t where "async_run link_dump_prepare_request link_request_payload link_dump_process_message
      buffer (link_dump_init 0 number) [Sent 32] [Received (enc_datagram (enc_report number (Link_Report es) @ [done_msg number]))]
    = Some (Some (enc_msg RTM_GETLINK 0x301 number 0 (enc_ifinfomsg 0 0 0 0 0), t, Some (Inr (filter link_keep (map link_of_entry es)))))"
    using dump_links_alone [OF assms(1,3) own assms(2) done_answer(3), of "[32]"] by auto
  from task_answered_steps [OF p enc_msg_not_Nil n this] show ?thesis unfolding Let_def by blast
qed

lemma done_answered:
  assumes "sends_of completions = [Sent n]" "request_size report \<le> n"
    and "recvs_of completions = [Received (enc_datagram (enc_report number report @ [done_msg number]))]"
    and "wf_answer MAX_RESPONSE_BYTES [enc_report number report @ [done_msg number]]" "wf_report report"
  shows "answered completions number report"
  unfolding answered_def
  by (intro conjI exI [of _ "[n]"] exI [of _ "[enc_report number report @ [done_msg number]]"] exI [of _ "done_msg number"]
      exI [of _ "[]"] reported_filter assms(4,5) done_answer(3))
    (simp_all add: assms(1-3))

text \<open>A link, and one with an index that is too large for the dump.\<close>

definition two_links :: "link_entry list" where
  "two_links = [(2, 7, \<lparr>ifi_family = 0, ifi_type = 1, ifi_index = 2, ifi_flags = 0x1003, ifi_change = 0\<rparr>, [(IFLA_IFNAME, [101, 116, 104, 48, 0])]),
     (2, 7, \<lparr>ifi_family = 0, ifi_type = 1, ifi_index = 70000, ifi_flags = 0, ifi_change = 0\<rparr>, [])]"

lemma two_links:
  "list_all wf_link_entry two_links" "wf_answer MAX_RESPONSE_BYTES [enc_report 4 (Link_Report two_links) @ [done_msg 4]]"
  "filter link_keep (map link_of_entry two_links)
    = [\<lparr>link_type = NEW_LINK, link_index = 2, link_flags = 0x1003, link_change = 0, link_name = ''eth0''\<rparr>]"
  by (simp_all add: two_links_def concrete_defs enc_link_entry_def bytes_ifinfomsg_def wf_link_entry_def wf_link_attrs_def
      is_ifname_def link_of_entry_def link_keep_def text_defs)

definition only_links :: "nat \<Rightarrow> report" where
  "only_links i = [Address_Report [], Route_Report [], Neighbor_Report [], Link_Report two_links] ! i"

definition links_answer :: "u8 list" where
  "links_answer = enc_datagram (enc_report 4 (Link_Report two_links) @ [done_msg 4])"

lemma control_example_prints_witness:
  "\<exists>x. example_run (\<lambda>_. '''') (\<lambda>_ _. None) (\<lambda>_. replicate 65536 0) (four_dumps (enc_datagram [done_msg 1]) (enc_datagram [done_msg 2])
      (enc_datagram [done_msg 3]) links_answer) example_init = Some x
    \<and> out (e_streams x) = ''Links: 1'' @ nl @ ''ifindex=2 name=eth0 flags=4099 change=0'' @ nl @ ''Addresses: 0'' @ nl @ ''Neighbors: 0'' @ nl @ ''Routes: 0'' @ nl
    \<and> err (e_streams x) = []"
proof -
  let ?message = "\<lambda>_. ''''" and ?ntop = "\<lambda>_ _. None"
  let ?b = "replicate 65536 0 :: mem"
  let ?es = "four_dumps (enc_datagram [done_msg 1]) (enc_datagram [done_msg 2]) (enc_datagram [done_msg 3]) links_answer"
  let ?ra = "enc_msg RTM_GETADDR 0x301 1 0 (enc_ifaddrmsg 0 0 0 0 0)" and ?rr = "enc_msg RTM_GETROUTE 0x301 2 0 (enc_rtmsg 0 0 0 0 254 0 0 0 0)"
  let ?rn = "enc_msg RTM_GETNEIGH 0x301 3 0 (enc_ndmsg 0 0 0 0 0)" and ?rl = "enc_msg RTM_GETLINK 0x301 4 0 (enc_ifinfomsg 0 0 0 0 0)"
  have len: "length ?b = MAX_RESPONSE_BYTES" by (simp add: MAX_RESPONSE_BYTES_def)
  obtain ta where a: "task_begin address_dump_prepare_request address_request_payload ?b (address_dump_init 0 1)
        = Some (Sending ?ra 0 [] ?b (address_dump_prepare_request (address_dump_init 0 1)) :: (_, address_event list) task_state)"
      "task_step (address_dump_process_message ?ntop) (Sending ?ra 0 [] ?b (address_dump_prepare_request (address_dump_init 0 1))) (Send_Completion (Sent 24))
        = Some (Reading ?ra ?b (address_dump_prepare_request (address_dump_init 0 1)))"
      "task_step (address_dump_process_message ?ntop) (Reading ?ra ?b (address_dump_prepare_request (address_dump_init 0 1)))
        (Receive_Completion (Received (enc_datagram [done_msg 1]))) = Some (Ended ?ra ta (Inr []))"
    using address_done_steps [OF len, of 1 "?ntop"] unfolding Let_def by blast
  obtain tr where r: "task_begin route_dump_prepare_request route_request_payload ?b (route_dump_init 0 2)
        = Some (Sending ?rr 0 [] ?b (route_dump_prepare_request (route_dump_init 0 2)) :: (_, route_event list) task_state)"
      "task_step (route_dump_process_message ?ntop) (Sending ?rr 0 [] ?b (route_dump_prepare_request (route_dump_init 0 2))) (Send_Completion (Sent 28))
        = Some (Reading ?rr ?b (route_dump_prepare_request (route_dump_init 0 2)))"
      "task_step (route_dump_process_message ?ntop) (Reading ?rr ?b (route_dump_prepare_request (route_dump_init 0 2)))
        (Receive_Completion (Received (enc_datagram [done_msg 2]))) = Some (Ended ?rr tr (Inr []))"
    using route_done_steps [OF len, of 2 "?ntop"] unfolding Let_def by blast
  obtain tn where n: "task_begin neighbor_dump_prepare_request neighbor_request_payload ?b (neighbor_dump_init 0 3)
        = Some (Sending ?rn 0 [] ?b (neighbor_dump_prepare_request (neighbor_dump_init 0 3)) :: (_, neighbor_event list) task_state)"
      "task_step (neighbor_dump_process_message ?ntop) (Sending ?rn 0 [] ?b (neighbor_dump_prepare_request (neighbor_dump_init 0 3))) (Send_Completion (Sent 28))
        = Some (Reading ?rn ?b (neighbor_dump_prepare_request (neighbor_dump_init 0 3)))"
      "task_step (neighbor_dump_process_message ?ntop) (Reading ?rn ?b (neighbor_dump_prepare_request (neighbor_dump_init 0 3)))
        (Receive_Completion (Received (enc_datagram [done_msg 3]))) = Some (Ended ?rn tn (Inr []))"
    using neighbor_done_steps [OF len, of 3 "?ntop"] unfolding Let_def by blast
  obtain tl where l: "task_begin link_dump_prepare_request link_request_payload ?b (link_dump_init 0 4)
        = Some (Sending ?rl 0 [] ?b (link_dump_prepare_request (link_dump_init 0 4)) :: (_, link_event list) task_state)"
      "task_step link_dump_process_message (Sending ?rl 0 [] ?b (link_dump_prepare_request (link_dump_init 0 4))) (Send_Completion (Sent 32))
        = Some (Reading ?rl ?b (link_dump_prepare_request (link_dump_init 0 4)))"
      "task_step link_dump_process_message (Reading ?rl ?b (link_dump_prepare_request (link_dump_init 0 4)))
        (Receive_Completion (Received links_answer)) = Some (Ended ?rl tl (Inr (filter link_keep (map link_of_entry two_links))))"
    using link_done_steps [OF len two_links(1,2)] unfolding Let_def links_answer_def by blast
  obtain x where x: "example_run ?message ?ntop (\<lambda>_. ?b) ?es example_init = Some x" and printed: "e_printed x = [3, 0, 2, 1]"
    and cs: "m_coroutines (e_machine x) =
      [Running Dump_Addresses (Address_Job (Ended ?ra ta (Inr []))), Running Dump_Routes (Route_Job (Ended ?rr tr (Inr []))),
       Running Dump_Neighbors (Neighbor_Job (Ended ?rn tn (Inr []))), Running Dump_Links (Link_Job (Ended ?rl tl (Inr (filter link_keep (map link_of_entry two_links)))))]"
    using four_dumps_run [OF a r n l] by blast
  have below: "(\<forall>i < 4. P i) \<longleftrightarrow> P 0 \<and> P 1 \<and> P 2 \<and> P (3 :: nat)" for P
    by (auto simp: less_Suc_eq numeral_eq_Suc)
  note io = four_dumps_io [of "enc_datagram [done_msg 1]" "enc_datagram [done_msg 2]" "enc_datagram [done_msg 3]" links_answer]
  have over: "example_over x" by (simp add: example_over_def printed example_spawns_def)
  have ops: "\<forall>i < 4. length ((\<lambda>_. ?b) i) = MAX_RESPONSE_BYTES \<and> report_operation (only_links i) = example_spawns ! i"
    unfolding below by (simp add: MAX_RESPONSE_BYTES_def only_links_def example_spawns_def)
  have nr: "only_links 0 = Address_Report []" "only_links 1 = Route_Report []"
    "only_links 2 = Neighbor_Report []" "only_links 3 = Link_Report two_links"
    by (simp_all add: only_links_def)
  have answers: "answered (completions_of 0 (control_events ?es)) 1 (only_links 0)"
    "answered (completions_of 1 (control_events ?es)) 2 (only_links 1)"
    "answered (completions_of 2 (control_events ?es)) 3 (only_links 2)"
    "answered (completions_of 3 (control_events ?es)) 4 (only_links 3)"
    unfolding nr
    using done_answered [OF io(1), of "Address_Report []" 1] done_answered [OF io(2), of "Route_Report []" 2]
      done_answered [OF io(3), of "Neighbor_Report []" 3] done_answered [OF io(4), of "Link_Report two_links" 4]
      io(5-8) done_answer(1) two_links(1,2) by (simp_all add: links_answer_def)
  have seqs: "nlmsg_seq (enc_msg ty fl q pid body) 0 = Some q" for ty fl q pid body by (simp only: nlmsghdr_enc_msg)
  have all: "\<forall>i < 4. \<exists>op job q. m_coroutines (e_machine x) ! i = Running op job
      \<and> nlmsg_seq (sent_bytes (job_outcome job)) 0 = Some q \<and> answered (completions_of i (control_events ?es)) q (only_links i)"
    unfolding below cs using answers seqs by (auto simp: sent_and_result_def)
  have prints: "concat (map (\<lambda>i. report_block ?ntop (only_links i)) [3, 0, 2, 1])
      = ''Links: 1'' @ nl @ ''ifindex=2 name=eth0 flags=4099 change=0'' @ nl @ ''Addresses: 0'' @ nl @ ''Neighbors: 0'' @ nl @ ''Routes: 0'' @ nl"
    by (simp add: only_links_def block_def two_links(3) dec_int_def dec_string.simps text_defs)
  have "out (e_streams x) = concat (map (\<lambda>i. report_block ?ntop (only_links i)) [3, 0, 2, 1]) \<and> err (e_streams x) = []"
    using control_example_prints [OF x over ops all] by (simp only: printed simp_thms)
  then show ?thesis using x unfolding prints by blast
qed

end
