(* ===== verification/Unit_Tests.thy ===== *)
theory Unit_Tests
  imports Request_Task Nl_Socket Signal_Executor
begin

text \<open>
  The unit tests (\<open>tests/\<close>) on the model: a definition for each says what its expectations come
  to, and each is shown to pass, whatever the operating system does.
\<close>

section \<open>\<open>test_nl_common.cpp\<close>\<close>

definition memcpy :: "mem \<Rightarrow> ptr \<Rightarrow> u8 list \<Rightarrow> mem" where
  "memcpy m dest src = take dest m @ src @ drop (dest + length src) m"

text \<open>A C string literal ends at its first NUL, which \<open>string_view\<close> leaves out.\<close>

definition string_view_of :: "string \<Rightarrow> string" where
  "string_view_of literal = takeWhile (\<lambda>c. c \<noteq> NUL) literal"

definition test_strings :: "bool ub" where
  "test_strings = do {
     let trimmed = trim_string (string_view_of (''abc'' @ [NUL, NUL]));
     let payload = [101, 116, 104, 48, 0];
     let buf = replicate (RTA_LENGTH (length payload)) 0;
     let buf = memcpy buf 0 (le16 (of_nat (RTA_LENGTH (length payload))));
     let buf = memcpy buf 2 (le16 IFLA_IFNAME);
     let buf = memcpy buf (RTA_DATA 0) payload;
     s \<leftarrow> attribute_string buf 0;
     Some (trimmed = ''abc'' \<and> s = ''eth0'') }"

definition test_payload_short :: "bool ub" where
  "test_payload_short = do {
     let short_hdr = memcpy (replicate 16 0) 0 (le32 (of_nat (NLMSG_LENGTH sizeof_ifinfomsg - 1)));
     payload \<leftarrow> get_msg_payload sizeof_ifinfomsg short_hdr 0;
     Some (payload = None) }"

lemma unit_tests_nl_common: "test_strings = Some True" "test_payload_short = Some True"
proof -
  have le: "le16 9 = [9, 0]" "le16 IFLA_IFNAME = [3, 0]" "le32 31 = [31, 0, 0, 0]" by (simp_all add: le16_def le32_def)
  show "test_strings = Some True"
    by (simp add: test_strings_def Let_def string_view_of_def memcpy_def RTA_LENGTH_def RTA_DATA_def le attribute_string_def
        rta_len_def rd16_def rd8_def RTA_PAYLOAD_def c_string.simps trim_string_no_trailing chr_of_byte_def char_of_def bit_Suc_0_iff)
  show "test_payload_short = Some True"
    by (simp add: test_payload_short_def Let_def memcpy_def get_msg_payload_def NLMSG_LENGTH_def le
        nlmsg_len_def rd32_def rd16_def rd8_def)
qed

section \<open>\<open>test_signal.cpp\<close>\<close>

definition test_sync_and_async_slots :: bool where
  "test_sync_and_async_slots = (
     let sig = signal_init;
         (sig, conn1) = connect (\<lambda>(a, b) w. (w, Value (a + b))) Sync sig;
         (sig, conn2) = connect (\<lambda>(a, b) w. (w, Value (a * b))) Async sig
     in case emit_served sig (3 :: int, 4 :: int) (((), []), []) of
          (st, Combined results) \<Rightarrow> length results = 2 \<and> results ! 0 = 7 \<and> results ! 1 = 12
        | _ \<Rightarrow> False)"

lemma unit_test_signal: test_sync_and_async_slots
  by (simp add: test_sync_and_async_slots_def connect_def signal_init_def emit_served_def slot_call_def run_all_order
      fulfill_def)

section \<open>\<open>test_socket.cpp\<close>\<close>

definition test_default_closed :: "os \<Rightarrow> bool" where
  "test_default_closed os = (
     let s = socket_init ''test-socket'';
         (s', rc) = socket_close os s;
         (s'', rc2) = socket_cancel os s'
     in \<not> is_open s \<and> rc = Inr ())"

text \<open>Nothing in \<open>stop()\<close> throws: the expectation is that it comes back.\<close>

definition test_stop :: "os \<Rightarrow> socket_guard" where
  "test_stop os = guard_stop os (socket_guard_init ''test-guard'')"

lemma unit_tests_socket: "test_default_closed os" "test_stop os = socket_guard_init ''test-guard''"
  by (simp_all add: test_default_closed_def test_stop_def guard_stop_def socket_guard_init_def socket_guard_with_mask_def
      socket_init_def socket_defs)

section \<open>\<open>test_requesttask_compile.cpp\<close>\<close>

text \<open>
  The checker has the operations of a task. It does not keep what the locale \<open>request_behavior\<close>
  asks for beyond the types: its request is empty. A task of it sends nothing, and has a result
  only when the socket fails.
\<close>

definition checker_prepare_request :: "unit \<Rightarrow> unit" where
  "checker_prepare_request s = s"

definition checker_request_payload :: "unit \<Rightarrow> u8 list ub" where
  "checker_request_payload s = Some []"

definition checker_process_message :: "mem \<Rightarrow> ptr \<Rightarrow> unit \<Rightarrow> (unit \<times> int expected option) ub" where
  "checker_process_message m header s = Some (s, None)"

definition checker_task :: "mem \<Rightarrow> send_outcome list \<Rightarrow> recv_outcome list
    \<Rightarrow> (u8 list \<times> unit \<times> int expected option) ub option" where
  "checker_task buffer = async_run checker_prepare_request checker_request_payload checker_process_message buffer ()"

lemma unit_test_request_task:
  assumes "checker_task buffer sends recvs = Some (Some (wire, s, r))"
  shows "wire = [] \<and> (\<forall>x. r = Some x \<longrightarrow> (\<exists>ec. x = Inl (Error_Code Generic_Category ec)))"
proof -
  have send: "send_request [] 0 sends [] = ([], Some (Inr ()))" by (simp add: send_request_done)
  obtain buffer' where read: "read_loop checker_process_message buffer () recvs = Some (Some (s, buffer', r))" and "wire = []"
    using assms by (auto simp: checker_task_def async_run_def checker_prepare_request_def checker_request_payload_def send)
  moreover have "True \<and> (\<forall>x. r = Some x \<longrightarrow> (\<exists>ec. x = Inl (Error_Code Generic_Category ec)))"
    by (rule read_loop_invariant [where I = "\<lambda>_. True", OF read]) (auto simp: checker_process_message_def)
  ultimately show ?thesis by simp
qed

end
