(* ===== verification/Spec2Isabelle.thy ===== *)
theory Spec2Isabelle
  imports Nl_Utils Nl_Names Operations_Defined Shared_Socket Socket_IO Signal_Executor Reentrant_Listener
    Control_Stop Concurrent_Dumps Control_Example Unit_Tests
begin

text \<open>
  Verification of RTACO, a library of Boost.Asio coroutines for RTNETLINK: it asks the Linux kernel
  for its links, addresses, routes and neighbors (\<open>Control\<close>) and tells an application of their
  changes (\<open>Listener\<close>).

  \<^bold>\<open>The program and its model.\<close> The theories follow the directories below \<open>include/rtaco\<close> and
  \<open>src\<close>; each definition has the name of the function it translates.
  \<^item> Prelude: machine words, error codes, \<open>std::expected\<close> as a sum, and memory. A buffer is a list of
    bytes, a pointer an index into it; every read yields \<open>None\<close> outside of the buffer. That is the
    type \<open>ub\<close>, also used for the other undefined behaviour (signed overflow, shifts). The relation
    \<open>ub_le\<close> carries what is proved of a message alone over to the message inside of a buffer.
  \<^item> Netlink: the structs and macros of the system headers (\<open>nlmsghdr\<close>, \<open>rtattr\<close>, \<open>NLMSG_OK\<close>, \<open>RTA_NEXT\<close> and
    so on), with the types their operands have in C.
  \<^item> Nl_Common and Nl_Names (\<open>core/nl_common.hxx\<close>): strings, attributes, and the name tables. The
    function \<open>inet_ntop\<close> of the C library is a parameter.
  \<^item> Nl_Utils (\<open>core/nl_utils.hxx\<close>): the bitmask operators.
  \<^item> Encoding: how the kernel lays out attributes and messages; the specifications of the parsers are
    stated over it.
  \<^item> Link_Event, Address_Event, Neighbor_Event, Route_Event (\<open>events\<close>): the parsers. Event_Parser is
    the interface they have in common.
  \<^item> Message_Loop: the loop over the messages of a datagram, which the program has twice.
  \<^item> Request_Task (\<open>tasks/nl_request_task.hxx\<close>): sending a request and reading answers. What the
    sockets complete with is given as a list of outcomes; when it ends first, there is no result yet.
    The locale \<open>request_behavior\<close> is the C++ concept of the same name, with its laws. Task_Machine is
    the coroutine one completion at a time, which refines the function over the lists.
  \<^item> Requests (\<open>tasks/nl_link_task.hxx\<close> and its siblings): the requests, byte for byte.
  \<^item> Dump_Task, with Link_Dump_Task, Address_Dump_Task, Neighbor_Dump_Task and Route_Dump_Task: the
    dumps. What they share is proved once in the locale \<open>dump_task\<close>, which each of them interprets.
  \<^item> Neighbor_Tasks: probe and flush (locale \<open>ack_task\<close>), and get.
  \<^item> Nl_Protocol, Nl_Socket and Socket_IO (\<open>socket\<close>): endpoints, the socket and its guard, and the
    transfers and moves. The answers of the system calls are a parameter.
  \<^item> Nl_Signal (\<open>core/nl_signal.hxx\<close>): slots, emission, and the executor as a queue of jobs.
    What an asynchronous slot hands to its caller is a promise that the job on the executor keeps.
    Signal_Executor: emission while another thread runs the executor.
  \<^item> Nl_Listener (\<open>core/nl_listener.hxx\<close>, \<open>core/nl_listener.cxx\<close>): the handlers, the dispatch and the
    life cycle. Listener_Dispatch relates the dispatch to an abstract account of what each message
    tells; Listener_States is the listener as a state machine, driven by the application, which also
    connects slots, by the socket and by the executor in any order, and the listener whose object has
    been destroyed. Reentrant_Listener: slots that stop and start the listener.
  \<^item> Nl_Control (\<open>core/nl_control.hxx\<close>, \<open>core/nl_control.cxx\<close>): the gate as a machine of its own, the
    operations, and the public functions in front of them. Control_Dumps: whole dumps.
  \<^item> Control_Runs: many operations of a \<open>Control\<close> one after the other. Shared_Socket: operations on
    neighbors at the same time, whose reads queue on the one socket they have. Control_Machine
    is the whole \<open>Control\<close> as a machine, with all its operations interleaved and \<open>stop()\<close>;
    Concurrent_Operations is about one operation among the others, Concurrent_Dumps about
    whole dumps among them, Control_Stop about stopping.
  \<^item> Memory_Safety and Operations_Defined: what holds of arbitrary bytes.
  \<^item> Examples (\<open>examples\<close>): what the two example programs print, coroutine by coroutine and slot by
    slot. Control_Example: the control example as a whole, its coroutines interleaved on the machine
    of Control_Machine; a coroutine whose dump has ended prints when the executor resumes it, and the
    order of that is left open.
  \<^item> Unit_Tests (\<open>tests\<close>): the expectations of the unit tests, on the model.

  \<^bold>\<open>What the theorems show.\<close> C1 to C9 are about whole operations of \<open>Control\<close>, from the gate and the
  socket to the events returned, however the request and the answers are cut into pieces and
  whatever other messages come in between. C10, C21, C23, C24, C31, C37 and C38 are about the
  listener. C11, C12 and C20 say when the loops stay inside of the buffers and return. C13 to C18
  are about the events, C19 about the sending, C22, C25, C26, C28, C29, C32 and C40 about operations
  side by side: the gate, the shared socket, the sequence numbers, whole dumps, and \<open>stop()\<close>; C40 is
  the refinement between the machine and the functions of Nl_Control. C27 is about a helper, C33 and
  C34 about the socket guard, C35 and C36 about signals, C30 and C39 about the examples. C20, C24,
  C25, C26, C31, C34, C36, C37 and C38 show behaviour that a caller does not expect; C1 to C4 and C32
  name the entries that a dump drops.

  \<^bold>\<open>Loops and bounds.\<close> The loop over messages need not end (C20), so it is a \<open>partial_function\<close> with
  \<open>None\<close> for not returning, and its theorems state that it does return. The loops over attributes,
  strings and pieces of a request end by a measure. The buffers have the sizes of the program,
  \<open>64 * 1024\<close> bytes in tasks and \<open>32 * 1024\<close> in the listener. The safety theorems (C11, C12) need
  datagrams whose lengths are aligned and that leave 16 bytes of the buffer, because addresses are read
  without regard to the length of their attribute. The buffer of the listener is zeroed when it is
  constructed, so that a string always ends inside of it; the buffer of a task is not, so there the
  strings in what is received have to end in a NUL. The gate theorem is bounded by \<open>2 ^ 62\<close> requests,
  far from the overflow of the timer, and the theorems on sequence numbers by \<open>2 ^ 32\<close> operations.

  \<^bold>\<open>Not modelled.\<close> What the library prints to \<open>std::cerr\<close>, the native handle of sockets, memory
  resources, the dynamic dispatch of virtual destructors, and data races between threads.
  Boost.Asio, Boost.Signals2 and the kernel are parameters or outcomes; of Boost.Signals2 the model has
  that the slots of a signal are called in the order in which they were connected. Combiners other
  than the default one, and slots that connect or disconnect slots while an emission goes on, are
  left to that library. The rest of the sources are
  declarations whose definitions are modelled, traits and concepts that only the compiler checks, and
  build files.
\<close>

section \<open>Complete exchanges\<close>

text \<open>
  C1. \<open>Control::dump_links\<close> asks for all links and returns, of the links the kernel reports before the
  end of the dump, exactly those with an index from 1 to 65535, in order, each with the fields and the
  name the message carries: whatever other messages arrive in between, whatever port they carry, and
  however the answer is split into datagrams and the request into pieces. A link with a larger index
  is dropped.
\<close>

theorem dump_links_complete:
  assumes "enter_gate wait c = Some c1"
    and "snd (ensure_open os (socket_guard_init ''nl-control-link'')) = Return (Inr ())"
    and "length buffer = MAX_RESPONSE_BYTES" "wf_answer MAX_RESPONSE_BYTES mss"
    and "filter (\<lambda>b. nlmsg_seq b 0 = Some (c_sequence c)) (concat mss)
      = map (enc_link_entry (c_sequence c)) es @ d # rest"
    and "list_all wf_link_entry es"
    and "nlmsg_type d 0 = Some NLMSG_DONE" "32 \<le> sum_list ns"
  shows "async_dump_links_impl wait os buffer (map Sent ns) (answers mss) c
    = (c1\<lparr>c_sequence := c_sequence c + 1\<rparr>,
       Some (Some (Return (enc_msg RTM_GETLINK 0x301 (c_sequence c) 0 (enc_ifinfomsg 0 0 0 0 0),
         Some (Inr (filter (\<lambda>ev. 0 < link_index ev \<and> link_index ev \<le> 65535) (map link_of_entry es)))))))"
  by (rule dump_links_run [OF assms, unfolded kept_entries])

lemma dump_links_complete_witness:
  "let e = (2, 7, \<lparr>ifi_family = 0, ifi_type = 1, ifi_index = 2, ifi_flags = 0x1003, ifi_change = 0\<rparr>,
         [(IFLA_IFNAME, [101, 116, 104, 48, 0])]);
       far = (2, 7, \<lparr>ifi_family = 0, ifi_type = 1, ifi_index = 70000, ifi_flags = 0, ifi_change = 0\<rparr>, []);
       foreign = enc_msg RTM_NEWLINK 0 9 0 [];
       done = enc_msg NLMSG_DONE 2 1 7 [0, 0, 0, 0]
   in snd (async_dump_links_impl at_once working (replicate 65536 0) (map Sent [20, 12])
        (answers [[enc_link_entry 1 e, foreign], [enc_link_entry 1 far, done]]) control_init)
      = Some (Some (Return (enc_msg RTM_GETLINK 0x301 1 0 (enc_ifinfomsg 0 0 0 0 0),
          Some (Inr [\<lparr>link_type = NEW_LINK, link_index = 2, link_flags = 0x1003, link_change = 0,
            link_name = ''eth0''\<rparr>]))))"
  unfolding Let_def
  by (subst dump_links_complete [OF enter_gate_init ensure_open_working, where es = "[(2, 7, \<lparr>ifi_family = 0, ifi_type = 1,
        ifi_index = 2, ifi_flags = 0x1003, ifi_change = 0\<rparr>, [(IFLA_IFNAME, [101, 116, 104, 48, 0])]),
        (2, 7, \<lparr>ifi_family = 0, ifi_type = 1, ifi_index = 70000, ifi_flags = 0, ifi_change = 0\<rparr>, [])]"
      and d = "enc_msg NLMSG_DONE 2 1 7 [0, 0, 0, 0]" and rest = "[]"])
    (simp_all add: control_init_def concrete_defs enc_link_entry_def bytes_ifinfomsg_def wf_link_entry_def
      wf_link_attrs_def is_ifname_def link_of_entry_def text_defs)

text \<open>
  C2. \<open>Control::dump_routes\<close> asks for the main table and returns, of the routes the kernel reports
  before the end of the dump, exactly those of the main table that have an output interface with an
  index from 1 to 65535, in order, each with the fields of its message and the last attribute of each
  kind. Routes of other tables, routes without an output interface, as to a black hole or over several
  paths, and routes over an interface with a larger index are dropped.
\<close>

theorem dump_routes_complete:
  assumes "enter_gate wait c = Some c1"
    and "snd (ensure_open os (socket_guard_init ''nl-control-route'')) = Return (Inr ())"
    and "length buffer = MAX_RESPONSE_BYTES" "wf_answer MAX_RESPONSE_BYTES mss"
    and "filter (\<lambda>b. nlmsg_seq b 0 = Some (c_sequence c)) (concat mss)
      = map (enc_route_entry (c_sequence c)) es @ d # rest"
    and "list_all wf_route_entry es"
    and "nlmsg_type d 0 = Some NLMSG_DONE" "28 \<le> sum_list ns"
  shows "async_dump_routes_impl ntop wait os buffer (map Sent ns) (answers mss) c
    = (c1\<lparr>c_sequence := c_sequence c + 1\<rparr>,
       Some (Some (Return (enc_msg RTM_GETROUTE 0x301 (c_sequence c) 0 (enc_rtmsg 0 0 0 0 254 0 0 0 0),
         Some (Inr (filter (\<lambda>ev. route_table ev = RT_TABLE_MAIN \<and> 0 < route_oif_index ev \<and> route_oif_index ev \<le> 65535)
           (map (route_of_entry ntop) es)))))))"
  by (rule dump_routes_run [OF assms, unfolded kept_entries])

lemma dump_routes_complete_witness:
  "let e = (2, 7, \<lparr>rtm_family = 2, rtm_dst_len = 8, rtm_src_len = 0, rtm_tos = 0, rtm_table = 254,
         rtm_protocol = 2, rtm_scope = 0, rtm_type = 1, rtm_flags = 0\<rparr>, [(RTA_DST, [10, 0, 0, 0]), (RTA_OIF, le32 12)]);
       skipped = (2, 7, \<lparr>rtm_family = 2, rtm_dst_len = 8, rtm_src_len = 0, rtm_tos = 0, rtm_table = 255,
         rtm_protocol = 2, rtm_scope = 0, rtm_type = 1, rtm_flags = 0\<rparr>, [(RTA_OIF, le32 12)]);
       done = enc_msg NLMSG_DONE 2 1 7 [0, 0, 0, 0]
   in snd (async_dump_routes_impl (\<lambda>_ _. Some ''::1'') at_once working (replicate 65536 0) (map Sent [20, 12])
        (answers [[enc_route_entry 1 e], [enc_route_entry 1 skipped, done]]) control_init)
      = Some (Some (Return (enc_msg RTM_GETROUTE 0x301 1 0 (enc_rtmsg 0 0 0 0 254 0 0 0 0),
          Some (Inr [\<lparr>route_type = NEW_ROUTE, route_family = 2, route_dst_prefix_len = 8,
            route_src_prefix_len = 0, route_scope = 0, route_protocol = 2, route_route_type = 1,
            route_flags = 0, route_table = 254, route_priority = 0, route_oif_index = 12,
            route_dst = ''::1'', route_src = [], route_gateway = [], route_prefsrc = [], route_oif = ''12''\<rparr>]))))"
  unfolding Let_def
  by (subst dump_routes_complete [OF enter_gate_init ensure_open_working, where es = "[(2, 7, \<lparr>rtm_family = 2, rtm_dst_len = 8, rtm_src_len = 0, rtm_tos = 0, rtm_table = 254,
         rtm_protocol = 2, rtm_scope = 0, rtm_type = 1, rtm_flags = 0\<rparr>, [(RTA_DST, [10, 0, 0, 0]), (RTA_OIF, le32 12)]),
        (2, 7, \<lparr>rtm_family = 2, rtm_dst_len = 8, rtm_src_len = 0, rtm_tos = 0, rtm_table = 255,
         rtm_protocol = 2, rtm_scope = 0, rtm_type = 1, rtm_flags = 0\<rparr>, [(RTA_OIF, le32 12)])]"
      and d = "enc_msg NLMSG_DONE 2 1 7 [0, 0, 0, 0]" and rest = "[]"])
    (simp_all add: control_init_def concrete_defs enc_route_entry_def bytes_rtmsg_def wf_route_entry_def
      wf_route_attrs_def route_of_entry_def addr_fits_def addr_len_def addr_text_def
      text_defs is_route_addr_def Let_def trim_ntop_buffer dec_string.simps [of 12] dec_string.simps [of "Suc 0"] payload_u32_le32_single)

text \<open>
  C3. \<open>Control::dump_addresses\<close> returns, of the addresses the kernel reports before the end of the
  dump, exactly those on an interface with an index from 1 to 65535, in order: the local address where
  there is one and the peer address otherwise, the label, and the fields of the message. Addresses on
  other interfaces are dropped.
\<close>

theorem dump_addresses_complete:
  assumes "enter_gate wait c = Some c1"
    and "snd (ensure_open os (socket_guard_init ''nl-control-address'')) = Return (Inr ())"
    and "length buffer = MAX_RESPONSE_BYTES" "wf_answer MAX_RESPONSE_BYTES mss"
    and "filter (\<lambda>b. nlmsg_seq b 0 = Some (c_sequence c)) (concat mss)
      = map (enc_address_entry (c_sequence c)) es @ d # rest"
    and "list_all wf_address_entry es"
    and "nlmsg_type d 0 = Some NLMSG_DONE" "24 \<le> sum_list ns"
  shows "async_dump_addresses_impl ntop wait os buffer (map Sent ns) (answers mss) c
    = (c1\<lparr>c_sequence := c_sequence c + 1\<rparr>,
       Some (Some (Return (enc_msg RTM_GETADDR 0x301 (c_sequence c) 0 (enc_ifaddrmsg 0 0 0 0 0),
         Some (Inr (filter (\<lambda>ev. 0 < address_index ev \<and> address_index ev \<le> 65535) (map (address_of_entry ntop) es)))))))"
  by (rule dump_addresses_run [OF assms, unfolded kept_entries])

lemma dump_addresses_complete_witness:
  "let e = (2, 7, \<lparr>ifa_family = 2, ifa_prefixlen = 24, ifa_flags = 128, ifa_scope = 0, ifa_index = 3\<rparr>,
         [(IFA_LOCAL, [10, 0, 0, 1]), (IFA_LABEL, [101, 116, 104, 48, 0])]);
       skipped = (2, 7, \<lparr>ifa_family = 2, ifa_prefixlen = 24, ifa_flags = 128, ifa_scope = 0, ifa_index = 0\<rparr>, []);
       done = enc_msg NLMSG_DONE 2 1 7 [0, 0, 0, 0]
   in snd (async_dump_addresses_impl (\<lambda>_ _. Some ''::1'') at_once working (replicate 65536 0) (map Sent [20, 12])
        (answers [[enc_address_entry 1 e], [enc_address_entry 1 skipped, done]]) control_init)
      = Some (Some (Return (enc_msg RTM_GETADDR 0x301 1 0 (enc_ifaddrmsg 0 0 0 0 0),
          Some (Inr [\<lparr>address_type = NEW_ADDRESS, address_index = 3, address_prefix_len = 24,
            address_scope = 0, address_flags = 128, address_family = 2, address_address = ''::1'',
            address_label = ''eth0''\<rparr>]))))"
  unfolding Let_def
  by (subst dump_addresses_complete [OF enter_gate_init ensure_open_working, where es = "[(2, 7, \<lparr>ifa_family = 2, ifa_prefixlen = 24, ifa_flags = 128, ifa_scope = 0, ifa_index = 3\<rparr>,
         [(IFA_LOCAL, [10, 0, 0, 1]), (IFA_LABEL, [101, 116, 104, 48, 0])]),
        (2, 7, \<lparr>ifa_family = 2, ifa_prefixlen = 24, ifa_flags = 128, ifa_scope = 0, ifa_index = 0\<rparr>, [])]"
      and d = "enc_msg NLMSG_DONE 2 1 7 [0, 0, 0, 0]" and rest = "[]"])
    (simp_all add: control_init_def concrete_defs enc_address_entry_def bytes_ifaddrmsg_def wf_address_entry_def
      wf_address_attrs_def address_of_entry_def addr_fits_def addr_len_def addr_text_def
      text_defs Let_def trim_ntop_buffer)

text \<open>
  C4. \<open>Control::dump_neighbors\<close> returns, of the neighbors the kernel reports before the end of the
  dump, exactly those on an interface with an index from 1 to 65535, in order, with their addresses as
  text. Neighbors on other interfaces are dropped.
\<close>

theorem dump_neighbors_complete:
  assumes "enter_gate wait c = Some c1"
    and "snd (ensure_open os (socket_guard_init ''nl-control-neighbor'')) = Return (Inr ())"
    and "length buffer = MAX_RESPONSE_BYTES" "wf_answer MAX_RESPONSE_BYTES mss"
    and "filter (\<lambda>b. nlmsg_seq b 0 = Some (c_sequence c)) (concat mss)
      = map (enc_neighbor_entry (c_sequence c)) es @ d # rest"
    and "list_all wf_neighbor_entry es"
    and "nlmsg_type d 0 = Some NLMSG_DONE" "28 \<le> sum_list ns"
  shows "async_dump_neighbors_impl ntop wait os buffer (map Sent ns) (answers mss) c
    = (c1\<lparr>c_sequence := c_sequence c + 1\<rparr>,
       Some (Some (Return (enc_msg RTM_GETNEIGH 0x301 (c_sequence c) 0 (enc_ndmsg 0 0 0 0 0),
         Some (Inr (filter (\<lambda>ev. 0 < neighbor_index ev \<and> neighbor_index ev \<le> 65535) (map (neighbor_of_entry ntop) es)))))))"
  by (rule dump_neighbors_run [OF assms, unfolded kept_entries])

lemma dump_neighbors_complete_witness:
  "let e = (2, 7, \<lparr>ndm_family = 2, ndm_ifindex = 3, ndm_state = NUD_REACHABLE, ndm_flags = 0, ndm_type = 1\<rparr>,
         [(NDA_DST, [10, 0, 0, 1]), (NDA_LLADDR, [2, 0, 0, 0, 0, 171])]);
       skipped = (2, 7, \<lparr>ndm_family = 2, ndm_ifindex = 0, ndm_state = 0, ndm_flags = 0, ndm_type = 1\<rparr>, []);
       done = enc_msg NLMSG_DONE 2 1 7 [0, 0, 0, 0]
   in snd (async_dump_neighbors_impl (\<lambda>_ _. Some ''::1'') at_once working (replicate 65536 0) (map Sent [20, 12])
        (answers [[enc_neighbor_entry 1 e], [enc_neighbor_entry 1 skipped, done]]) control_init)
      = Some (Some (Return (enc_msg RTM_GETNEIGH 0x301 1 0 (enc_ndmsg 0 0 0 0 0),
          Some (Inr [\<lparr>neighbor_type = NEW_NEIGHBOR, neighbor_index = 3, neighbor_family = 2,
            neighbor_state = NUD_REACHABLE, neighbor_flags = 0, neighbor_neighbor_type = 1,
            neighbor_address = ''::1'', neighbor_lladdr = ''02:00:00:00:00:ab''\<rparr>]))))"
  unfolding Let_def
  by (subst dump_neighbors_complete [OF enter_gate_init ensure_open_working, where es = "[(2, 7, \<lparr>ndm_family = 2, ndm_ifindex = 3, ndm_state = NUD_REACHABLE, ndm_flags = 0, ndm_type = 1\<rparr>,
         [(NDA_DST, [10, 0, 0, 1]), (NDA_LLADDR, [2, 0, 0, 0, 0, 171])]),
        (2, 7, \<lparr>ndm_family = 2, ndm_ifindex = 0, ndm_state = 0, ndm_flags = 0, ndm_type = 1\<rparr>, [])]"
      and d = "enc_msg NLMSG_DONE 2 1 7 [0, 0, 0, 0]" and rest = "[]"])
    (simp_all add: control_init_def concrete_defs enc_neighbor_entry_def bytes_ndmsg_def wf_neighbor_entry_def
      wf_neighbor_attrs_def neighbor_of_entry_def addr_fits_def addr_len_def addr_text_def
      text_defs Let_def trim_ntop_buffer hwaddr_string_def hex_byte_def kHex_def upt_conv_Cons)

text \<open>
  C5. \<open>Control::get_neighbor\<close> returns the first neighbor the kernel reports in answer to the
  request that has a link-layer address, with the fields and addresses of its message; neighbors
  without one before it are skipped.
\<close>

theorem get_neighbor_resolved:
  assumes "enter_gate wait c = Some c1"
    and "snd (ensure_open os (c_guard c)) = Return (Inr ())" and "length address = 16"
    and "length buffer = MAX_RESPONSE_BYTES" "wf_answer MAX_RESPONSE_BYTES mss"
    and "filter (\<lambda>b. nlmsg_seq b 0 = Some (c_sequence c)) (concat mss)
      = map (enc_neighbor_entry (c_sequence c)) es @ enc_neighbor_entry (c_sequence c) e # rest"
    and "list_all wf_neighbor_entry (e # es)"
    and "list_all (\<lambda>e. neighbor_lladdr (neighbor_of_entry ntop e) = []) es"
    and "neighbor_lladdr (neighbor_of_entry ntop e) \<noteq> []" "48 \<le> sum_list ns"
  shows "async_get_neighbor_impl ntop index address wait os buffer (map Sent ns) (answers mss) c
    = (c1\<lparr>c_guard := fst (ensure_open os (c_guard c)), c_sequence := c_sequence c + 1\<rparr>,
       Some (Some (Return (enc_neighbor_query RTM_GETNEIGH NLM_F_REQUEST (c_sequence c) index 0 0 address,
         Some (Inr (neighbor_of_entry ntop e))))))"
proof (rule get_neighbor_run [OF assms(1-3) _ assms(10,6)])
  have type: "neighbor_type (neighbor_of_entry ntop e) = NEW_NEIGHBOR" for e
    by (cases e) (simp add: neighbor_of_entry_def)
  have answer: "neighbor_answer ntop (enc_neighbor_entry seq e)
      = Some (if neighbor_lladdr (neighbor_of_entry ntop e) \<noteq> [] then Some (Inr (neighbor_of_entry ntop e)) else None)"
    if "wf_neighbor_entry e" for e seq
    using that by (simp add: neighbor_answer_def neighbor_entry_hdr neighbor_entry_parse type)
  show "neighbor_answer ntop b = Some None" if "b \<in> set (map (enc_neighbor_entry (c_sequence c)) es)" for b
    using that assms(7,8) answer by (auto simp: list.pred_set)
  show "neighbor_answer ntop (enc_neighbor_entry (c_sequence c) e) = Some (Some (Inr (neighbor_of_entry ntop e)))"
    using assms(7,9) answer by simp
qed (use assms(4,5) in simp)

lemma get_neighbor_resolved_witness:
  "let stale = (0, 7, \<lparr>ndm_family = 2, ndm_ifindex = 3, ndm_state = NUD_FAILED, ndm_flags = 0, ndm_type = 1\<rparr>, []);
       e = (0, 7, \<lparr>ndm_family = 2, ndm_ifindex = 3, ndm_state = NUD_REACHABLE, ndm_flags = 0, ndm_type = 1\<rparr>,
         [(NDA_LLADDR, [2, 0, 0, 0, 0, 171])])
   in snd (async_get_neighbor_impl (\<lambda>_ _. None) 3 (replicate 16 1) at_once working (replicate 65536 0)
        (map Sent [48]) (answers [[enc_neighbor_entry 1 stale, enc_neighbor_entry 1 e]]) control_init)
      = Some (Some (Return (enc_neighbor_query RTM_GETNEIGH 1 1 3 0 0 (replicate 16 1),
          Some (Inr \<lparr>neighbor_type = NEW_NEIGHBOR, neighbor_index = 3, neighbor_family = 2,
            neighbor_state = NUD_REACHABLE, neighbor_flags = 0, neighbor_neighbor_type = 1,
            neighbor_address = [], neighbor_lladdr = ''02:00:00:00:00:ab''\<rparr>))))"
  unfolding Let_def
  by (subst get_neighbor_resolved [OF enter_gate_init, where
        es = "[(0, 7, \<lparr>ndm_family = 2, ndm_ifindex = 3, ndm_state = NUD_FAILED, ndm_flags = 0, ndm_type = 1\<rparr>, [])]"
      and e = "(0, 7, \<lparr>ndm_family = 2, ndm_ifindex = 3, ndm_state = NUD_REACHABLE, ndm_flags = 0, ndm_type = 1\<rparr>,
         [(NDA_LLADDR, [2, 0, 0, 0, 0, 171])])" and rest = "[]"])
    (simp_all add: control_init_def ensure_open_working concrete_defs enc_neighbor_entry_def bytes_ndmsg_def
      wf_neighbor_entry_def wf_neighbor_attrs_def neighbor_of_entry_def hwaddr_string_def hex_byte_def kHex_def
      upt_conv_Cons)

text \<open>
  C6. \<open>Control::get_neighbor\<close> fails with \<open>ENOENT\<close> when the kernel's answer ends, or is
  acknowledged, before a neighbor with a link-layer address was reported, and with the kernel's
  error when that is what it answers.
\<close>

theorem get_neighbor_absent:
  assumes "enter_gate wait c = Some c1"
    and "snd (ensure_open os (c_guard c)) = Return (Inr ())" and "length address = 16"
    and "length buffer = MAX_RESPONSE_BYTES" "wf_answer MAX_RESPONSE_BYTES mss"
    and "filter (\<lambda>b. nlmsg_seq b 0 = Some (c_sequence c)) (concat mss)
      = map (enc_neighbor_entry (c_sequence c)) es @ d # rest"
    and "list_all wf_neighbor_entry es"
    and "list_all (\<lambda>e. neighbor_lladdr (neighbor_of_entry ntop e) = []) es"
    and "nlmsg_type d 0 = Some NLMSG_DONE \<and> error = ENOENT
      \<or> d = enc_error (c_sequence c) pid (- error) payload \<and> 0 < error \<and> error < 2 ^ 31
      \<or> d = enc_error (c_sequence c) pid 0 payload \<and> error = ENOENT"
    and "48 \<le> sum_list ns"
  shows "async_get_neighbor_impl ntop index address wait os buffer (map Sent ns) (answers mss) c
    = (c1\<lparr>c_guard := fst (ensure_open os (c_guard c)), c_sequence := c_sequence c + 1\<rparr>,
       Some (Some (Return (enc_neighbor_query RTM_GETNEIGH NLM_F_REQUEST (c_sequence c) index 0 0 address,
         Some (Inl (Error_Code Generic_Category error))))))"
proof (rule get_neighbor_run [OF assms(1-3) _ assms(10,6)])
  show "neighbor_answer ntop b = Some None" if "b \<in> set (map (enc_neighbor_entry (c_sequence c)) es)" for b
    using that assms(7,8) by (auto simp: list.pred_set neighbor_answer_def neighbor_entry_hdr neighbor_entry_parse)
  show "neighbor_answer ntop d = Some (Some (Inl (Error_Code Generic_Category error)))"
    using assms(9) nlmsgerr_code_enc [of 0] nlmsgerr_code_enc [of "- error"]
    by (auto simp: neighbor_answer_def enc_error_hdr)
qed (use assms(4,5) in simp)

lemma get_neighbor_absent_witness:
  "snd (async_get_neighbor_impl (\<lambda>_ _. None) 3 (replicate 16 1) at_once working (replicate 65536 0)
        (map Sent [48]) (answers [[enc_error 1 7 (- 19) []]]) control_init)
      = Some (Some (Return (enc_neighbor_query RTM_GETNEIGH 1 1 3 0 0 (replicate 16 1),
          Some (Inl (Error_Code Generic_Category 19)))))"
  by (subst get_neighbor_absent [OF enter_gate_init, where es = "[]" and d = "enc_error 1 7 (- 19) []" and rest = "[]"
        and error = 19 and pid = 7 and payload = "[]"])
    (simp_all add: control_init_def ensure_open_working concrete_defs enc_error_def)

text \<open>
  C7. \<open>Control::probe_neighbor\<close> asks the kernel to probe the neighbor and succeeds exactly when
  the kernel acknowledges the request; any other error message is its error.
\<close>

theorem probe_neighbor_acknowledged:
  assumes "enter_gate wait c = Some c1"
    and "snd (ensure_open os (c_guard c)) = Return (Inr ())" "length address = 16"
    and "length buffer = MAX_RESPONSE_BYTES" "wf_answer MAX_RESPONSE_BYTES mss" "48 \<le> sum_list ns"
    and "filter (\<lambda>b. nlmsg_seq b 0 = Some (c_sequence c)) (concat mss)
      = ms @ enc_error (c_sequence c) pid error payload # rest"
    and "list_all (\<lambda>b. nlmsg_type b 0 \<noteq> None \<and> nlmsg_type b 0 \<noteq> Some NLMSG_ERROR) ms"
    and "- (2 ^ 31) < error" "error \<le> 0"
  shows "async_probe_neighbor_impl index address wait os buffer (map Sent ns) (answers mss) c
    = (c1\<lparr>c_guard := fst (ensure_open os (c_guard c)), c_sequence := c_sequence c + 1\<rparr>,
       Some (Some (Return (enc_neighbor_query RTM_NEWNEIGH 0x505 (c_sequence c) index NUD_PROBE NTF_USE address,
         Some (if error = 0 then Inr () else Inl (Error_Code Generic_Category (- error)))))))"
proof -
  have wf: "wf_answer (length buffer) mss" using assms(4,5) by simp
  have ms: "\<exists>ty. nlmsg_type b 0 = Some ty \<and> ty \<noteq> NLMSG_ERROR" if "b \<in> set ms" for b
    using assms(8) that by (auto simp: list.pred_set)
  have code: "nlmsgerr_code (enc_error (c_sequence c) pid error payload) 0
      = Some (Error_Code Generic_Category (- error))"
    using assms(9,10) by (intro nlmsgerr_code_enc) simp_all
  show ?thesis
    using probe_neighbor_run [OF assms(1-3) wf assms(6,7) ms enc_error_hdr(1) code] by simp
qed

lemma probe_neighbor_acknowledged_witness:
  "snd (async_probe_neighbor_impl 3 (replicate 16 1) at_once working (replicate 65536 0) (map Sent [48])
      (answers [[enc_msg RTM_NEWNEIGH 0 0 0 []], [enc_error 1 7 0 []]]) control_init)
    = Some (Some (Return (enc_neighbor_query RTM_NEWNEIGH 0x505 1 3 NUD_PROBE NTF_USE (replicate 16 1),
        Some (Inr ()))))"
  by (subst probe_neighbor_acknowledged [OF enter_gate_init, where ms = "[]" and rest = "[]" and error = 0 and pid = 7 and payload = "[]"])
    (simp_all add: control_init_def ensure_open_working concrete_defs enc_error_def)

text \<open>
  C8. \<open>Control::flush_neighbor\<close> asks the kernel to delete the neighbor and succeeds exactly when
  the kernel acknowledges the request; any other error message is its error.
\<close>

theorem flush_neighbor_acknowledged:
  assumes "enter_gate wait c = Some c1"
    and "snd (ensure_open os (c_guard c)) = Return (Inr ())" "length address = 16"
    and "length buffer = MAX_RESPONSE_BYTES" "wf_answer MAX_RESPONSE_BYTES mss" "48 \<le> sum_list ns"
    and "filter (\<lambda>b. nlmsg_seq b 0 = Some (c_sequence c)) (concat mss)
      = ms @ enc_error (c_sequence c) pid error payload # rest"
    and "list_all (\<lambda>b. nlmsg_type b 0 \<noteq> None \<and> nlmsg_type b 0 \<noteq> Some NLMSG_ERROR) ms"
    and "- (2 ^ 31) < error" "error \<le> 0"
  shows "async_flush_neighbor_impl index address wait os buffer (map Sent ns) (answers mss) c
    = (c1\<lparr>c_guard := fst (ensure_open os (c_guard c)), c_sequence := c_sequence c + 1\<rparr>,
       Some (Some (Return (enc_neighbor_query RTM_DELNEIGH 0x5 (c_sequence c) index 0 0 address,
         Some (if error = 0 then Inr () else Inl (Error_Code Generic_Category (- error)))))))"
proof -
  have wf: "wf_answer (length buffer) mss" using assms(4,5) by simp
  have ms: "\<exists>ty. nlmsg_type b 0 = Some ty \<and> ty \<noteq> NLMSG_ERROR" if "b \<in> set ms" for b
    using assms(8) that by (auto simp: list.pred_set)
  have code: "nlmsgerr_code (enc_error (c_sequence c) pid error payload) 0
      = Some (Error_Code Generic_Category (- error))"
    using assms(9,10) by (intro nlmsgerr_code_enc) simp_all
  show ?thesis
    using flush_neighbor_run [OF assms(1-3) wf assms(6,7) ms enc_error_hdr(1) code] by simp
qed

lemma flush_neighbor_acknowledged_witness:
  "snd (async_flush_neighbor_impl 3 (replicate 16 1) at_once working (replicate 65536 0) (map Sent [48])
      (answers [[enc_msg RTM_NEWNEIGH 0 0 0 []], [enc_error 1 7 (- 2) []]]) control_init)
    = Some (Some (Return (enc_neighbor_query RTM_DELNEIGH 0x5 1 3 0 0 (replicate 16 1),
        Some (Inl (Error_Code Generic_Category 2)))))"
  by (subst flush_neighbor_acknowledged [OF enter_gate_init, where ms = "[]" and rest = "[]" and error = "- 2" and pid = 7 and payload = "[]"])
    (simp_all add: control_init_def ensure_open_working concrete_defs enc_error_def)

section \<open>Failures\<close>

text \<open>
  C9. When the kernel refuses a dump with an error, after no matter how many routes, the public
  function returns that error: the routes received before it are dropped.
\<close>

theorem dump_routes_refused:
  assumes "enter_gate wait c = Some c1"
    and "snd (ensure_open os (socket_guard_init ''nl-control-route'')) = Return (Inr ())"
    and "length buffer = MAX_RESPONSE_BYTES" "wf_answer MAX_RESPONSE_BYTES mss"
    and "filter (\<lambda>b. nlmsg_seq b 0 = Some (c_sequence c)) (concat mss)
      = map (enc_route_entry (c_sequence c)) es @ enc_error (c_sequence c) pid error payload # rest"
    and "list_all wf_route_entry es"
    and "- (2 ^ 31) < error" "error < 0" "28 \<le> sum_list ns"
  shows "dump_routes ntop wait os buffer (map Sent ns) (answers mss) c
    = (c1\<lparr>c_sequence := c_sequence c + 1\<rparr>, Some (Returned (Inl (Error_Code Generic_Category (- error)))))"
proof -
  obtain g where g: "ensure_open os (socket_guard_init ''nl-control-route'') = (g, Return (Inr ()))"
    using assms(2) by (cases "ensure_open os (socket_guard_init ''nl-control-route'')") simp
  have wf: "wf_answer (length buffer) mss" using assms(3,4) by simp
  have es: "wf_route_entry e" if "e \<in> set es" for e using assms(6) that by (simp add: list.pred_set)
  have p: "route_request_payload (route_dump_prepare_request (route_dump_init 0 (c_sequence c)))
      = Some (enc_msg RTM_GETROUTE 0x301 (c_sequence c) 0 (enc_rtmsg 0 0 0 0 254 0 0 0 0))"
    by (simp add: route_dump_payload)
  have n: "length (enc_msg RTM_GETROUTE 0x301 (c_sequence c) 0 (enc_rtmsg 0 0 0 0 254 0 0 0 0)) \<le> sum_list ns"
    using assms(9) by simp
  obtain t where "async_run route_dump_prepare_request route_request_payload (route_dump_process_message ntop)
      buffer (route_dump_init 0 (c_sequence c)) (map Sent ns) (answers mss)
    = Some (Some (enc_msg RTM_GETROUTE 0x301 (c_sequence c) 0 (enc_rtmsg 0 0 0 0 254 0 0 0 0), t,
        Some (Inl (Error_Code Generic_Category (- error)))))"
    using route_dump_refused [OF wf assms(5) es assms(7,8) p n] by blast
  then show ?thesis
    by (simp add: dump_routes_def future_get_def async_dump_routes_impl_def past_gate_enter [OF assms(1)] enter_gate_simps [OF assms(1)] g
        fetch_add_def task_result_def)
qed

lemma dump_routes_refused_witness:
  "dump_routes (\<lambda>_ _. None) at_once working (replicate 65536 0) (map Sent [28])
      (answers [[enc_error 1 7 (- 1) []]]) control_init
    = (control_init\<lparr>c_sequence := 2, c_expiry := 1\<rparr>, Some (Returned (Inl (Error_Code Generic_Category 1))))"
  by (subst dump_routes_refused [OF enter_gate_init ensure_open_working, where es = "[]" and rest = "[]"
        and error = "- 1" and pid = 7 and payload = "[]"])
    (simp_all add: control_init_def concrete_defs enc_error_def)

text \<open>
  The operations on neighbors share one socket, and each drops what does not carry its own
  sequence number. When the kernel's answer has been received by another operation, the caller
  waits for it without end: however many other messages come, the public function does not return.
\<close>

lemma probe_neighbor_waits:
  assumes "enter_gate wait c = Some c1" "snd (ensure_open os (c_guard c)) = Return (Inr ())"
    and "length address = 16" "length buffer = MAX_RESPONSE_BYTES" "wf_answer MAX_RESPONSE_BYTES mss"
    and "list_all (\<lambda>b. nlmsg_type b 0 \<noteq> None) (concat mss)"
    and "list_all (\<lambda>b. nlmsg_seq b 0 \<noteq> Some (c_sequence c) \<or> nlmsg_type b 0 \<noteq> Some NLMSG_ERROR) (concat mss)"
    and "48 \<le> sum_list ns"
  shows "probe_neighbor index address wait os buffer (map Sent ns) (answers mss) c
    = (c1\<lparr>c_guard := fst (ensure_open os (c_guard c)), c_sequence := c_sequence c + 1\<rparr>, Some Still_Waiting)"
proof -
  let ?t = "neighbor_probe_init index (c_sequence c) address"
  let ?q = "enc_neighbor_query RTM_NEWNEIGH 0x505 (c_sequence c) index NUD_PROBE NTF_USE address"
  have t: "valid_neighbor_task probe_address ?t" using assms(3) by simp
  have p: "neighbor_request_payload (neighbor_probe_prepare_request ?t) = Some ?q"
    using neighbor_probe_payload [OF t] assms(3) by simp
  have n: "length ?q \<le> sum_list ns"
    using enc_neighbor_query_length [OF assms(3)] assms(8) order_trans by blast
  have wf: "wf_answer (length buffer) mss" using assms(4,5) by simp
  have other: "\<exists>ty. nlmsg_type b 0 = Some ty \<and> ty \<noteq> NLMSG_ERROR"
    if "b \<in> set (concat mss)" "nlmsg_seq b 0 = Some (sequence ?t)" for b
  proof -
    have "nlmsg_type b 0 \<noteq> None" using assms(6) that(1) unfolding list.pred_set by blast
    moreover have "nlmsg_type b 0 \<noteq> Some NLMSG_ERROR"
      using assms(7) that by (simp only: list.pred_set neighbor_probe_init_simps) blast
    ultimately show ?thesis by (cases "nlmsg_type b 0") simp_all
  qed
  obtain g where "ensure_open os (c_guard c) = (g, Return (Inr ()))"
    using assms(2) by (cases "ensure_open os (c_guard c)") simp
  then show ?thesis
    using neighbor_probe.ack_waits [OF t wf other p n]
    by (simp add: probe_neighbor_def future_get_def async_probe_neighbor_impl_def past_gate_enter [OF assms(1)] enter_gate_simps [OF assms(1)]
        fetch_add_def task_result_def)
qed

lemma probe_neighbor_waits_witness:
  "snd (probe_neighbor 3 (replicate 16 1) at_once working (replicate 65536 0) (map Sent [48])
      (answers [[enc_error 9 7 0 []]]) control_init) = Some Still_Waiting"
  by (subst probe_neighbor_waits [OF enter_gate_init])
    (simp_all add: control_init_def ensure_open_working concrete_defs enc_error_def)

text \<open>
  When the wait at the gate fails, or the socket of a dump cannot be opened, the public
  function reports it, by the exception or the error, and nothing but the timer of the gate has
  changed: in particular no sequence number has been drawn.
\<close>

lemma dump_links_not_started:
  assumes "next_expiry (gp_now wait) (c_expiry c) = Some next"
    and "gp_wait wait = Some ec \<and> ec \<noteq> Error_Code System_Category 125 \<and> r = Rethrown ''gate wait failed: '' ec
    \<or> gate_passed (gp_wait wait) = Return ()
        \<and> snd (ensure_open os (socket_guard_init ''nl-control-link'')) = Throw text ec \<and> r = Rethrown text ec
    \<or> gate_passed (gp_wait wait) = Return ()
        \<and> snd (ensure_open os (socket_guard_init ''nl-control-link'')) = Return (Inl ec) \<and> r = Returned (Inl ec)"
  shows "dump_links wait os buffer sends recvs c = (c\<lparr>c_expiry := next\<rparr>, Some r)"
  using assms
  by (cases "ensure_open os (socket_guard_init ''nl-control-link'')")
    (auto simp: dump_links_def future_get_def async_dump_links_impl_def past_gate_def gate_passed_def)

lemma dump_links_not_started_witness:
  "dump_links \<lparr>gp_now = 0, gp_wait = Some bad_descriptor\<rparr> working [] [] [] control_init
    = (control_init\<lparr>c_expiry := 1\<rparr>, Some (Rethrown ''gate wait failed: '' bad_descriptor))"
  by (rule dump_links_not_started [where ec = bad_descriptor])
    (simp_all add: bad_descriptor_def control_init_def next_expiry_def s64_plus_def)

end
